(* ===== verification/Prelude.thy ===== *)
theory Prelude
  imports
    Main
    "HOL-Library.Monad_Syntax"
    "HOL-Library.Word"
    "HOL-Library.Char_ord"
    "HOL-Library.Sublist"
begin

text \<open>
  The prelude of the development: the types that name Go's values, checked array accesses, the
  loop combinator that models Go's \<open>for\<close> and the generic lemmas on lists, options and bytes that
  the component theories share.

  A Go string or byte slice is a list of bytes, \<^typ>\<open>string\<close>. An operation that can panic
  returns an \<open>option\<close>, with \<open>None\<close> for the panic. An operation that returns a Go \<open>error\<close> has the
  error in its result type.
\<close>

named_theorems go_lib \<open>equations of the modelled part of Go's standard library\<close>
named_theorems byte_eval \<open>evaluation of bytes on literals\<close>
named_theorems panic_free \<open>checked accesses that succeed\<close>

type_synonym go_error = string
type_synonym byte = "8 word"

subsection \<open>Checked accesses to strings and slices\<close>

definition at :: "'a list \<Rightarrow> nat \<Rightarrow> 'a option" where
  "at xs i = (if i < length xs then Some (xs ! i) else None)"

definition put :: "'a list \<Rightarrow> nat \<Rightarrow> 'a \<Rightarrow> 'a list option" where
  "put xs i v = (if i < length xs then Some (xs[i := v]) else None)"

definition slice :: "'a list \<Rightarrow> nat \<Rightarrow> nat \<Rightarrow> 'a list option" where
  "slice xs i j = (if i \<le> j \<and> j \<le> length xs then Some (take (j - i) (drop i xs)) else None)"

lemma at_in_range [simp, panic_free]: "i < length xs \<Longrightarrow> at xs i = Some (xs ! i)"
  by (simp add: at_def)

lemma put_in_range [simp, panic_free]: "i < length xs \<Longrightarrow> put xs i v = Some (xs[i := v])"
  by (simp add: put_def)

lemma at_None_iff [simp]: "at xs i = None \<longleftrightarrow> length xs \<le> i"
  by (auto simp: at_def)

lemma at_append_left [simp]: "at (p @ r) (length p + k) = at r k"
  by (simp add: at_def)

lemma at_append_left0 [simp]: "at (p @ r) (length p) = at r 0"
  by (simp add: at_def nth_append)

lemma at_Cons_0 [simp]: "at (x # xs) 0 = Some x"
  by (simp add: at_def)

lemma at_Cons_Suc [simp]: "at (x # xs) (Suc k) = at xs k"
  by (simp add: at_def)

lemma at_Cons_numeral [simp]: "at (x # xs) (numeral k) = at xs (pred_numeral k)"
  by (simp add: at_def numeral_eq_Suc)

lemma slice_prefix: "j \<le> length xs \<Longrightarrow> slice xs 0 j = Some (take j xs)"
  by (simp add: slice_def)

subsection \<open>Writing a run of bytes into a buffer\<close>

text \<open>
  \<open>overwrite d c out\<close> is the buffer \<open>d\<close> after \<open>d[c] = out[0]; d[c+1] = out[1]; \<dots>\<close>.
\<close>

definition overwrite :: "'a list \<Rightarrow> nat \<Rightarrow> 'a list \<Rightarrow> 'a list" where
  "overwrite d c out = take c d @ out @ drop (c + length out) d"

lemma overwrite_Nil [simp]: "overwrite d c [] = d"
  by (simp add: overwrite_def)

lemma overwrite_one: "c < length d \<Longrightarrow> overwrite d c [v] = d[c := v]"
  by (simp add: overwrite_def upd_conv_take_nth_drop)

lemma overwrite_two:
  assumes "Suc c < length d"
  shows "overwrite d c [v, w] = d[c := v, Suc c := w]"
proof -
  have "d[c := v, Suc c := w] = take (Suc c) (d[c := v]) @ w # drop (Suc (Suc c)) (d[c := v])"
    using assms by (simp add: upd_conv_take_nth_drop)
  also have "take (Suc c) (d[c := v]) = take c d @ [v]"
    using assms by (simp add: take_Suc_conv_app_nth)
  finally show ?thesis
    by (simp add: overwrite_def)
qed

lemma length_overwrite: "c + length out \<le> length d \<Longrightarrow> length (overwrite d c out) = length d"
  by (simp add: overwrite_def)

lemma take_overwrite:
  "c + length out \<le> length d \<Longrightarrow> take (c + length out) (overwrite d c out) = take c d @ out"
  by (simp add: overwrite_def)

lemma drop_overwrite:
  "c + length out \<le> n \<Longrightarrow> n \<le> length d \<Longrightarrow> drop n (overwrite d c out) = drop n d"
  by (simp add: overwrite_def)

subsection \<open>Loops\<close>

text \<open>
  \<open>for_loop b f s\<close> runs the body \<open>f\<close> from state \<open>s\<close> while the guard \<open>b\<close> holds. Its value is \<open>None\<close>
  when an iteration panics and when the loop does not end, so a theorem that it is \<open>Some\<close>
  excludes both.
\<close>

partial_function (option) for_loop :: "('s \<Rightarrow> bool) \<Rightarrow> ('s \<Rightarrow> 's option) \<Rightarrow> 's \<Rightarrow> 's option" where
  "for_loop b f s = (if b s then Option.bind (f s) (\<lambda>t. for_loop b f t) else Some s)"

lemma for_loop_stop: "\<not> b s \<Longrightarrow> for_loop b f s = Some s"
  by (simp add: for_loop.simps)

lemma for_loop_step: "b s \<Longrightarrow> f s = Some t \<Longrightarrow> for_loop b f s = for_loop b f t"
  by (simp add: for_loop.simps [of b f s])

lemma for_loop_panic: "b s \<Longrightarrow> f s = None \<Longrightarrow> for_loop b f s = None"
  by (simp add: for_loop.simps [of b f s])

text \<open>
  Total correctness: an invariant that every iteration keeps, without a panic, while a measure
  falls, holds when the loop ends, and the loop ends.
\<close>

lemma for_loop_total:
  assumes "I s"
    and step: "\<And>s. I s \<Longrightarrow> b s \<Longrightarrow> \<exists>t. f s = Some t \<and> I t \<and> (m t :: nat) < m s"
  shows "\<exists>t. for_loop b f s = Some t \<and> I t \<and> \<not> b t"
  using \<open>I s\<close>
proof (induction "m s" arbitrary: s rule: less_induct)
  case less
  show ?case
  proof (cases "b s")
    case True
    with step less.prems obtain t where t: "f s = Some t" "I t" "m t < m s" by blast
    then have "\<exists>u. for_loop b f t = Some u \<and> I u \<and> \<not> b u"
      by (intro less.hyps) auto
    with True t(1) show ?thesis by (simp add: for_loop_step)
  next
    case False
    with less.prems show ?thesis by (auto simp: for_loop_stop)
  qed
qed

text \<open>\<open>ofold f xs s\<close> runs \<open>f\<close> over the elements of a list, Go's \<open>for range\<close>, and stops at the first panic.\<close>

fun ofold :: "('a \<Rightarrow> 's \<Rightarrow> 's option) \<Rightarrow> 'a list \<Rightarrow> 's \<Rightarrow> 's option" where
  "ofold f [] s = Some s"
| "ofold f (x # xs) s = Option.bind (f x s) (ofold f xs)"

lemma ofold_invariant:
  assumes "ofold f xs s = Some s'" "P s" "\<And>x s s'. x \<in> set xs \<Longrightarrow> P s \<Longrightarrow> f x s = Some s' \<Longrightarrow> P s'"
  shows "P s'"
  using assms by (induction xs arbitrary: s) (auto simp: bind_eq_Some_conv)

lemma ofold_total:
  assumes "P s" "\<And>x s. x \<in> set xs \<Longrightarrow> P s \<Longrightarrow> \<exists>s'. f x s = Some s' \<and> P s'"
  shows "\<exists>s'. ofold f xs s = Some s' \<and> P s'"
  using assms
proof (induction xs arbitrary: s)
  case (Cons x xs)
  then obtain t where "f x s = Some t" "P t" by (metis list.set_intros(1))
  with Cons show ?case by simp
qed simp

lemma ofold_Some: "(\<And>x s. x \<in> set xs \<Longrightarrow> \<exists>s'. f x s = Some s') \<Longrightarrow> \<exists>s'. ofold f xs s = Some s'"
  using ofold_total [of "\<lambda>_. True" s xs f] by simp

subsection \<open>Bytes\<close>

text \<open>
  A byte of a string is a \<^typ>\<open>char\<close>. Where the source computes with it, \<open>to_byte\<close> gives the
  8-bit word, whose arithmetic wraps around as Go's \<open>byte\<close> does.
\<close>

definition to_byte :: "char \<Rightarrow> byte" where
  "to_byte c = of_char c"

definition of_byte :: "byte \<Rightarrow> char" where
  "of_byte w = char_of (unat w)"

abbreviation ord :: "char \<Rightarrow> nat" where
  "ord c \<equiv> of_char c"

lemma char_of_bits [byte_eval]:
  "char_of (n :: nat) = Char (odd n) (odd (n div 2)) (odd (n div 4)) (odd (n div 8))
     (odd (n div 16)) (odd (n div 32)) (odd (n div 64)) (odd (n div 128))"
  by (simp add: char_of_def bit_iff_odd)

lemma unat_to_byte: "unat (to_byte c) = ord c"
proof -
  have "to_byte c = of_nat (ord c)"
    by (simp add: to_byte_def of_nat_of_char)
  then show ?thesis
    by (simp add: unat_of_nat)
qed

lemma ord_less_256: "ord c < 256"
  by (metis char_of_char of_char_of pos_mod_bound mod_less_divisor zero_less_numeral)

lemma of_byte_to_byte [simp]: "of_byte (to_byte c) = c"
  by (simp add: of_byte_def unat_to_byte)

lemma to_byte_of_byte [simp]: "to_byte (of_byte w) = w"
proof -
  have "unat w < 256"
    by (rule order_less_le_trans [OF unsigned_less]) simp
  then have "unat (to_byte (of_byte w)) = unat w"
    by (simp add: unat_to_byte of_byte_def)
  then show ?thesis by (rule word_unat_eq_iff [THEN iffD2])
qed

lemma to_byte_inj: "to_byte a = to_byte b \<longleftrightarrow> a = b"
  by (metis of_byte_to_byte)

subsection \<open>Lists and options\<close>

lemma drop_eq_Cons_nth: "i < length xs \<Longrightarrow> drop i xs = xs ! i # drop (Suc i) xs"
  by (simp add: Cons_nth_drop_Suc)

lemma filter_idem [simp]: "filter P (filter P xs) = filter P xs"
  by (simp add: filter_id_conv)

lemma distinct_map_filter: "distinct (map f xs) \<Longrightarrow> distinct (map f (filter P xs))"
  by (induction xs) auto

end
