(* ===== verification/Go_Lib.thy ===== *)
theory Go_Lib
  imports Prelude
begin

text \<open>
  The part of Go's standard library that the modelled code calls: \<open>strings\<close>, \<open>strconv\<close>,
  \<open>unicode\<close> on single bytes, \<open>encoding/base64\<close> and \<open>encoding/hex\<close>. Case mapping and trimming are
  given for ASCII, the range on which Go's implementations take their byte-wise fast path.
\<close>

subsection \<open>Package strings\<close>

definition lower_char :: "char \<Rightarrow> char" where
  "lower_char c = (if CHR ''A'' \<le> c \<and> c \<le> CHR ''Z'' then char_of (ord c + 32) else c)"

definition upper_char :: "char \<Rightarrow> char" where
  "upper_char c = (if CHR ''a'' \<le> c \<and> c \<le> CHR ''z'' then char_of (ord c - 32) else c)"

definition to_lower :: "string \<Rightarrow> string" where
  "to_lower s = map lower_char s"

definition to_upper :: "string \<Rightarrow> string" where
  "to_upper s = map upper_char s"

abbreviation has_prefix :: "string \<Rightarrow> string \<Rightarrow> bool" where
  "has_prefix s p \<equiv> prefix p s"

abbreviation has_suffix :: "string \<Rightarrow> string \<Rightarrow> bool" where
  "has_suffix s p \<equiv> suffix p s"

fun contains :: "string \<Rightarrow> string \<Rightarrow> bool" where
  "contains [] sub = (sub = [])"
| "contains (c # s) sub = (prefix sub (c # s) \<or> contains s sub)"

fun index_byte :: "string \<Rightarrow> char \<Rightarrow> nat option" where
  "index_byte [] c = None"
| "index_byte (x # s) c = (if x = c then Some 0 else map_option Suc (index_byte s c))"

text \<open>The index of the first byte that satisfies a test, as \<open>strings.IndexByte\<close> and search loops find it.\<close>

fun first_index :: "(char \<Rightarrow> bool) \<Rightarrow> string \<Rightarrow> nat option" where
  "first_index P [] = None"
| "first_index P (x # s) = (if P x then Some 0 else map_option Suc (first_index P s))"

definition str_cut :: "string \<Rightarrow> char \<Rightarrow> string \<times> string \<times> bool" where
  "str_cut s c = (case index_byte s c of
     None \<Rightarrow> (s, [], False)
   | Some i \<Rightarrow> (take i s, drop (Suc i) s, True))"

fun split :: "char \<Rightarrow> string \<Rightarrow> string list" where
  "split c [] = [[]]"
| "split c (x # s) = (if x = c then [] # split c s
     else (case split c s of [] \<Rightarrow> [[x]] | w # ws \<Rightarrow> (x # w) # ws))"

definition trim_left :: "string \<Rightarrow> string \<Rightarrow> string" where
  "trim_left s cutset = dropWhile (\<lambda>c. c \<in> set cutset) s"

definition trim_right :: "string \<Rightarrow> string \<Rightarrow> string" where
  "trim_right s cutset = rev (dropWhile (\<lambda>c. c \<in> set cutset) (rev s))"

definition trim_both :: "string \<Rightarrow> string \<Rightarrow> string" where
  "trim_both s cutset = trim_right (trim_left s cutset) cutset"

definition ascii_spaces :: string where
  "ascii_spaces = [CHR 0x09, CHR 0x0A, CHR 0x0B, CHR 0x0C, CHR 0x0D, CHR '' '']"

definition trim_space :: "string \<Rightarrow> string" where
  "trim_space s = trim_both s ascii_spaces"

lemma lower_char_idem [simp]: "lower_char (lower_char c) = lower_char c"
proof (cases "CHR ''A'' \<le> c \<and> c \<le> CHR ''Z''")
  case True
  then have "65 \<le> ord c" "ord c \<le> 90"
    by (simp_all add: less_eq_char_def)
  then have "ord (char_of (ord c + 32)) = ord c + 32"
    by simp
  with \<open>65 \<le> ord c\<close> show ?thesis
    by (simp add: lower_char_def less_eq_char_def)
next
  case False
  then have "lower_char c = c"
    by (auto simp: lower_char_def)
  then show ?thesis by simp
qed

lemma to_lower_idem [simp]: "to_lower (to_lower s) = to_lower s"
  by (simp add: to_lower_def)

lemma length_to_lower [simp]: "length (to_lower s) = length s"
  by (simp add: to_lower_def)

lemma to_lower_Nil_iff [simp]: "to_lower s = [] \<longleftrightarrow> s = []"
  by (simp add: to_lower_def)

lemma contains_iff_sublist [go_lib]: "contains s sub \<longleftrightarrow> sublist sub s"
  by (induction s) (auto simp: sublist_Cons_right)

lemma index_byte_Some_iff:
  "index_byte s c = Some i \<longleftrightarrow> i < length s \<and> s ! i = c \<and> c \<notin> set (take i s)"
proof (induction s arbitrary: i)
  case (Cons x s)
  then show ?case by (cases i) auto
qed simp

lemma index_byte_None_iff [go_lib]: "index_byte s c = None \<longleftrightarrow> c \<notin> set s"
  by (induction s) auto

lemma first_index_Some:
  "first_index P s = Some i \<Longrightarrow> i < length s \<and> P (s ! i) \<and> (\<forall>x\<in>set (take i s). \<not> P x)"
proof (induction s arbitrary: i)
  case (Cons x s)
  then show ?case by (cases i) (auto split: if_splits)
qed simp

lemma first_index_None_iff [go_lib]: "first_index P s = None \<longleftrightarrow> (\<forall>x\<in>set s. \<not> P x)"
  by (induction s) auto

lemma index_byte_first_index: "index_byte s c = first_index (\<lambda>x. x = c) s"
  by (induction s) auto

lemma str_cut_not_found: "c \<notin> set s \<Longrightarrow> str_cut s c = (s, [], False)"
  by (simp add: str_cut_def index_byte_None_iff [THEN iffD2])

lemma str_cut_append: "c \<notin> set a \<Longrightarrow> str_cut (a @ c # b) c = (a, b, True)"
proof -
  assume "c \<notin> set a"
  then have "index_byte (a @ c # b) c = Some (length a)"
    by (simp add: index_byte_Some_iff)
  then show ?thesis by (simp add: str_cut_def)
qed

lemma split_neq_Nil [simp]: "split c s \<noteq> []"
  by (induction s) (auto split: list.splits)

lemma split_no_sep: "c \<notin> set s \<Longrightarrow> split c s = [s]"
  by (induction s) auto

lemma split_append_sep: "c \<notin> set a \<Longrightarrow> split c (a @ c # b) = a # split c b"
  by (induction a) auto

subsection \<open>Package strconv\<close>

definition digit_char :: "nat \<Rightarrow> char" where
  "digit_char n = char_of (48 + n)"

definition is_digit :: "char \<Rightarrow> bool" where
  "is_digit c = (CHR ''0'' \<le> c \<and> c \<le> CHR ''9'')"

definition digit_val :: "char \<Rightarrow> nat" where
  "digit_val c = ord c - 48"

fun dec_digits :: "nat \<Rightarrow> string" where
  "dec_digits n = (if n < 10 then [digit_char n] else dec_digits (n div 10) @ [digit_char (n mod 10)])"

declare dec_digits.simps [simp del]

definition itoa :: "int \<Rightarrow> string" where
  "itoa n = (if n < 0 then CHR ''-'' # dec_digits (nat (- n)) else dec_digits (nat n))"

definition dec_value :: "string \<Rightarrow> nat" where
  "dec_value s = fold (\<lambda>c n. n * 10 + digit_val c) s 0"

definition max_int64 :: int where
  "max_int64 = 2 ^ 63 - 1"

definition min_int64 :: int where
  "min_int64 = - (2 ^ 63)"

text \<open>
  \<open>strconv.Atoi\<close> returns a value and an error together: 0 with \<open>ErrSyntax\<close>, the bound that was
  passed with \<open>ErrRange\<close>.
\<close>

datatype num_error = ErrSyntax | ErrRange

definition atoi_magnitude :: "bool \<Rightarrow> string \<Rightarrow> int \<times> num_error option" where
  "atoi_magnitude neg s =
     (if s = [] \<or> \<not> list_all is_digit s then (0, Some ErrSyntax)
      else let v = (if neg then - int (dec_value s) else int (dec_value s)) in
        if v > max_int64 then (max_int64, Some ErrRange)
        else if v < min_int64 then (min_int64, Some ErrRange)
        else (v, None))"

definition atoi :: "string \<Rightarrow> int \<times> num_error option" where
  "atoi s =
     (if s \<noteq> [] \<and> hd s = CHR ''-'' then atoi_magnitude True (tl s)
      else if s \<noteq> [] \<and> hd s = CHR ''+'' then atoi_magnitude False (tl s)
      else atoi_magnitude False s)"

text \<open>Two's complement wrap-around of Go's 64-bit \<open>int\<close>.\<close>

definition wrap64 :: "int \<Rightarrow> int" where
  "wrap64 n = (n + 2 ^ 63) mod 2 ^ 64 - 2 ^ 63"

lemma wrap64_id: "min_int64 \<le> n \<Longrightarrow> n \<le> max_int64 \<Longrightarrow> wrap64 n = n"
  by (simp add: wrap64_def min_int64_def max_int64_def)

lemma digit_char_simps [simp]:
  assumes "n < 10"
  shows "is_digit (digit_char n)" "digit_val (digit_char n) = n"
  using assms by (auto simp: is_digit_def digit_char_def digit_val_def less_eq_char_def)

lemma dec_value_snoc [simp]: "dec_value (s @ [c]) = dec_value s * 10 + digit_val c"
  by (simp add: dec_value_def)

lemma dec_digits_ne [simp]: "dec_digits n \<noteq> []"
  by (subst dec_digits.simps) simp

lemma dec_digits_digit: "list_all is_digit (dec_digits n)"
proof (induction n rule: dec_digits.induct)
  case (1 n)
  then show ?case by (subst dec_digits.simps) simp
qed

lemma dec_value_dec_digits [simp]: "dec_value (dec_digits n) = n"
proof (induction n rule: dec_digits.induct)
  case (1 n)
  show ?case
  proof (cases "n < 10")
    case True
    then show ?thesis
      by (subst dec_digits.simps) (simp add: dec_value_def)
  next
    case False
    with 1 show ?thesis
      by (subst dec_digits.simps) simp
  qed
qed

lemma digit_not_sign: "is_digit c \<Longrightarrow> c \<noteq> CHR ''-'' \<and> c \<noteq> CHR ''+''"
  by (auto simp: is_digit_def less_eq_char_def)

lemma atoi_digits: "list_all is_digit s \<Longrightarrow> atoi s = atoi_magnitude False s"
proof (cases s)
  case (Cons c r)
  assume "list_all is_digit s"
  with Cons have "is_digit c" by simp
  then show ?thesis
    using digit_not_sign [of c] Cons by (simp add: atoi_def)
qed (simp add: atoi_def)

lemma atoi_itoa [go_lib]:
  assumes "min_int64 \<le> n" "n \<le> max_int64"
  shows "atoi (itoa n) = (n, None)"
proof (cases "n < 0")
  case True
  with assms show ?thesis
    by (simp add: itoa_def atoi_def atoi_magnitude_def dec_digits_digit max_int64_def)
next
  case False
  with assms show ?thesis
    by (simp add: itoa_def atoi_digits dec_digits_digit atoi_magnitude_def min_int64_def)
qed

subsection \<open>Package unicode, on the runes below 256\<close>

text \<open>The Latin-1 white space of \<open>unicode.IsSpace\<close>, by its byte value.\<close>

definition is_space_latin1 :: "char \<Rightarrow> bool" where
  "is_space_latin1 c = (ord c \<in> {9, 10, 11, 12, 13, 32, 0x85, 0xA0})"

end
