(* ===== verification/Byte_Util.thy ===== *)
theory Byte_Util
  imports Go_Lib "HOL-Library.AList"
begin

unbundle bit_operations_syntax

text \<open>
  The helper packages that the rest of the code calls: \<open>internal/strings\<close> (hexadecimal digits,
  quotes, membership), \<open>internal/url\<close> (query strings) and \<open>internal/cookies\<close>. The maps
  \<open>map[string][]string\<close> that the parsers build are association lists with distinct keys.
\<close>

subsection \<open>internal/strings\<close>

definition ValidHex :: "char \<Rightarrow> bool" where
  "ValidHex x = ((x \<ge> CHR ''0'' \<and> x \<le> CHR ''9'') \<or> (x \<ge> CHR ''a'' \<and> x \<le> CHR ''f'') \<or>
     (x \<ge> CHR ''A'' \<and> x \<le> CHR ''F''))"

definition x2c_digit :: "char \<Rightarrow> byte" where
  "x2c_digit w = (if w \<ge> CHR ''A'' then ((to_byte w AND 0xdf) - to_byte CHR ''A'') + 10
     else to_byte w - to_byte CHR ''0'')"

text \<open>The two reads panic when the string has fewer than two bytes.\<close>

definition X2c :: "string \<Rightarrow> byte option" where
  "X2c what = do {
     w0 \<leftarrow> at what 0;
     let digit = x2c_digit w0 * 16;
     w1 \<leftarrow> at what 1;
     Some (digit + x2c_digit w1)
   }"

definition MaybeRemoveQuotes :: "string \<Rightarrow> string" where
  "MaybeRemoveQuotes s =
     (if length s < 2 then s
      else if s ! 0 = CHR 0x22 then
        (if s ! (length s - 1) \<noteq> CHR 0x22 then s else take (length s - 2) (drop 1 s))
      else if s ! 0 = CHR 0x27 then
        (if s ! (length s - 1) \<noteq> CHR 0x27 then s else take (length s - 2) (drop 1 s))
      else s)"

fun InSlice :: "string \<Rightarrow> string list \<Rightarrow> bool" where
  "InSlice a [] = False"
| "InSlice a (b # bs) = (if b = a then True else InSlice a bs)"

subsection \<open>internal/url\<close>

type_synonym multimap = "(string \<times> string list) list"

definition multi_get :: "multimap \<Rightarrow> string \<Rightarrow> string list" where
  "multi_get m k = (case map_of m k of None \<Rightarrow> [] | Some vs \<Rightarrow> vs)"

definition multi_append :: "multimap \<Rightarrow> string \<Rightarrow> string \<Rightarrow> multimap" where
  "multi_append m k v = AList.update k (multi_get m k @ [v]) m"

definition hexDigitToByte :: "char \<Rightarrow> byte \<times> bool" where
  "hexDigitToByte digit =
     (if digit \<ge> CHR ''0'' \<and> digit \<le> CHR ''9'' then (to_byte digit - to_byte CHR ''0'', True)
      else if digit \<ge> CHR ''a'' \<and> digit \<le> CHR ''f'' then (to_byte digit - to_byte CHR ''a'' + 10, True)
      else if digit \<ge> CHR ''A'' \<and> digit \<le> CHR ''F'' then (to_byte digit - to_byte CHR ''A'' + 10, True)
      else (0, False))"

text \<open>The loop over the rest of the input; \<open>i+2 >= ilen\<close> is \<open>length cs < 2\<close> on the rest after \<open>ci\<close>.\<close>

fun queryUnescape :: "string \<Rightarrow> string" where
  "queryUnescape [] = []"
| "queryUnescape (ci # cs) =
     (if ci = CHR ''+'' then CHR '' '' # queryUnescape cs
      else if ci = CHR ''%'' then
        (if length cs < 2 then ci # queryUnescape cs
         else case hexDigitToByte (cs ! 0) of (hi, ok) \<Rightarrow>
           if \<not> ok then ci # queryUnescape cs
           else case hexDigitToByte (cs ! 1) of (lo, ok) \<Rightarrow>
             if \<not> ok then ci # queryUnescape cs
             else of_byte (push_bit 4 hi OR lo) # queryUnescape (drop 2 cs))
      else ci # queryUnescape cs)"

function doParseQuery_loop :: "multimap \<Rightarrow> string \<Rightarrow> char \<Rightarrow> bool \<Rightarrow> multimap" where
  "doParseQuery_loop m query separator urlUnescape =
     (if query = [] then m
      else case (case index_byte query separator of
                   Some i \<Rightarrow> (take i query, drop (Suc i) query) | None \<Rightarrow> (query, [])) of
        (key, query') \<Rightarrow>
          if key = [] then doParseQuery_loop m query' separator urlUnescape
          else case (case index_byte key CHR ''='' of
                       Some i \<Rightarrow> (take i key, drop (Suc i) key) | None \<Rightarrow> (key, [])) of
            (key, value) \<Rightarrow>
              let key = (if urlUnescape then queryUnescape key else key);
                  value = (if urlUnescape then queryUnescape value else value) in
              doParseQuery_loop (multi_append m key value) query' separator urlUnescape)"
  by auto
termination
  by (relation "measure (\<lambda>(m, query, separator, urlUnescape). length query)")
    (auto split: option.splits simp: index_byte_Some_iff)

declare doParseQuery_loop.simps [simp del]

definition doParseQuery :: "string \<Rightarrow> char \<Rightarrow> bool \<Rightarrow> multimap" where
  "doParseQuery query separator urlUnescape = doParseQuery_loop [] query separator urlUnescape"

definition ParseQuery :: "string \<Rightarrow> char \<Rightarrow> multimap" where
  "ParseQuery query separator = doParseQuery query separator True"

subsection \<open>internal/cookies\<close>

text \<open>\<open>textproto.TrimString\<close> trims the four ASCII blanks space, tab, line feed, carriage return.\<close>

definition TrimString :: "string \<Rightarrow> string" where
  "TrimString s = trim_both s [CHR '' '', CHR 0x09, CHR 0x0A, CHR 0x0D]"

function ParseCookies_loop :: "multimap \<Rightarrow> string \<Rightarrow> multimap" where
  "ParseCookies_loop cookies rawCookies =
     (if rawCookies = [] then cookies
      else case str_cut rawCookies CHR '';'' of (part, rawCookies', _) \<Rightarrow>
        let part = TrimString part in
        if part = [] then ParseCookies_loop cookies rawCookies'
        else case str_cut part CHR ''='' of (name, val, _) \<Rightarrow>
          let name = TrimString name in
          if name = [] then ParseCookies_loop cookies rawCookies'
          else ParseCookies_loop (multi_append cookies name val) rawCookies')"
  by auto
termination
  by (relation "measure (\<lambda>(cookies, rawCookies). length rawCookies)")
    (auto simp: str_cut_def split: option.splits)

declare ParseCookies_loop.simps [simp del]

definition ParseCookies :: "string \<Rightarrow> multimap" where
  "ParseCookies rawCookies =
     (let rawCookies = TrimString rawCookies in
      if rawCookies = [] then [] else ParseCookies_loop [] rawCookies)"

subsection \<open>Hexadecimal digits\<close>

text \<open>The value of a hexadecimal digit, and the lower-case digits that the encoders write.\<close>

definition hex_val :: "char \<Rightarrow> nat" where
  "hex_val c = (if c \<le> CHR ''9'' then ord c - 48 else if c \<le> CHR ''F'' then ord c - 55 else ord c - 87)"

definition hex_digits :: string where
  "hex_digits = ''0123456789abcdef''"

lemma ValidHex_iff: "ValidHex c \<longleftrightarrow> c \<in> set ''0123456789abcdefABCDEF''"
proof -
  have "ValidHex c \<longleftrightarrow> ord c \<in> {48..57} \<or> ord c \<in> {97..102} \<or> ord c \<in> {65..70}"
    by (auto simp: ValidHex_def less_eq_char_def)
  also have "\<dots> \<longleftrightarrow> ord c \<in> ord ` set ''0123456789abcdefABCDEF''"
    by (simp; presburger)
  also have "\<dots> \<longleftrightarrow> c \<in> set ''0123456789abcdefABCDEF''"
    by (simp only: image_iff of_char_eq_iff bex_simps) blast
  finally show ?thesis .
qed

lemma hex_val_less: "ValidHex c \<Longrightarrow> hex_val c < 16"
  unfolding ValidHex_iff by (auto simp: hex_val_def)

lemma x2c_digit_val: "ValidHex c \<Longrightarrow> x2c_digit c = of_nat (hex_val c)"
  unfolding ValidHex_iff by (auto simp: hex_val_def x2c_digit_def to_byte_def)

lemma hexDigitToByte_val:
  "hexDigitToByte c = (if ValidHex c then (of_nat (hex_val c), True) else (0, False))"
proof (cases "ValidHex c")
  case True
  then show ?thesis
    unfolding ValidHex_iff by (auto simp: hex_val_def hexDigitToByte_def to_byte_def ValidHex_iff)
next
  case False
  then show ?thesis
    by (auto simp: ValidHex_def hexDigitToByte_def)
qed

lemma hex_digits_props:
  assumes "n < 16"
  shows "ValidHex (hex_digits ! n)" "hex_val (hex_digits ! n) = n"
  using assms
  by (auto simp: ValidHex_iff hex_val_def hex_digits_def less_Suc_eq numeral_eq_Suc)

lemma X2c_eq:
  assumes "ValidHex a" "ValidHex b"
  shows "X2c (a # b # r) = Some (of_nat (16 * hex_val a + hex_val b))"
  using assms by (simp add: X2c_def x2c_digit_val)

lemma X2c_hex_digits:
  assumes "n < 256"
  shows "X2c (hex_digits ! (n div 16) # hex_digits ! (n mod 16) # r) = Some (of_nat n)"
proof -
  have "n div 16 < 16" "n mod 16 < 16"
    using assms by auto
  then show ?thesis
    by (simp add: X2c_eq hex_digits_props)
qed

lemma push_or_nibble:
  assumes "a < 16" "b < 16"
  shows "push_bit 4 (of_nat a :: byte) OR of_nat b = of_nat (16 * a + b)"
proof -
  have "take_bit 4 b = b"
    using assms by (simp add: take_bit_eq_mod)
  then have "(of_nat b :: byte) = take_bit 4 (of_nat b)"
    by (simp only: take_bit_of_nat)
  then have "push_bit 4 (of_nat a :: byte) OR of_nat b = push_bit 4 (of_nat a) + of_nat b"
    by (intro disjunctive_add [symmetric]) (metis bit_push_bit_iff bit_take_bit_iff not_le)
  then show ?thesis
    by (simp add: push_bit_eq_mult ac_simps)
qed

lemma set_update_subset: "set (AList.update k v al) \<subseteq> insert (k, v) (set al)"
  by (induction al) auto

lemma InSlice_iff: "InSlice a l \<longleftrightarrow> a \<in> set l"
  by (induction l) auto

end
