(* ===== verification/Inplace.thy ===== *)
theory Inplace
  imports Byte_Util
begin

text \<open>
  The decoders of \<open>internal/transformations\<close> share a shape: a loop with a read index \<open>i\<close> into the
  input and a write index \<open>c\<close> into a buffer \<open>d\<close> that starts as a copy of the input, so that the
  output overwrites the buffer behind the read index. This theory states that shape as an
  interface: \<open>step\<close> is the body of the loop, \<open>tok\<close> says of the rest of the input which bytes one
  iteration writes and how many it consumes. The loop then ends without an index out of range and
  leaves in the buffer what \<open>scan_ref\<close>, a recursion over the input, computes.
\<close>

type_synonym 'x scan_state = "string \<times> nat \<times> nat \<times> 'x"

function scan_ref :: "('x \<Rightarrow> string \<Rightarrow> string \<times> nat \<times> 'x) \<Rightarrow> 'x \<Rightarrow> string \<Rightarrow> string \<times> 'x" where
  "scan_ref tok x [] = ([], x)"
| "scan_ref tok x (b # bs) = (case tok x (b # bs) of (out, k, x') \<Rightarrow>
     case scan_ref tok x' (drop (max 1 k) (b # bs)) of (out', x'') \<Rightarrow> (out @ out', x''))"
  by pat_completeness auto
termination
  by (relation "measure (\<lambda>(tok, x, r). length r)") auto

declare scan_ref.simps(2) [simp del]

lemma scan_ref_step:
  assumes "r \<noteq> []" "tok x r = (out, k, x')" "0 < k"
  shows "scan_ref tok x r =
    (out @ fst (scan_ref tok x' (drop k r)), snd (scan_ref tok x' (drop k r)))"
  using assms by (cases r) (auto simp: scan_ref.simps(2) max_def not_le split: prod.splits)

definition scan_loop ::
  "(string \<Rightarrow> 'x scan_state \<Rightarrow> 'x scan_state option) \<Rightarrow> string \<Rightarrow> 'x scan_state \<Rightarrow> 'x scan_state option"
where
  "scan_loop step input = for_loop (\<lambda>(d, i, c, x). i < length d) (step input)"

definition run_inplace ::
  "(string \<Rightarrow> 'x scan_state \<Rightarrow> 'x scan_state option) \<Rightarrow> string \<Rightarrow> nat \<Rightarrow> 'x \<Rightarrow> (string \<times> 'x) option"
where
  "run_inplace step input pos x = do {
     (d, i, c, x') \<leftarrow> scan_loop step input (input, pos, pos, x);
     out \<leftarrow> slice d 0 c;
     Some (out, x')
   }"

locale inplace_scan =
  fixes step :: "string \<Rightarrow> 'x scan_state \<Rightarrow> 'x scan_state option"
    and tok :: "'x \<Rightarrow> string \<Rightarrow> string \<times> nat \<times> 'x"
  assumes tok_bounds:
      "r \<noteq> [] \<Longrightarrow> tok x r = (out, k, x') \<Longrightarrow> 0 < k \<and> k \<le> length r \<and> length out \<le> k"
    and step_tok:
      "r \<noteq> [] \<Longrightarrow> c \<le> length p \<Longrightarrow> length q = length p \<Longrightarrow> tok x r = (out, k, x') \<Longrightarrow>
       step (p @ r) (q @ r, length p, c, x) =
         Some (overwrite (q @ r) c out, length p + k, c + length out, x')"
begin

lemma scan_from:
  assumes "c \<le> length p" "length d = length p + length r" "drop (length p) d = r"
  shows "\<exists>d' c'. scan_loop step (p @ r) (d, length p, c, x) =
      Some (d', length p + length r, c', snd (scan_ref tok x r)) \<and>
    length d' = length d \<and> c' \<le> length d' \<and> take c' d' = take c d @ fst (scan_ref tok x r)"
  using assms
proof (induction "length r" arbitrary: r p d c x rule: less_induct)
  case less
  show ?case
  proof (cases "r = []")
    case True
    with less.prems show ?thesis
      by (simp add: scan_loop_def for_loop_stop)
  next
    case False
    obtain out k x' where t: "tok x r = (out, k, x')" by (cases "tok x r")
    note b = tok_bounds [OF False t]
    let ?d = "overwrite d c out"
    have len: "c + length out \<le> length d" "length p + k \<le> length d"
      using b less.prems by auto
    have d': "length ?d = length (p @ take k r) + length (drop k r)"
      "take (c + length out) ?d = take c d @ out"
      using b len less.prems by (simp_all add: length_overwrite take_overwrite)
    have "drop (length p + k) ?d = drop (length p + k) d"
      using b len less.prems by (intro drop_overwrite) auto
    also have "\<dots> = drop k r"
      using less.prems(3) by (metis add.commute drop_drop)
    finally have tail: "drop (length (p @ take k r)) ?d = drop k r"
      using b by simp
    have "d = take (length p) d @ r" "length (take (length p) d) = length p"
      using less.prems by (metis append_take_drop_id, simp)
    then have "step (p @ r) (d, length p, c, x) = Some (?d, length (p @ take k r), c + length out, x')"
      using step_tok [OF False less.prems(1) _ t, of "take (length p) d"] b by simp
    then have "scan_loop step (p @ r) (d, length p, c, x) =
        scan_loop step ((p @ take k r) @ drop k r) (?d, length (p @ take k r), c + length out, x')"
      using False less.prems b by (simp add: scan_loop_def for_loop_step)
    moreover obtain e c' where "scan_loop step ((p @ take k r) @ drop k r)
          (?d, length (p @ take k r), c + length out, x') =
        Some (e, length (p @ take k r) + length (drop k r), c', snd (scan_ref tok x' (drop k r)))"
      and e: "length e = length ?d" "c' \<le> length e"
        "take c' e = take (c + length out) ?d @ fst (scan_ref tok x' (drop k r))"
      using less.hyps [of "drop k r" "c + length out" "p @ take k r" ?d x'] b d' less.prems(1) tail
      by fastforce
    moreover have "length (p @ take k r) + length (drop k r) = length p + length r"
      using b by simp
    ultimately show ?thesis
      unfolding scan_ref_step [of r tok x out k x', OF False t b [THEN conjunct1]]
      using d' less.prems(2) by (intro exI [of _ e] exI [of _ c']) simp
  qed
qed

text \<open>The whole loop, from a position of the input up to which the buffer stays as it was.\<close>

lemma scan_total:
  assumes "pos \<le> length input"
  shows "\<exists>d' c'. scan_loop step input (input, pos, pos, x) =
      Some (d', length input, c', snd (scan_ref tok x (drop pos input))) \<and>
    length d' = length input \<and>
    slice d' 0 c' = Some (take pos input @ fst (scan_ref tok x (drop pos input)))"
proof -
  have "length (take pos input) = pos" "pos + length (drop pos input) = length input"
    using assms by simp_all
  with scan_from [of pos "take pos input" input "drop pos input" x]
  have "\<exists>d' c'. scan_loop step input (input, pos, pos, x) =
      Some (d', length input, c', snd (scan_ref tok x (drop pos input))) \<and>
    length d' = length input \<and> c' \<le> length d' \<and>
    take c' d' = take pos input @ fst (scan_ref tok x (drop pos input))"
    by (simp only: append_take_drop_id order_refl simp_thms)
  then obtain d' c' where "scan_loop step input (input, pos, pos, x) =
      Some (d', length input, c', snd (scan_ref tok x (drop pos input)))"
    and "length d' = length input" "c' \<le> length d'"
      "take c' d' = take pos input @ fst (scan_ref tok x (drop pos input))"
    by blast
  then show ?thesis
    by (intro exI [of _ d'] exI [of _ c']) (simp add: slice_prefix)
qed

lemma run_inplace_total:
  assumes "pos \<le> length input"
  shows "run_inplace step input pos x =
    Some (take pos input @ fst (scan_ref tok x (drop pos input)), snd (scan_ref tok x (drop pos input)))"
  using scan_total [OF assms, of x] by (auto simp: run_inplace_def)

lemma scan_ref_length: "length (fst (scan_ref tok x r)) \<le> length r"
proof (induction "length r" arbitrary: r x rule: less_induct)
  case less
  show ?case
  proof (cases "r = []")
    case False
    obtain out k x' where t: "tok x r = (out, k, x')" by (cases "tok x r")
    note b = tok_bounds [OF False t]
    have "length (fst (scan_ref tok x' (drop k r))) \<le> length (drop k r)"
      using b by (intro less.hyps) auto
    with b have "length out + length (fst (scan_ref tok x' (drop k r))) \<le> length r"
      by (simp; linarith)
    with b show ?thesis by (simp add: scan_ref_step [of r tok x out k x', OF False t])
  qed simp
qed

end

text \<open>
  The decoders start at the first byte that is special to them; all others are copied, so the
  whole result is the reference on the whole input.
\<close>

locale inplace_decoder = inplace_scan +
  fixes special :: "char \<Rightarrow> bool"
  assumes plain_tok: "\<not> special b \<Longrightarrow> tok x (b # r) = ([b], 1, x)"
begin

lemma scan_ref_plain:
  "\<not> special b \<Longrightarrow> scan_ref tok x (b # r) = (b # fst (scan_ref tok x r), snd (scan_ref tok x r))"
  using scan_ref_step [of "b # r" tok x "[b]" 1 x] plain_tok by simp

lemma scan_ref_prefix:
  "\<forall>b\<in>set p. \<not> special b \<Longrightarrow>
   scan_ref tok x (p @ r) = (p @ fst (scan_ref tok x r), snd (scan_ref tok x r))"
  by (induction p) (auto simp: scan_ref_plain)

lemma run_from_first:
  assumes "first_index special input = Some pos"
  shows "run_inplace step input pos x = Some (scan_ref tok x input)"
proof -
  have "pos < length input" "\<forall>b\<in>set (take pos input). \<not> special b"
    using first_index_Some [OF assms] by auto
  then show ?thesis
    using scan_ref_prefix [of "take pos input" x "drop pos input"] by (simp add: run_inplace_total)
qed

lemma scan_ref_none:
  assumes "first_index special input = None"
  shows "scan_ref tok x input = (input, x)"
  using assms scan_ref_prefix [of input x "[]"] by (simp add: first_index_None_iff)

end

end
