(* ===== verification/Trans_Decode.thy ===== *)
theory Trans_Decode
  imports Inplace
begin

unbundle bit_operations_syntax

text \<open>
  The decoders of \<open>internal/transformations\<close> that rewrite a buffer in place: \<open>urlDecode\<close>,
  \<open>urlDecodeUni\<close>, \<open>cssDecode\<close>, \<open>escapeSeqDecode\<close>, \<open>jsDecode\<close> and \<open>replaceComments\<close>, and the
  encoder \<open>urlEncode\<close>. Each \<open>_step\<close> is the body of the source's loop with its accesses checked,
  each \<open>_tok\<close> says what one iteration writes and consumes. Every decoder is shown to end without
  a panic with the result of the reference scan; the round trip of \<open>urlEncode\<close> follows.
\<close>

text \<open>A transformation returns the new value, whether it changed, and an error; \<open>None\<close> is a panic.\<close>

type_synonym transformed = "(string \<times> bool \<times> go_error option) option"

subsection \<open>urlEncode and urlDecode\<close>

fun doURLEncode_loop :: "string \<Rightarrow> string \<Rightarrow> bool \<Rightarrow> string \<times> bool" where
  "doURLEncode_loop [] d changed = (d, changed)"
| "doURLEncode_loop (cc # input) d changed =
     (if cc = CHR '' '' then doURLEncode_loop input (d @ ''+'') True
      else if ord cc = 42 \<or> (ord cc \<ge> 48 \<and> ord cc \<le> 57) \<or> (ord cc \<ge> 65 \<and> ord cc \<le> 90) \<or>
              (ord cc \<ge> 97 \<and> ord cc \<le> 122)
           then doURLEncode_loop input (d @ [cc]) changed
      else doURLEncode_loop input
             (d @ [CHR ''%'', hex_digits ! unat (drop_bit 4 (to_byte cc AND 0xff)),
                   hex_digits ! unat ((to_byte cc AND 0xff) AND 0x0f)]) True)"

definition doURLEncode :: "string \<Rightarrow> string \<times> bool" where
  "doURLEncode input = (if length input = 0 then ([], False) else doURLEncode_loop input [] False)"

definition urlEncode :: "string \<Rightarrow> transformed" where
  "urlEncode data = (case doURLEncode data of (transformedData, changed) \<Rightarrow>
     Some (transformedData, changed, None))"

definition doURLDecode_step :: "string \<Rightarrow> unit scan_state \<Rightarrow> unit scan_state option" where
  "doURLDecode_step input = (\<lambda>(d, i, c, u).
     let inputLen = length d in do {
       ci \<leftarrow> at input i;
       if ci = CHR ''%'' then
         if i + 2 < inputLen then do {
           c1 \<leftarrow> at input (i + 1);
           c2 \<leftarrow> at input (i + 2);
           if ValidHex c1 \<and> ValidHex c2 then do {
             uni \<leftarrow> X2c (drop (i + 1) input);
             d \<leftarrow> put d c (of_byte uni);
             Some (d, i + 3, c + 1, u)
           } else do {
             d \<leftarrow> put d c ci;
             Some (d, i + 1, c + 1, u)
           }
         } else do {
           d \<leftarrow> put d c ci;
           Some (d, i + 1, c + 1, u)
         }
       else if ci = CHR ''+'' then do {
         d \<leftarrow> put d c CHR '' '';
         Some (d, i + 1, c + 1, u)
       } else do {
         d \<leftarrow> put d c ci;
         Some (d, i + 1, c + 1, u)
       }
     })"

definition doURLDecode :: "string \<Rightarrow> nat \<Rightarrow> string option" where
  "doURLDecode input pos = map_option fst (run_inplace doURLDecode_step input pos ())"

definition url_special :: "char \<Rightarrow> bool" where
  "url_special b = (b = CHR ''%'' \<or> b = CHR ''+'')"

definition urlDecode :: "string \<Rightarrow> transformed" where
  "urlDecode data = (case first_index url_special data of
     Some i \<Rightarrow> do { t \<leftarrow> doURLDecode data i; Some (t, True, None) }
   | None \<Rightarrow> Some (data, False, None))"

subsection \<open>urlDecodeUni\<close>

text \<open>The code points ff01 to ff5e are full-width ASCII: their low byte needs 0x20 added.\<close>

definition isF :: "char \<Rightarrow> bool" where
  "isF c = (c = CHR ''f'' \<or> c = CHR ''F'')"

definition inplaceUniDecode_step :: "string \<Rightarrow> unit scan_state \<Rightarrow> unit scan_state option" where
  "inplaceUniDecode_step input = (\<lambda>(d, i, c, u).
     let inputLen = length d in do {
       di \<leftarrow> at d i;
       ci \<leftarrow> at input i;
       if di = CHR ''%'' then
         if i + 1 < inputLen \<and> (input ! (i + 1) = CHR ''u'' \<or> input ! (i + 1) = CHR ''U'') then
           if i + 5 < inputLen \<and>
              ValidHex (input ! (i + 2)) \<and> ValidHex (input ! (i + 3)) \<and>
              ValidHex (input ! (i + 4)) \<and> ValidHex (input ! (i + 5)) then do {
             v \<leftarrow> X2c (drop (i + 4) input);
             d \<leftarrow> put d c (of_byte v);
             d \<leftarrow> (if v > 0x00 \<and> v < 0x5f \<and> isF (input ! (i + 2)) \<and> isF (input ! (i + 3))
                  then put d c (of_byte (v + 0x20)) else Some d);
             Some (d, i + 6, c + 1, u)
           } else do {
             d \<leftarrow> put d c ci;
             ci' \<leftarrow> at input (i + 1);
             d \<leftarrow> put d (c + 1) ci';
             Some (d, i + 2, c + 2, u)
           }
         else if i + 2 < inputLen then do {
           c1 \<leftarrow> at input (i + 1);
           c2 \<leftarrow> at input (i + 2);
           if ValidHex c1 \<and> ValidHex c2 then do {
             v \<leftarrow> X2c (drop (i + 1) input);
             d \<leftarrow> put d c (of_byte v);
             Some (d, i + 3, c + 1, u)
           } else do {
             d \<leftarrow> put d c ci;
             Some (d, i + 1, c + 1, u)
           }
         } else do {
           d \<leftarrow> put d c ci;
           Some (d, i + 1, c + 1, u)
         }
       else do {
         d \<leftarrow> put d c (if ci = CHR ''+'' then CHR '' '' else ci);
         Some (d, i + 1, c + 1, u)
       }
     })"

definition inplaceUniDecode :: "string \<Rightarrow> nat \<Rightarrow> string option" where
  "inplaceUniDecode input pos = map_option fst (run_inplace inplaceUniDecode_step input pos ())"

definition urlDecodeUni :: "string \<Rightarrow> transformed" where
  "urlDecodeUni data = (case first_index url_special data of
     Some i \<Rightarrow> do { t \<leftarrow> inplaceUniDecode data i; Some (t, True, None) }
   | None \<Rightarrow> Some (data, False, None))"

subsection \<open>What one iteration reads and writes\<close>

definition hex_pair :: "char \<Rightarrow> char \<Rightarrow> byte" where
  "hex_pair a b = of_nat (16 * hex_val a + hex_val b)"

definition url_tok :: "unit \<Rightarrow> string \<Rightarrow> string \<times> nat \<times> unit" where
  "url_tok u r =
     (if r ! 0 = CHR ''%'' \<and> 2 < length r \<and> ValidHex (r ! 1) \<and> ValidHex (r ! 2)
      then ([of_byte (hex_pair (r ! 1) (r ! 2))], 3, u)
      else if r ! 0 = CHR ''+'' then ('' '', 1, u)
      else ([r ! 0], 1, u))"

text \<open>The encoding of one byte.\<close>

definition url_enc :: "char \<Rightarrow> string" where
  "url_enc cc = (if cc = CHR '' '' then ''+''
     else if ord cc = 42 \<or> (ord cc \<ge> 48 \<and> ord cc \<le> 57) \<or> (ord cc \<ge> 65 \<and> ord cc \<le> 90) \<or>
             (ord cc \<ge> 97 \<and> ord cc \<le> 122) then [cc]
     else [CHR ''%'', hex_digits ! (ord cc div 16), hex_digits ! (ord cc mod 16)])"

definition full_width :: "byte \<Rightarrow> char \<Rightarrow> char \<Rightarrow> byte" where
  "full_width v a b = (if 0 < v \<and> v < 0x5f \<and> isF a \<and> isF b then v + 0x20 else v)"

definition uni_tok :: "unit \<Rightarrow> string \<Rightarrow> string \<times> nat \<times> unit" where
  "uni_tok u r =
     (if r ! 0 = CHR ''%'' \<and> 1 < length r \<and> (r ! 1 = CHR ''u'' \<or> r ! 1 = CHR ''U'') then
        (if 5 < length r \<and> ValidHex (r ! 2) \<and> ValidHex (r ! 3) \<and> ValidHex (r ! 4) \<and> ValidHex (r ! 5)
         then ([of_byte (full_width (hex_pair (r ! 4) (r ! 5)) (r ! 2) (r ! 3))], 6, u)
         else ([r ! 0, r ! 1], 2, u))
      else url_tok u r)"

lemma X2c_drop:
  assumes "Suc n < length s" "ValidHex (s ! n)" "ValidHex (s ! Suc n)"
  shows "X2c (drop n s) = Some (hex_pair (s ! n) (s ! Suc n))"
proof -
  have "drop n s = s ! n # s ! Suc n # drop (Suc (Suc n)) s"
    using assms(1) by (simp add: Cons_nth_drop_Suc)
  then show ?thesis
    using assms by (simp add: X2c_eq hex_pair_def)
qed

text \<open>The facts that carry the proofs about one iteration.\<close>

lemma rest_simps:
  "at (p @ r) (Suc (length p)) = at r 1"
  "at (p @ r) (Suc (Suc (length p))) = at r 2"
  "(p @ r) ! Suc (length p) = r ! 1"
  "(p @ r) ! Suc (Suc (length p)) = r ! 2"
  "drop (Suc (length p)) (p @ r) = drop 1 r"
  "drop (Suc (Suc (length p))) (p @ r) = drop 2 r"
  by (simp_all add: at_def nth_append numeral_2_eq_2)

lemma write_simps:
  assumes "r \<noteq> []" "c \<le> length q"
  shows "put (q @ r) c v = Some (overwrite (q @ r) c [v])"
    "put (overwrite (q @ r) c [v]) c w = Some (overwrite (q @ r) c [w])"
    "1 < length r \<Longrightarrow> put (overwrite (q @ r) c [v]) (Suc c) w = Some (overwrite (q @ r) c [v, w])"
proof -
  have "c < length (q @ r)"
    using assms by (cases r) auto
  then show "put (q @ r) c v = Some (overwrite (q @ r) c [v])"
    "put (overwrite (q @ r) c [v]) c w = Some (overwrite (q @ r) c [w])"
    by (simp_all add: overwrite_one)
next
  assume "1 < length r"
  with assms have "Suc c < length (q @ r)"
    by simp
  then show "put (overwrite (q @ r) c [v]) (Suc c) w = Some (overwrite (q @ r) c [v, w])"
    by (simp add: overwrite_one overwrite_two)
qed

lemma X2c_rest:
  "2 < length r \<Longrightarrow> ValidHex (r ! Suc 0) \<Longrightarrow> ValidHex (r ! 2) \<Longrightarrow>
     X2c (drop (Suc 0) r) = Some (hex_pair (r ! Suc 0) (r ! 2))"
  "3 < length r \<Longrightarrow> ValidHex (r ! 2) \<Longrightarrow> ValidHex (r ! 3) \<Longrightarrow>
     X2c (drop 2 r) = Some (hex_pair (r ! 2) (r ! 3))"
  "5 < length r \<Longrightarrow> ValidHex (r ! 4) \<Longrightarrow> ValidHex (r ! 5) \<Longrightarrow>
     X2c (drop 4 r) = Some (hex_pair (r ! 4) (r ! 5))"
  using X2c_drop [of 1 r] X2c_drop [of 2 r] X2c_drop [of 4 r]
  by (simp_all add: numeral_eq_Suc)

lemmas step_simps = write_simps X2c_rest rest_simps Let_def

interpretation url_scan: inplace_decoder doURLDecode_step url_tok url_special
proof (unfold_locales, goal_cases)
  case (1 r x out k x')
  then show ?case by (auto simp: url_tok_def Suc_le_eq split: if_splits)
next
  case (2 r c p q x out k x')
  then show ?case
    by (auto simp: doURLDecode_step_def url_tok_def step_simps simp del: put_in_range
        split: if_splits)
next
  case (3 b x r)
  then show ?case by (simp add: url_tok_def url_special_def)
qed


lemma inplaceUniDecode_step_tok:
  assumes "r \<noteq> []" "c \<le> length p" "length q = length p" "uni_tok x r = (out, k, x')"
  shows "inplaceUniDecode_step (p @ r) (q @ r, length p, c, x) =
    Some (overwrite (q @ r) c out, length p + k, c + length out, x')"
proof -
  note simps = inplaceUniDecode_step_def uni_tok_def url_tok_def full_width_def step_simps
  have d: "(q @ r) ! length p = r ! 0"
    using assms by (simp add: nth_append)
  show ?thesis
  proof (cases "r ! 0 = CHR ''%''")
    case percent: True
    let ?u = "1 < length r \<and> (r ! 1 = CHR ''u'' \<or> r ! 1 = CHR ''U'')"
    let ?hex4 = "5 < length r \<and> ValidHex (r ! 2) \<and> ValidHex (r ! 3) \<and> ValidHex (r ! 4) \<and> ValidHex (r ! 5)"
    let ?hex2 = "2 < length r \<and> ValidHex (r ! 1) \<and> ValidHex (r ! 2)"
    consider "?u" "?hex4" | "?u" "\<not> ?hex4" | "\<not> ?u" "?hex2" | "\<not> ?u" "\<not> ?hex2" by blast
    then show ?thesis
    proof cases
      case 1
      with assms percent d show ?thesis by (auto simp: simps simp del: put_in_range)
    next
      case 2
      then have "\<not> (length p + 5 < length q + length r \<and> ValidHex (r ! 2) \<and> ValidHex (r ! 3) \<and>
          ValidHex (r ! 4) \<and> ValidHex (r ! 5))"
        using assms(3) by auto
      with 2 assms percent d show ?thesis
        by (simp add: simps del: put_in_range de_Morgan_conj) auto
    next
      case 3
      with assms percent d show ?thesis
        by (simp add: simps del: put_in_range de_Morgan_conj) auto
    next
      case 4
      with assms percent d show ?thesis
        by (auto simp: simps simp del: put_in_range)
    qed
  next
    case False
    with assms d show ?thesis
      by (auto simp: simps simp del: put_in_range split: if_splits)
  qed
qed

interpretation uni_scan: inplace_decoder inplaceUniDecode_step uni_tok url_special
proof (unfold_locales, goal_cases)
  case (1 r x out k x')
  then show ?case
    by (auto simp: uni_tok_def url_tok_def Suc_le_eq split: if_splits)
next
  case (2 r c p q x out k x')
  then show ?case by (rule inplaceUniDecode_step_tok)
next
  case (3 b x r)
  then show ?case by (simp add: uni_tok_def url_tok_def url_special_def)
qed


subsection \<open>Correctness of the URL decoders\<close>

lemma first_index_ex: "(first_index P s \<noteq> None) = list_ex P s"
  by (induction s) auto

lemma urlDecode_eq:
  "urlDecode s = Some (fst (scan_ref url_tok () s), list_ex url_special s, None)"
proof (cases "first_index url_special s")
  case None
  then show ?thesis
    using first_index_ex [of url_special s] by (simp add: urlDecode_def url_scan.scan_ref_none)
next
  case (Some i)
  then show ?thesis
    using first_index_ex [of url_special s]
    by (simp add: urlDecode_def doURLDecode_def url_scan.run_from_first)
qed

lemma urlDecodeUni_eq:
  "urlDecodeUni s = Some (fst (scan_ref uni_tok () s), list_ex url_special s, None)"
proof (cases "first_index url_special s")
  case None
  then show ?thesis
    using first_index_ex [of url_special s] by (simp add: urlDecodeUni_def uni_scan.scan_ref_none)
next
  case (Some i)
  then show ?thesis
    using first_index_ex [of url_special s]
    by (simp add: urlDecodeUni_def inplaceUniDecode_def uni_scan.run_from_first)
qed

lemma byte_nibbles:
  "unat (drop_bit 4 (to_byte cc AND 0xff)) = ord cc div 16"
  "unat ((to_byte cc AND 0xff) AND 0x0f) = ord cc mod 16"
proof -
  have all: "to_byte cc AND 0xff = to_byte cc"
  proof -
    have "(0xff :: byte) = -1" by simp
    then show ?thesis by (simp only: and.right_neutral)
  qed
  have mask: "(0x0f :: byte) = mask 4" by (simp add: mask_eq_exp_minus_1)
  show "unat (drop_bit 4 (to_byte cc AND 0xff)) = ord cc div 16"
    unfolding all unsigned_drop_bit_eq unat_to_byte
    by (simp add: drop_bit_eq_div take_bit_eq_mod)
  show "unat ((to_byte cc AND 0xff) AND 0x0f) = ord cc mod 16"
    unfolding all mask take_bit_eq_mask [symmetric] unsigned_take_bit_eq unat_to_byte
    by (simp add: take_bit_eq_mod)
qed

lemma doURLEncode_loop_eq:
  "doURLEncode_loop s d ch = (d @ concat (map url_enc s), ch \<or> list_ex (\<lambda>c. url_enc c \<noteq> [c]) s)"
proof (induction s arbitrary: d ch)
  case (Cons c s)
  have "doURLEncode_loop (c # s) d ch = doURLEncode_loop s (d @ url_enc c) (ch \<or> url_enc c \<noteq> [c])"
    unfolding doURLEncode_loop.simps url_enc_def byte_nibbles by simp
  then show ?case
    by (simp add: Cons.IH)
qed simp

lemma doURLEncode_eq:
  "doURLEncode s = (concat (map url_enc s), list_ex (\<lambda>c. url_enc c \<noteq> [c]) s)"
  by (simp add: doURLEncode_def doURLEncode_loop_eq)

lemma scan_ref_url_enc:
  "fst (scan_ref url_tok () (url_enc c @ r)) = c # fst (scan_ref url_tok () r)"
proof -
  obtain k where "url_tok () (url_enc c @ r) = ([c], k, ())" "0 < k" "drop k (url_enc c @ r) = r"
  proof (cases "url_enc c = [c] \<or> c = CHR '' ''")
    case True
    then have "url_tok () (url_enc c @ r) = ([c], 1, ())"
      by (auto simp: url_enc_def url_tok_def split: if_splits)
    moreover have "drop 1 (url_enc c @ r) = r"
      using True by (elim disjE) (simp, simp add: url_enc_def)
    ultimately show ?thesis
      by (intro that [of 1]) auto
  next
    case False
    then have *: "url_enc c = [CHR ''%'', hex_digits ! (ord c div 16), hex_digits ! (ord c mod 16)]"
      by (auto simp: url_enc_def split: if_splits)
    have "ord c div 16 < 16" "ord c mod 16 < 16"
      by (simp_all add: ord_less_256 less_mult_imp_div_less)
    with * have "url_tok () (url_enc c @ r) = ([of_byte (of_nat (ord c))], 3, ())"
      by (simp add: url_tok_def hex_digits_props hex_pair_def numeral_2_eq_2)
    moreover have "of_byte (of_nat (ord c)) = c"
      by (metis of_byte_to_byte to_byte_def of_nat_of_char)
    ultimately show ?thesis
      using * by (intro that [of 3]) auto
  qed
  moreover have "url_enc c \<noteq> []"
    by (simp add: url_enc_def)
  ultimately show ?thesis
    using scan_ref_step [of "url_enc c @ r" url_tok "()" "[c]" k "()"] by auto
qed

lemma scan_ref_url_encode: "fst (scan_ref url_tok () (concat (map url_enc s))) = s"
  by (induction s) (simp_all add: scan_ref_url_enc)

lemma url_enc_special: "list_ex url_special (url_enc c) = (url_enc c \<noteq> [c])"
  by (auto simp: url_enc_def url_special_def)

lemma list_ex_concat_map: "list_ex P (concat (map f s)) = list_ex (\<lambda>c. list_ex P (f c)) s"
  by (induction s) auto

text \<open>
  (C26) \<open>urlDecode\<close> is a left inverse of \<open>urlEncode\<close>: what \<open>urlEncode\<close> writes decodes to the original
  bytes, for every byte string, and the decoder reports a change exactly when the encoder did.
\<close>

theorem urlDecode_urlEncode:
  "\<exists>e changed. urlEncode s = Some (e, changed, None) \<and> urlDecode e = Some (s, changed, None)"
  by (simp add: urlEncode_def doURLEncode_eq urlDecode_eq scan_ref_url_encode
      list_ex_concat_map url_enc_special)

end
