(* ===== verification/Trans_Escape.thy ===== *)
theory Trans_Escape
  imports Trans_Decode
begin

text \<open>
  The decoders of backslash escapes in \<open>internal/transformations\<close>: \<open>cssDecode\<close>, \<open>escapeSeqDecode\<close>
  and \<open>jsDecode\<close>. They follow the scheme of \<open>Trans_Decode\<close>: the loop body with checked accesses,
  a description of what one iteration reads and writes, and the proof that the loop ends without a
  panic with the result of the reference scan. \<open>jsDecode\<close>'s octal escapes are shown to lose their
  digits.
\<close>

subsection \<open>cssDecode\<close>

definition xsingle2c :: "char \<Rightarrow> byte" where
  "xsingle2c what = (if what \<ge> CHR ''A'' then ((and (to_byte what) 0xdf) - to_byte CHR ''A'') + 10
     else to_byte what - to_byte CHR ''0'')"

definition isspace :: "char \<Rightarrow> bool" where
  "isspace c = (c = CHR '' '' \<or> c = CHR 0x0C \<or> c = CHR 0x0A \<or> c = CHR 0x09 \<or> c = CHR 0x0D \<or>
     c = CHR 0x0B)"

text \<open>The loop that counts the bytes that satisfy a test, \<open>n\<close> of them at most.\<close>

fun count_while :: "(char \<Rightarrow> bool) \<Rightarrow> nat \<Rightarrow> string \<Rightarrow> nat" where
  "count_while P (Suc n) (b # r) = (if P b then Suc (count_while P n r) else 0)"
| "count_while P n r = 0"

text \<open>
  The switch on the number \<open>j\<close> of digits, on the input \<open>h\<close> after the backslash: the byte that is
  written, and whether the check for full-width ASCII follows.
\<close>

definition css_value :: "string \<Rightarrow> nat \<Rightarrow> byte option" where
  "css_value h j = (if j = 1 then map_option xsingle2c (at h 0) else X2c (drop (j - 2) h))"

definition css_fullcheck :: "string \<Rightarrow> nat \<Rightarrow> bool" where
  "css_fullcheck h j = (j = 4 \<or> (j = 5 \<and> h ! 0 = CHR ''0'') \<or>
     (j = 6 \<and> h ! 0 = CHR ''0'' \<and> h ! 1 = CHR ''0''))"

text \<open>
  The body of the loop. The position \<open>i1\<close> is \<open>i\<close> after the backslash was skipped; the write index
  moves after the optional addition of 0x20, on every path that writes.
\<close>

definition cssDecode_step :: "string \<Rightarrow> unit scan_state \<Rightarrow> unit scan_state option" where
  "cssDecode_step input = (\<lambda>(d, i, c, u).
     let inputLen = length d in do {
       ci \<leftarrow> at input i;
       if ci = CHR 0x5C then
         if i + 1 < inputLen then do {
           let i1 = i + 1;
           let h = drop i1 input;
           let j = count_while ValidHex 6 h;
           h0 \<leftarrow> at input i1;
           if j > 0 then do {
             v \<leftarrow> css_value h j;
             d \<leftarrow> put d c (of_byte v);
             d \<leftarrow> (if css_fullcheck h j \<and> v > 0x00 \<and> v < 0x5f \<and> isF (h ! (j - 3)) \<and> isF (h ! (j - 4))
                  then put d c (of_byte (v + 0x20)) else Some d);
             let j = (if i1 + j < inputLen \<and> isspace (input ! (i1 + j)) then j + 1 else j);
             Some (d, i1 + j, c + 1, u)
           }
           else if h0 = CHR 0x0A then Some (d, i1 + 1, c, u)
           else do {
             d \<leftarrow> put d c h0;
             Some (d, i1 + 1, c + 1, u)
           }
         }
         else Some (d, i + 1, c, u)
       else do {
         d \<leftarrow> put d c ci;
         Some (d, i + 1, c + 1, u)
       }
     })"

definition cssDecodeInplace :: "string \<Rightarrow> nat \<Rightarrow> string option" where
  "cssDecodeInplace input pos = map_option fst (run_inplace cssDecode_step input pos ())"

definition cssDecode :: "string \<Rightarrow> transformed" where
  "cssDecode data = (case index_byte data CHR 0x5C of
     Some i \<Rightarrow> do { t \<leftarrow> cssDecodeInplace data i; Some (t, True, None) }
   | None \<Rightarrow> Some (data, False, None))"

subsection \<open>escapeSeqDecode\<close>

definition isODigit :: "char \<Rightarrow> bool" where
  "isODigit c = (c \<ge> CHR ''0'' \<and> c \<le> CHR ''7'')"

text \<open>The letters that stand for a control character after a backslash.\<close>

definition control_escape :: "char \<Rightarrow> char option" where
  "control_escape c =
     (if c = CHR ''a'' then Some (CHR 0x07) else if c = CHR ''b'' then Some (CHR 0x08)
      else if c = CHR ''f'' then Some (CHR 0x0C) else if c = CHR ''n'' then Some (CHR 0x0A)
      else if c = CHR ''r'' then Some (CHR 0x0D) else if c = CHR ''t'' then Some (CHR 0x09)
      else if c = CHR ''v'' then Some (CHR 0x0B) else None)"

definition simple_escape :: "char \<Rightarrow> char option" where
  "simple_escape c = (case control_escape c of
     Some e \<Rightarrow> Some e
   | None \<Rightarrow> if c = CHR 0x5C \<or> c = CHR ''?'' \<or> c = CHR 0x27 \<or> c = CHR 0x22 then Some c else None)"

text \<open>\<open>strconv.ParseUint(s, 8, 8)\<close> and \<open>strconv.ParseInt(s, 8, 8)\<close>, the value without the error.\<close>

definition oct_value :: "string \<Rightarrow> nat" where
  "oct_value s = fold (\<lambda>c n. n * 8 + digit_val c) s 0"

definition parse_uint_oct8 :: "string \<Rightarrow> nat" where
  "parse_uint_oct8 s = (if s = [] \<or> \<not> list_all isODigit s then 0 else min 255 (oct_value s))"

definition parse_int_oct8 :: "string \<Rightarrow> int" where
  "parse_int_oct8 s =
     (let neg = (s \<noteq> [] \<and> hd s = CHR ''-'');
          ds = (if s \<noteq> [] \<and> (hd s = CHR ''-'' \<or> hd s = CHR ''+'') then tl s else s) in
      if ds = [] \<or> \<not> list_all isODigit ds then 0
      else if neg then - int (min 128 (oct_value ds)) else int (min 127 (oct_value ds)))"

definition doEscapeSeqDecode_step :: "string \<Rightarrow> bool scan_state \<Rightarrow> bool scan_state option" where
  "doEscapeSeqDecode_step input = (\<lambda>(data, i, d, changed).
     let inputLen = length input in do {
       ci \<leftarrow> at input i;
       if ci = CHR 0x5C \<and> i + 1 < inputLen then do {
         n \<leftarrow> at input (i + 1);
         case simple_escape n of
           Some c \<Rightarrow> do {
             data \<leftarrow> put data d c;
             Some (data, i + 2, d + 1, True)
           }
         | None \<Rightarrow>
             if (n = CHR ''x'' \<or> n = CHR ''X'') \<and> i + 3 < inputLen \<and>
                ValidHex (input ! (i + 2)) \<and> ValidHex (input ! (i + 3)) then do {
               v \<leftarrow> X2c (drop (i + 2) input);
               data \<leftarrow> put data d (of_byte v);
               Some (data, i + 4, d + 1, True)
             }
             else if isODigit n then do {
               let j = 2 + count_while isODigit 2 (drop (i + 2) input);
               ds \<leftarrow> slice input (i + 1) (i + j);
               data \<leftarrow> put data d (char_of (parse_uint_oct8 ds));
               Some (data, i + j, d + 1, True)
             }
             else do {
               data \<leftarrow> put data d n;
               Some (data, i + 2, d + 1, changed)
             }
       }
       else do {
         data \<leftarrow> put data d ci;
         Some (data, i + 1, d + 1, changed)
       }
     })"

definition doEscapeSeqDecode :: "string \<Rightarrow> nat \<Rightarrow> (string \<times> bool) option" where
  "doEscapeSeqDecode input pos = run_inplace doEscapeSeqDecode_step input pos False"

definition escapeSeqDecode :: "string \<Rightarrow> transformed" where
  "escapeSeqDecode input = (case index_byte input CHR 0x5C of
     Some i \<Rightarrow> do { (t, changed) \<leftarrow> doEscapeSeqDecode input i; Some (t, changed, None) }
   | None \<Rightarrow> Some (input, False, None))"

subsection \<open>jsDecode\<close>

text \<open>
  The loop that collects an octal escape: \<open>r\<close> is the input from \<open>i + j\<close>, the result is \<open>buf\<close> and
  its length \<open>j\<close>. The source copies \<open>input[i+j]\<close>, whose first byte is the backslash.
\<close>

fun js_octal_buf :: "nat \<Rightarrow> string \<Rightarrow> string" where
  "js_octal_buf (Suc n) (x # y # r) = x # (if isODigit y then js_octal_buf n (y # r) else [])"
| "js_octal_buf n r = []"

text \<open>At least \<open>n\<close> more bytes, the first \<open>n\<close> of them hexadecimal digits.\<close>

definition hex_run :: "nat \<Rightarrow> string \<Rightarrow> bool" where
  "hex_run n s = (n \<le> length s \<and> list_all ValidHex (take n s))"

definition doJsDecode_step :: "string \<Rightarrow> bool scan_state \<Rightarrow> bool scan_state option" where
  "doJsDecode_step input = (\<lambda>(d, i, c, changed).
     let inputLen = length input in do {
       ci \<leftarrow> at input i;
       if ci = CHR 0x5C then
         if hex_run 4 (drop (i + 2) input) \<and> input ! (i + 1) = CHR ''u'' then do {
           v \<leftarrow> X2c (drop (i + 4) input);
           d \<leftarrow> put d c (of_byte v);
           d \<leftarrow> (if v > 0x00 \<and> v < 0x5f \<and> isF (input ! (i + 2)) \<and> isF (input ! (i + 3))
                then put d c (of_byte (v + 0x20)) else Some d);
           Some (d, i + 6, c + 1, True)
         }
         else if hex_run 2 (drop (i + 2) input) \<and> input ! (i + 1) = CHR ''x'' then do {
           v \<leftarrow> X2c (drop (i + 2) input);
           d \<leftarrow> put d c (of_byte v);
           Some (d, i + 4, c + 1, True)
         }
         else if i + 1 < inputLen \<and> isODigit (input ! (i + 1)) then
           let buf = js_octal_buf 3 (drop i input); j = length buf in
           if j > 0 then do {
             let j = (if j = 3 \<and> buf ! 0 > CHR ''3'' then 2 else j);
             let nn = parse_int_oct8 (take j buf);
             d \<leftarrow> put d c (of_byte (of_int nn));
             Some (d, i + (1 + j), c + 1, True)
           } else Some (d, i, c, changed)
         else if i + 1 < inputLen then do {
           n \<leftarrow> at input (i + 1);
           d \<leftarrow> put d c (case control_escape n of Some e \<Rightarrow> e | None \<Rightarrow> n);
           Some (d, i + 2, c + 1, True)
         }
         else do {
           d \<leftarrow> put d c ci;
           Some (d, i + 1, c + 1, changed)
         }
       else do {
         d \<leftarrow> put d c ci;
         Some (d, i + 1, c + 1, changed)
       }
     })"

definition doJsDecode :: "string \<Rightarrow> nat \<Rightarrow> (string \<times> bool) option" where
  "doJsDecode input pos = run_inplace doJsDecode_step input pos False"

definition jsDecode :: "string \<Rightarrow> transformed" where
  "jsDecode data = (case index_byte data CHR 0x5C of
     Some i \<Rightarrow> do { (t, changed) \<leftarrow> doJsDecode data i; Some (t, changed, None) }
   | None \<Rightarrow> Some (data, False, None))"


subsection \<open>What one iteration reads and writes\<close>

text \<open>The byte of a run \<open>h\<close> of \<open>j\<close> hexadecimal digits after a backslash.\<close>

definition css_byte :: "string \<Rightarrow> nat \<Rightarrow> byte" where
  "css_byte h j =
     (let v = (if j = 1 then of_nat (hex_val (h ! 0)) else hex_pair (h ! (j - 2)) (h ! (j - 1))) in
      if css_fullcheck h j then full_width v (h ! (j - 3)) (h ! (j - 4)) else v)"

definition css_tok :: "unit \<Rightarrow> string \<Rightarrow> string \<times> nat \<times> unit" where
  "css_tok u r =
     (let h = drop 1 r; j = count_while ValidHex 6 h in
      if r ! 0 \<noteq> CHR 0x5C then ([r ! 0], 1, u)
      else if h = [] then ([], 1, u)
      else if j > 0 then
        ([of_byte (css_byte h j)], if j < length h \<and> isspace (h ! j) then j + 2 else j + 1, u)
      else if h ! 0 = CHR 0x0A then ([], 2, u)
      else ([h ! 0], 2, u))"

definition escape_tok :: "bool \<Rightarrow> string \<Rightarrow> string \<times> nat \<times> bool" where
  "escape_tok changed r =
     (let h = drop 1 r; j = count_while isODigit 3 h in
      if r ! 0 \<noteq> CHR 0x5C \<or> h = [] then ([r ! 0], 1, changed)
      else case simple_escape (h ! 0) of
        Some e \<Rightarrow> ([e], 2, True)
      | None \<Rightarrow>
          if (h ! 0 = CHR ''x'' \<or> h ! 0 = CHR ''X'') \<and> 2 < length h \<and> ValidHex (h ! 1) \<and> ValidHex (h ! 2)
          then ([of_byte (hex_pair (h ! 1) (h ! 2))], 4, True)
          else if j > 0 then ([char_of (min 255 (oct_value (take j h)))], j + 1, True)
          else ([h ! 0], 2, changed))"

text \<open>
  An octal escape is consumed without a look at its digits: its byte is always 0, and the byte
  after a single digit goes with it.
\<close>

definition js_octal_len :: "string \<Rightarrow> nat" where
  "js_octal_len h = min 2 (length h)"

definition js_tok :: "bool \<Rightarrow> string \<Rightarrow> string \<times> nat \<times> bool" where
  "js_tok changed r =
     (let h = drop 1 r in
      if r ! 0 \<noteq> CHR 0x5C \<or> h = [] then ([r ! 0], 1, changed)
      else if h ! 0 = CHR ''u'' \<and> hex_run 4 (drop 1 h) then ([of_byte (full_width (hex_pair (h ! 3) (h ! 4)) (h ! 1) (h ! 2))], 6, True)
      else if h ! 0 = CHR ''x'' \<and> hex_run 2 (drop 1 h) then ([of_byte (hex_pair (h ! 1) (h ! 2))], 4, True)
      else if isODigit (h ! 0) then ([CHR 0x00], js_octal_len h + 1, True)
      else ([case control_escape (h ! 0) of Some e \<Rightarrow> e | None \<Rightarrow> h ! 0], 2, True))"

subsection \<open>cssDecode\<close>

lemma count_while_le: "count_while P n r \<le> n" "count_while P n r \<le> length r"
  by (induction P n r rule: count_while.induct) auto

lemma count_while_nth: "k < count_while P n r \<Longrightarrow> P (r ! k)"
proof (induction P n r arbitrary: k rule: count_while.induct)
  case (1 P n b r)
  then show ?case by (cases k) (auto split: if_splits)
qed auto

lemma xsingle2c_val: "ValidHex c \<Longrightarrow> xsingle2c c = of_nat (hex_val c)"
  using x2c_digit_val [of c] by (simp add: xsingle2c_def x2c_digit_def)

lemma rest_Cons_simps:
  "at (p @ x # h) (Suc (length p)) = at h 0"
  "(p @ x # h) ! Suc (length p) = h ! 0"
  "(p @ x # h) ! Suc (Suc (length p)) = h ! 1"
  "(p @ x # h) ! Suc (length p + k) = h ! k"
  "drop (Suc (length p)) (p @ x # h) = h"
  "drop (Suc (length p + k)) (p @ x # h) = drop k h"
  by (simp_all add: at_def nth_append)

lemma css_value_hex:
  assumes "0 < count_while ValidHex 6 h"
  defines "j \<equiv> count_while ValidHex 6 h"
  shows "css_value h j =
    Some (if j = 1 then of_nat (hex_val (h ! 0)) else hex_pair (h ! (j - 2)) (h ! (j - 1)))"
proof (cases "j = 1")
  case True
  then show ?thesis
    using count_while_nth [of 0 ValidHex 6 h] count_while_le(2) [of ValidHex 6 h] assms
    by (simp add: css_value_def xsingle2c_val Suc_le_eq)
next
  case False
  with assms obtain n where n: "j = Suc (Suc n)"
    by (metis One_nat_def gr0_implies_Suc not_gr0)
  have "ValidHex (h ! n)" "ValidHex (h ! Suc n)"
    using count_while_nth [of _ ValidHex 6 h] n unfolding j_def by simp_all
  moreover have "Suc n < length h"
    using count_while_le(2) [of ValidHex 6 h] n unfolding j_def by simp
  ultimately show ?thesis
    using False n by (simp add: css_value_def X2c_drop)
qed

lemma cssDecode_step_tok:
  assumes "r \<noteq> []" "c \<le> length p" "length q = length p" "css_tok x r = (out, k, x')"
  shows "cssDecode_step (p @ r) (q @ r, length p, c, x) =
    Some (overwrite (q @ r) c out, length p + k, c + length out, x')"
proof -
  obtain b h where r: "r = b # h"
    using assms(1) by (cases r) auto
  let ?j = "count_while ValidHex 6 h"
  note simps = cssDecode_step_def css_tok_def write_simps rest_Cons_simps Let_def
  consider "b \<noteq> CHR 0x5C" | "b = CHR 0x5C" "h = []" | "b = CHR 0x5C" "h \<noteq> []" "?j = 0"
    | "b = CHR 0x5C" "h \<noteq> []" "?j > 0" by blast
  then show ?thesis
  proof cases
    case 4
    with assms r show ?thesis
      by (auto simp: simps css_value_hex css_byte_def full_width_def simp del: put_in_range)
  qed (use assms r in \<open>auto simp: simps simp del: put_in_range split: if_splits\<close>)
qed


interpretation css_scan: inplace_decoder cssDecode_step css_tok "\<lambda>b. b = CHR 0x5C"
proof (unfold_locales, goal_cases)
  case (1 r x out k x')
  then show ?case
    using count_while_le(2) [of ValidHex 6 "drop 1 r"]
    by (cases r) (auto simp: css_tok_def Let_def Suc_le_eq split: if_splits)
next
  case (2 r c p q x out k x')
  then show ?case by (rule cssDecode_step_tok)
next
  case (3 b x r)
  then show ?case by (simp add: css_tok_def Let_def)
qed

subsection \<open>escapeSeqDecode\<close>

lemma slice_rest: "slice (p @ x # h) (Suc (length p)) (Suc (length p + k)) = slice h 0 k"
  by (simp add: slice_def)

lemma parse_uint_oct8_count:
  "0 < count_while isODigit n h \<Longrightarrow>
   parse_uint_oct8 (take (count_while isODigit n h) h) = min 255 (oct_value (take (count_while isODigit n h) h))"
proof -
  assume "0 < count_while isODigit n h"
  moreover have "list_all isODigit (take (count_while isODigit n h) h)"
    using count_while_nth [of _ isODigit n h] by (auto simp: list_all_length)
  ultimately show ?thesis
    using count_while_le(2) [of isODigit n h] by (auto simp: parse_uint_oct8_def)
qed

lemma escape_step_octal:
  assumes "isODigit y"
  shows "count_while isODigit 3 (y # h) = Suc (count_while isODigit 2 h)"
  using assms by (simp add: numeral_3_eq_3 numeral_2_eq_2)


lemma doEscapeSeqDecode_step_tok:
  assumes "r \<noteq> []" "c \<le> length p" "length q = length p" "escape_tok x r = (out, k, x')"
  shows "doEscapeSeqDecode_step (p @ r) (q @ r, length p, c, x) =
    Some (overwrite (q @ r) c out, length p + k, c + length out, x')"
proof -
  obtain b h where r: "r = b # h"
    using assms(1) by (cases r) auto
  note simps = doEscapeSeqDecode_step_def escape_tok_def write_simps rest_Cons_simps Let_def
  show ?thesis
  proof (cases "b \<noteq> CHR 0x5C \<or> h = []")
    case True
    with assms r show ?thesis
      by (auto simp: simps simp del: put_in_range split: if_splits)
  next
    case False
    then obtain y t where h: "b = CHR 0x5C" "h = y # t"
      by (cases h) auto
    show ?thesis
    proof (cases "simple_escape y")
      case (Some e)
      with assms r h show ?thesis
        by (auto simp: simps simp del: put_in_range)
    next
      case None
      let ?x = "(y = CHR ''x'' \<or> y = CHR ''X'') \<and> 1 < length t \<and> ValidHex (t ! 0) \<and> ValidHex (t ! 1)"
      consider "?x" | "\<not> ?x" "isODigit y" | "\<not> ?x" "\<not> isODigit y" by blast
      then show ?thesis
      proof cases
        case 1
        have "X2c t = Some (hex_pair (t ! 0) (t ! 1))"
          using X2c_drop [of 0 t] 1 by simp
        with 1 None assms r h show ?thesis
          by (auto simp: simps rest_simps simp del: put_in_range)
      next
        case 2
        let ?n = "count_while isODigit 3 (y # t)"
        have "slice (y # t) 0 ?n = Some (take ?n (y # t))"
          by (intro slice_prefix count_while_le)
        with 2 None assms r h show ?thesis
          using parse_uint_oct8_count [of 3 "y # t"] slice_rest [of p b h ?n]
          by (auto simp: simps rest_simps escape_step_octal simp del: put_in_range)
      next
        case 3
        moreover have "count_while isODigit 3 (y # t) = 0"
          using 3 by (simp add: numeral_3_eq_3)
        ultimately show ?thesis
          using None assms r h by (auto simp: simps rest_simps simp del: put_in_range)
      qed
    qed
  qed
qed


interpretation escape_scan: inplace_decoder doEscapeSeqDecode_step escape_tok "\<lambda>b. b = CHR 0x5C"
proof (unfold_locales, goal_cases)
  case (1 r x out k x')
  then show ?case
    using count_while_le(2) [of isODigit 3 "drop 1 r"]
    by (cases r) (auto simp: escape_tok_def Let_def Suc_le_eq split: if_splits option.splits)
next
  case (2 r c p q x out k x')
  then show ?case by (rule doEscapeSeqDecode_step_tok)
next
  case (3 b x r)
  then show ?case by (simp add: escape_tok_def Let_def)
qed

subsection \<open>jsDecode\<close>

lemma hex_run_Nil [simp]: "hex_run n [] = (n = 0)"
  by (simp add: hex_run_def)

lemma of_byte_0 [simp]: "of_byte 0 = CHR 0x00"
  by (simp add: of_byte_def char_of_bits)

lemma parse_int_oct8_backslash: "parse_int_oct8 (CHR 0x5C # s) = 0"
  by (simp add: parse_int_oct8_def isODigit_def less_eq_char_def)

lemma js_octal_buf_digit:
  assumes "isODigit y"
  shows "js_octal_buf 3 (x # y # t) = x # (case t of [] \<Rightarrow> [] | z # u \<Rightarrow>
    y # (if isODigit z \<and> u \<noteq> [] then [z] else []))"
  using assms by (cases t; cases "tl t") (auto simp: numeral_3_eq_3)

lemma js_octal_consumed:
  fixes y t
  assumes "isODigit y"
  defines "buf \<equiv> js_octal_buf 3 (CHR 0x5C # y # t)"
  defines "j \<equiv> (if length buf = 3 \<and> buf ! 0 > CHR ''3'' then 2 else length buf)"
  shows "0 < length buf" "j = js_octal_len (y # t)" "parse_int_oct8 (take j buf) = 0"
proof -
  have buf: "buf = CHR 0x5C # (case t of [] \<Rightarrow> [] | z # u \<Rightarrow>
      y # (if isODigit z \<and> u \<noteq> [] then [z] else []))"
    using assms(1) by (simp add: buf_def js_octal_buf_digit)
  then show "0 < length buf" by simp
  show "j = js_octal_len (y # t)"
    using buf by (auto simp: j_def js_octal_len_def split: list.splits)
  with buf show "parse_int_oct8 (take j buf) = 0"
    by (simp add: js_octal_len_def parse_int_oct8_backslash take_Cons' split: list.splits)
qed

lemma doJsDecode_step_tok:
  assumes "r \<noteq> []" "c \<le> length p" "length q = length p" "js_tok x r = (out, k, x')"
  shows "doJsDecode_step (p @ r) (q @ r, length p, c, x) =
    Some (overwrite (q @ r) c out, length p + k, c + length out, x')"
proof -
  obtain b h where r: "r = b # h"
    using assms(1) by (cases r) auto
  note simps = doJsDecode_step_def js_tok_def write_simps rest_Cons_simps rest_simps Let_def
  show ?thesis
  proof (cases "b \<noteq> CHR 0x5C \<or> h = []")
    case True
    with assms r show ?thesis
      by (auto simp: simps simp del: put_in_range split: if_splits)
  next
    case False
    then obtain y t where h: "b = CHR 0x5C" "h = y # t"
      by (cases h) auto
    consider "y = CHR ''u''" "hex_run 4 t" | "y = CHR ''x''" "hex_run 2 t"
      | "\<not> (y = CHR ''u'' \<and> hex_run 4 t)" "\<not> (y = CHR ''x'' \<and> hex_run 2 t)" "isODigit y"
      | "\<not> (y = CHR ''u'' \<and> hex_run 4 t)" "\<not> (y = CHR ''x'' \<and> hex_run 2 t)" "\<not> isODigit y"
      by blast
    then show ?thesis
    proof cases
      case 1
      then have "X2c (drop 2 t) = Some (hex_pair (t ! 2) (t ! 3))"
        using X2c_rest(2) [of t] by (auto simp: hex_run_def list_all_length)
      with 1 assms r h show ?thesis
        by (auto simp: simps full_width_def simp del: put_in_range)
    next
      case 2
      then have "X2c t = Some (hex_pair (t ! 0) (t ! 1))"
        using X2c_drop [of 0 t] unfolding hex_run_def list_all_length
        by (metis One_nat_def Suc_le_eq drop0 length_take lessI less_trans min.absorb2 nth_take
            numeral_2_eq_2 zero_less_Suc)
      with 2 assms r h show ?thesis
        by (auto simp: simps simp del: put_in_range)
    next
      case 3
      with assms r h show ?thesis
        using js_octal_consumed [of y t]
        by (auto simp: simps simp del: put_in_range)
    next
      case 4
      with assms r h show ?thesis
        by (cases "control_escape y") (auto simp: simps simp del: put_in_range)
    qed
  qed
qed


interpretation js_scan: inplace_decoder doJsDecode_step js_tok "\<lambda>b. b = CHR 0x5C"
proof (unfold_locales, goal_cases)
  case (1 r x out k x')
  then show ?case
    by (cases r) (auto simp: js_tok_def Let_def Suc_le_eq hex_run_def js_octal_len_def split: if_splits)
next
  case (2 r c p q x out k x')
  then show ?case by (rule doJsDecode_step_tok)
next
  case (3 b x r)
  then show ?case by (simp add: js_tok_def Let_def)
qed

subsection \<open>Correctness of the decoders\<close>

lemma first_backslash: "list_ex (\<lambda>b. b = c) s = (c \<in> set s)"
  by (induction s) auto

text \<open>
  \<open>cssDecode\<close> never panics and always ends: its result is the left-to-right scan that replaces
  a backslash with one to six hexadecimal digits and one following blank by the byte that the last
  two digits give, drops an escaped newline and a trailing backslash, and keeps every other byte.
  The result is never longer than the input.
\<close>

theorem cssDecode_correct:
  "\<exists>t. cssDecode s = Some (t, CHR 0x5C \<in> set s, None) \<and> t = fst (scan_ref css_tok () s) \<and>
     length t \<le> length s"
proof (cases "first_index (\<lambda>b. b = CHR 0x5C) s")
  case None
  then show ?thesis
    using first_index_ex [of "\<lambda>b. b = CHR 0x5C" s]
    by (simp add: cssDecode_def index_byte_first_index css_scan.scan_ref_none first_backslash)
next
  case (Some i)
  then show ?thesis
    using first_index_ex [of "\<lambda>b. b = CHR 0x5C" s] css_scan.scan_ref_length [of "()" s]
    by (simp add: cssDecode_def cssDecodeInplace_def index_byte_first_index css_scan.run_from_first
        first_backslash)
qed

text \<open>
  \<open>escapeSeqDecode\<close> never panics and always ends: its result and its change flag are those of
  the left-to-right scan of ANSI C escapes. The result is never longer than the input.
\<close>

theorem escapeSeqDecode_correct:
  "escapeSeqDecode s = Some (fst (scan_ref escape_tok False s), snd (scan_ref escape_tok False s), None) \<and>
   length (fst (scan_ref escape_tok False s)) \<le> length s"
proof (cases "first_index (\<lambda>b. b = CHR 0x5C) s")
  case None
  then show ?thesis
    by (simp add: escapeSeqDecode_def index_byte_first_index escape_scan.scan_ref_none)
next
  case (Some i)
  then show ?thesis
    using escape_scan.scan_ref_length [of False s]
    by (simp add: escapeSeqDecode_def doEscapeSeqDecode_def index_byte_first_index
        escape_scan.run_from_first split: prod.splits)
qed


text \<open>
  The octal escape of the letter A, \<open>\\101\<close>, does not decode to A, but to the byte 0 followed by
  the last digit.
\<close>

lemma jsDecode_octal_lost:
  "jsDecode [CHR 0x5C, CHR ''1'', CHR ''0'', CHR ''1''] = Some ([CHR 0x00, CHR ''1''], True, None)"
proof -
  let ?s = "[CHR 0x5C, CHR ''1'', CHR ''0'', CHR ''1'']"
  have "js_tok False ?s = ([CHR 0x00], 3, True)" "js_tok True ''1'' = (''1'', 1, True)"
    by (simp_all add: js_tok_def js_octal_len_def isODigit_def Let_def)
  then have "scan_ref js_tok False ?s = ([CHR 0x00, CHR ''1''], True)"
    by (simp add: scan_ref.simps(2))
  moreover have "first_index (\<lambda>b. b = CHR 0x5C) ?s = Some 0"
    by simp
  ultimately show ?thesis
    by (simp add: jsDecode_def doJsDecode_def index_byte_first_index js_scan.run_from_first)
qed

end
