(* ===== verification/Go_Text.thy ===== *)
theory Go_Text
  imports Byte_Util
begin

text \<open>
  The text codecs of Go's standard library that the transformations and operators call:
  \<open>unicode/utf8\<close> with the iteration \<open>for _, c := range s\<close> over the runes of a string,
  \<open>unicode.IsSpace\<close>, \<open>strings.TrimSpace\<close>, \<open>strings.Fields\<close>, \<open>strings.Map\<close>, \<open>path.Clean\<close>, \<open>encoding/base64\<close> and \<open>encoding/hex\<close>.
\<close>

subsection \<open>Package unicode/utf8\<close>

definition rune_error :: nat where
  "rune_error = 0xFFFD"

definition cont_byte :: "nat \<Rightarrow> nat \<Rightarrow> char \<Rightarrow> bool" where
  "cont_byte lo hi c = (lo \<le> ord c \<and> ord c \<le> hi)"

text \<open>
  \<open>utf8.DecodeRuneInString\<close>: the rune and its width in bytes, \<open>(RuneError, 1)\<close> on an invalid
  encoding and \<open>(RuneError, 0)\<close> on the empty string. The second byte has a narrower range where
  it excludes overlong forms, surrogates and values above 10FFFF.
\<close>

fun decode_rune :: "string \<Rightarrow> nat \<times> nat" where
  "decode_rune [] = (rune_error, 0)"
| "decode_rune (c0 # r) =
     (let b = ord c0;
          lo = (if b = 0xE0 then 0xA0 else if b = 0xF0 then 0x90 else 0x80);
          hi = (if b = 0xED then 0x9F else if b = 0xF4 then 0x8F else 0xBF) in
      if b < 0x80 then (b, 1)
      else if 0xC2 \<le> b \<and> b \<le> 0xDF then
        (if 1 \<le> length r \<and> cont_byte lo hi (r ! 0)
         then ((b - 0xC0) * 64 + (ord (r ! 0) - 0x80), 2) else (rune_error, 1))
      else if 0xE0 \<le> b \<and> b \<le> 0xEF then
        (if 2 \<le> length r \<and> cont_byte lo hi (r ! 0) \<and> cont_byte 0x80 0xBF (r ! 1)
         then ((b - 0xE0) * 4096 + (ord (r ! 0) - 0x80) * 64 + (ord (r ! 1) - 0x80), 3)
         else (rune_error, 1))
      else if 0xF0 \<le> b \<and> b \<le> 0xF4 then
        (if 3 \<le> length r \<and> cont_byte lo hi (r ! 0) \<and> cont_byte 0x80 0xBF (r ! 1) \<and>
            cont_byte 0x80 0xBF (r ! 2)
         then ((b - 0xF0) * 262144 + (ord (r ! 0) - 0x80) * 4096 + (ord (r ! 1) - 0x80) * 64 +
               (ord (r ! 2) - 0x80), 4)
         else (rune_error, 1))
      else (rune_error, 1))"

definition encode_rune :: "nat \<Rightarrow> string" where
  "encode_rune r =
     (let r = (if r > 0x10FFFF \<or> (0xD800 \<le> r \<and> r \<le> 0xDFFF) then rune_error else r) in
      if r < 0x80 then [char_of r]
      else if r < 0x800 then [char_of (0xC0 + r div 64), char_of (0x80 + r mod 64)]
      else if r < 0x10000 then
        [char_of (0xE0 + r div 4096), char_of (0x80 + r div 64 mod 64), char_of (0x80 + r mod 64)]
      else [char_of (0xF0 + r div 262144), char_of (0x80 + r div 4096 mod 64),
            char_of (0x80 + r div 64 mod 64), char_of (0x80 + r mod 64)])"

text \<open>The iteration \<open>for i, c := range s\<close>: the runes with their widths, in order.\<close>

function range_runes :: "string \<Rightarrow> (nat \<times> nat) list" where
  "range_runes s = (if s = [] then []
     else decode_rune s # range_runes (drop (max 1 (snd (decode_rune s))) s))"
  by auto
termination
  by (relation "measure length") (auto simp: max_def)

declare range_runes.simps [simp del]

definition is_space_rune :: "nat \<Rightarrow> bool" where
  "is_space_rune r = (r \<in> {9, 10, 11, 12, 13, 32, 0x85, 0xA0, 0x1680, 0x2028, 0x2029, 0x202f, 0x205f, 0x3000}
     \<or> (0x2000 \<le> r \<and> r \<le> 0x200a))"

text \<open>\<open>strings.TrimSpace\<close>, which trims every Unicode space.\<close>

definition space_width :: "(nat \<times> nat) list \<Rightarrow> nat" where
  "space_width rs = sum_list (map snd (takeWhile (\<lambda>(r, w). is_space_rune r) rs))"

definition TrimSpace :: "string \<Rightarrow> string" where
  "TrimSpace s =
     (let rs = range_runes s in drop (space_width rs) (take (length s - space_width (rev rs)) s))"

text \<open>\<open>strings.Fields\<close> over the runes of a string; \<open>cur\<close> is the field read so far.\<close>

fun fields_loop :: "(nat \<times> nat) list \<Rightarrow> string \<Rightarrow> string \<Rightarrow> string list" where
  "fields_loop [] s cur = (if cur = [] then [] else [cur])"
| "fields_loop ((r, w) # rs) s cur =
     (if is_space_rune r then (if cur = [] then [] else [cur]) @ fields_loop rs (drop w s) []
      else fields_loop rs (drop w s) (cur @ take w s))"

definition Fields :: "string \<Rightarrow> string list" where
  "Fields s = fields_loop (range_runes s) s []"

text \<open>\<open>strings.Map\<close>, with \<open>None\<close> for a rune that the mapping drops.\<close>

definition strings_map :: "(nat \<Rightarrow> nat option) \<Rightarrow> string \<Rightarrow> string" where
  "strings_map f s = concat (map (\<lambda>(r, w). case f r of None \<Rightarrow> [] | Some r' \<Rightarrow> encode_rune r') (range_runes s))"

subsection \<open>Package path\<close>

fun clean_segments :: "bool \<Rightarrow> string list \<Rightarrow> string list \<Rightarrow> string list" where
  "clean_segments rooted [] out = rev out"
| "clean_segments rooted (seg # segs) out =
     (if seg = [] \<or> seg = ''.'' then clean_segments rooted segs out
      else if seg = ''..'' then
        (if out \<noteq> [] \<and> hd out \<noteq> ''..'' then clean_segments rooted segs (tl out)
         else if rooted then clean_segments rooted segs out
         else clean_segments rooted segs (seg # out))
      else clean_segments rooted segs (seg # out))"

fun join_with :: "char \<Rightarrow> string list \<Rightarrow> string" where
  "join_with c [] = []"
| "join_with c [w] = w"
| "join_with c (w # ws) = w @ c # join_with c ws"

definition path_clean :: "string \<Rightarrow> string" where
  "path_clean p = (if p = [] then ''.''
     else let rooted = (hd p = CHR ''/'');
              body = join_with CHR ''/'' (clean_segments rooted (split CHR ''/'' p) []);
              out = (if rooted then CHR ''/'' # body else body) in
          if out = [] then ''.'' else out)"

subsection \<open>Package encoding/base64, StdEncoding\<close>

definition b64_alphabet :: string where
  "b64_alphabet = ''ABCDEFGHIJKLMNOPQRSTUVWXYZabcdefghijklmnopqrstuvwxyz0123456789+/''"

definition b64_char :: "nat \<Rightarrow> char" where
  "b64_char n = b64_alphabet ! n"

fun b64_encode :: "string \<Rightarrow> string" where
  "b64_encode (a # b # c # s) =
     b64_char (ord a div 4) # b64_char (ord a mod 4 * 16 + ord b div 16) #
     b64_char (ord b mod 16 * 4 + ord c div 64) # b64_char (ord c mod 64) # b64_encode s"
| "b64_encode [a, b] =
     [b64_char (ord a div 4), b64_char (ord a mod 4 * 16 + ord b div 16),
      b64_char (ord b mod 16 * 4), CHR ''='']"
| "b64_encode [a] = [b64_char (ord a div 4), b64_char (ord a mod 4 * 16), CHR ''='', CHR ''='']"
| "b64_encode [] = []"

subsection \<open>Package encoding/hex\<close>

definition hex_encode_to_string :: "string \<Rightarrow> string" where
  "hex_encode_to_string s = concat (map (\<lambda>c. [hex_digits ! (ord c div 16), hex_digits ! (ord c mod 16)]) s)"

text \<open>\<open>hex.DecodeString\<close>: \<open>InvalidByteError\<close> on a byte that is no digit, else \<open>ErrLength\<close> on odd length.\<close>

fun hex_decode_string :: "string \<Rightarrow> go_error + string" where
  "hex_decode_string [] = Inr []"
| "hex_decode_string [a] = (if ValidHex a then Inl ''odd length hex string'' else Inl ''invalid byte'')"
| "hex_decode_string (a # b # s) =
     (if \<not> ValidHex a \<or> \<not> ValidHex b then Inl ''invalid byte''
      else case hex_decode_string s of
        Inl e \<Rightarrow> Inl e
      | Inr t \<Rightarrow> Inr (char_of (16 * hex_val a + hex_val b) # t))"

subsection \<open>Facts\<close>

lemma ord_char_of [simp]: "n < 256 \<Longrightarrow> ord (char_of n) = (n :: nat)"
  by simp

lemma decode_rune_width: "snd (decode_rune s) \<le> length s"
  by (cases s) (auto simp: Let_def)

lemma decode_rune_ascii: "ord c < 0x80 \<Longrightarrow> decode_rune (c # s) = (ord c, 1)"
  by (simp add: Let_def)

lemma range_runes_ascii:
  "\<forall>c\<in>set s. ord c < 0x80 \<Longrightarrow> range_runes s = map (\<lambda>c. (ord c, 1)) s"
proof (induction s)
  case Nil
  then show ?case by (simp add: range_runes.simps)
next
  case (Cons c s)
  then show ?case
    by (subst range_runes.simps) (simp add: decode_rune_ascii del: decode_rune.simps)
qed

lemma TrimSpace_ascii:
  "\<forall>c\<in>set s. ord c < 0x80 \<Longrightarrow>
   TrimSpace s = drop (length (takeWhile (\<lambda>c. is_space_rune (ord c)) s))
     (take (length s - length (takeWhile (\<lambda>c. is_space_rune (ord c)) (rev s))) s)"
  by (simp add: TrimSpace_def space_width_def range_runes_ascii Let_def takeWhile_map rev_map comp_def sum_list_triv)

lemma TrimSpace_trimmed:
  assumes "\<forall>c\<in>set s. ord c < 0x80 \<and> \<not> is_space_rune (ord c)"
  shows "TrimSpace s = s"
proof -
  have "takeWhile (\<lambda>c. is_space_rune (ord c)) s = []" "takeWhile (\<lambda>c. is_space_rune (ord c)) (rev s) = []"
    using assms by (cases s, auto simp: takeWhile_eq_Nil_iff) (cases "rev s", auto simp: takeWhile_eq_Nil_iff)
  with assms show ?thesis by (simp add: TrimSpace_ascii)
qed

lemma hex_decode_encode: "hex_decode_string (hex_encode_to_string s) = Inr s"
proof (induction s)
  case (Cons c s)
  have "ord c div 16 < 16" "ord c mod 16 < 16"
    by (simp_all add: ord_less_256 less_mult_imp_div_less)
  with Cons show ?case
    by (simp add: hex_encode_to_string_def hex_digits_props)
qed (simp add: hex_encode_to_string_def)

end
