(* ===== verification/Trans_Text.thy ===== *)
theory Trans_Text
  imports Trans_Decode Go_Text
begin

unbundle bit_operations_syntax

text \<open>
  The remaining transformations of \<open>internal/transformations\<close>: comments, white space, case, command
  lines, paths, the base64 and hexadecimal codecs and the registry. The lemmas give normal forms
  of the results (no comment opener, no double space, no removed byte), idempotence and the round
  trips of the codecs.
\<close>

subsection \<open>replaceComments\<close>

text \<open>The loop reads and writes the same buffer; the read index stays ahead of the write index.\<close>

definition doReplaceComments_step ::
  "string \<Rightarrow> (bool \<times> bool) scan_state \<Rightarrow> (bool \<times> bool) scan_state option" where
  "doReplaceComments_step value = (\<lambda>(input, i, j, incomment, changed).
     let inputLen = length value in do {
       ci \<leftarrow> at input i;
       if \<not> incomment then
         if ci = CHR ''/'' \<and> i + 1 < inputLen \<and> input ! (i + 1) = CHR ''*''
         then Some (input, i + 2, j, True, True)
         else do {
           input \<leftarrow> put input j ci;
           Some (input, i + 1, j + 1, incomment, changed)
         }
       else
         if ci = CHR ''*'' \<and> i + 1 < inputLen \<and> input ! (i + 1) = CHR ''/'' then do {
           input \<leftarrow> put input j CHR '' '';
           Some (input, i + 2, j + 1, False, changed)
         }
         else Some (input, i + 1, j, incomment, changed)
     })"

definition doReplaceComments :: "string \<Rightarrow> (string \<times> bool) option" where
  "doReplaceComments value = do {
     (input, i, j, incomment, changed) \<leftarrow>
       scan_loop doReplaceComments_step value (value, 0, 0, False, False);
     (input, j) \<leftarrow> (if incomment then do {
         input \<leftarrow> put input j CHR '' '';
         Some (input, j + 1)
       } else Some (input, j));
     out \<leftarrow> slice input 0 j;
     Some (out, changed)
   }"

definition replaceComments :: "string \<Rightarrow> transformed" where
  "replaceComments data = do {
     (transformedData, changed) \<leftarrow> doReplaceComments data;
     Some (transformedData, changed, None)
   }"

subsection \<open>removeComments\<close>

text \<open>
  The state of the loop is the buffer with its pad byte, the indices, the two flags, and whether
  \<open>break charLoop\<close> was executed.
\<close>

record rc_state =
  rc_input :: string
  rc_i :: nat
  rc_j :: nat
  rc_changed :: bool
  rc_incomment :: bool
  rc_break :: bool

text \<open>
  \<open>looking_at w input i inputLen\<close> is the chain of tests \<open>input[i] == w[0] && i+1 < inputLen &&
  input[i+1] == w[1] && \<dots>\<close>.
\<close>

definition looking_at :: "string \<Rightarrow> string \<Rightarrow> nat \<Rightarrow> nat \<Rightarrow> bool" where
  "looking_at w input i inputLen = (i + length w \<le> inputLen \<and> prefix w (drop i input))"

definition removeComments_step :: "nat \<Rightarrow> rc_state \<Rightarrow> rc_state option" where
  "removeComments_step inputLen s =
     (let input = rc_input s; i = rc_i s; j = rc_j s in do {
       ci \<leftarrow> at input i;
       if \<not> rc_incomment s then
         if looking_at ''/*'' input i inputLen then
           Some (s\<lparr>rc_incomment := True, rc_i := i + 2\<rparr>)
         else if looking_at ''<!--'' input i inputLen then
           Some (s\<lparr>rc_incomment := True, rc_i := i + 4\<rparr>)
         else if looking_at ''--'' input i inputLen then do {
           input \<leftarrow> put input i CHR '' '';
           Some (s\<lparr>rc_input := input, rc_changed := True, rc_break := True\<rparr>)
         }
         else if ci = CHR ''#'' then do {
           input \<leftarrow> put input i CHR '' '';
           Some (s\<lparr>rc_input := input, rc_changed := True, rc_break := True\<rparr>)
         }
         else do {
           input \<leftarrow> put input j ci;
           Some (s\<lparr>rc_input := input, rc_i := i + 1, rc_j := j + 1\<rparr>)
         }
       else
         if looking_at ''*/'' input i inputLen then do {
           n \<leftarrow> at input (i + 2);
           input \<leftarrow> put input j n;
           Some (s\<lparr>rc_incomment := False, rc_input := input, rc_i := i + 3, rc_j := j + 1\<rparr>)
         }
         else if looking_at ''-->'' input i inputLen then do {
           n \<leftarrow> at input (i + 3);
           input \<leftarrow> put input j n;
           Some (s\<lparr>rc_incomment := False, rc_input := input, rc_i := i + 4, rc_j := j + 1\<rparr>)
         }
         else Some (s\<lparr>rc_i := i + 1\<rparr>)
     })"

definition removeComments :: "string \<Rightarrow> transformed" where
  "removeComments value =
     (let inputLen = length value in do {
       s \<leftarrow> for_loop (\<lambda>s. rc_i s < inputLen \<and> \<not> rc_break s) (removeComments_step inputLen)
         \<lparr>rc_input = value @ [CHR 0x00], rc_i = 0, rc_j = 0, rc_changed = False,
          rc_incomment = False, rc_break = False\<rparr>;
       s \<leftarrow> (if rc_incomment s then do {
           input \<leftarrow> put (rc_input s) (rc_j s) CHR '' '';
           Some (s\<lparr>rc_changed := True, rc_input := input, rc_j := rc_j s + 1\<rparr>)
         } else Some s);
       out \<leftarrow> slice (rc_input s) 0 (rc_j s);
       Some (out, rc_changed s, None)
     })"

subsection \<open>removeCommentsChar\<close>

fun removeCommentsChar_loop :: "string \<Rightarrow> string \<Rightarrow> bool \<Rightarrow> string \<times> bool" where
  "removeCommentsChar_loop [] res changed = (res, changed)"
| "removeCommentsChar_loop (c # v) res changed =
     (if c = CHR ''/'' \<and> prefix ''*'' v then removeCommentsChar_loop (drop 1 v) res True
      else if c = CHR ''*'' \<and> prefix ''/'' v then removeCommentsChar_loop (drop 1 v) res True
      else if c = CHR ''<'' \<and> prefix ''!--'' v then removeCommentsChar_loop (drop 3 v) res True
      else if c = CHR ''-'' \<and> prefix ''->'' v then removeCommentsChar_loop (drop 2 v) res True
      else if c = CHR ''-'' \<and> prefix ''-'' v then removeCommentsChar_loop (drop 1 v) res True
      else if c = CHR ''#'' then removeCommentsChar_loop v res True
      else removeCommentsChar_loop v (res @ [c]) changed)"

definition removeCommentsChar :: "string \<Rightarrow> transformed" where
  "removeCommentsChar value = (case removeCommentsChar_loop value [] False of
     (res, changed) \<Rightarrow> Some (res, changed, None))"

subsection \<open>cmdLine\<close>

definition needsTransform :: "char \<Rightarrow> bool" where
  "needsTransform c = ((c \<ge> CHR ''A'' \<and> c \<le> CHR ''Z'') \<or>
     c \<in> {CHR 0x22, CHR 0x27, CHR 0x5C, CHR ''^'', CHR '' '', CHR '','', CHR '';'', CHR 0x09, CHR 0x0D,
          CHR 0x0A, CHR ''/'', CHR ''(''})"

text \<open>The cases of the switch on a byte.\<close>

definition cmd_removed :: "char \<Rightarrow> bool" where
  "cmd_removed a = (a \<in> {CHR 0x22, CHR 0x27, CHR 0x5C, CHR ''^''})"

definition cmd_blank :: "char \<Rightarrow> bool" where
  "cmd_blank a = (a \<in> {CHR '' '', CHR '','', CHR '';'', CHR 0x09, CHR 0x0D, CHR 0x0A})"

definition cmd_joint :: "char \<Rightarrow> bool" where
  "cmd_joint a = (a \<in> {CHR ''/'', CHR ''(''})"

text \<open>The slice \<open>ret[:len(ret)-1]\<close> panics on an empty \<open>ret\<close>.\<close>

fun doCMDLine_loop :: "string \<Rightarrow> string \<Rightarrow> bool \<Rightarrow> string option" where
  "doCMDLine_loop [] ret space = Some ret"
| "doCMDLine_loop (a # input) ret space =
     (if cmd_removed a then doCMDLine_loop input ret space
      else if cmd_blank a then
        (if \<not> space then doCMDLine_loop input (ret @ '' '') True
         else doCMDLine_loop input ret space)
      else if cmd_joint a then do {
        ret \<leftarrow> (if space then if ret = [] then None else slice ret 0 (length ret - 1) else Some ret);
        doCMDLine_loop input (ret @ [a]) False
      }
      else doCMDLine_loop input (ret @ [lower_char a]) False)"

definition doCMDLine :: "string \<Rightarrow> nat \<Rightarrow> string option" where
  "doCMDLine input pos = doCMDLine_loop (drop pos input) (take pos input) False"

definition cmdLine :: "string \<Rightarrow> transformed" where
  "cmdLine data = (case first_index needsTransform data of
     Some i \<Rightarrow> do { t \<leftarrow> doCMDLine data i; Some (t, True, None) }
   | None \<Rightarrow> Some (data, False, None))"

subsection \<open>compressWhitespace\<close>

definition isLatinSpace :: "char \<Rightarrow> bool" where
  "isLatinSpace c = (c \<in> {CHR 0x09, CHR 0x0A, CHR 0x0B, CHR 0x0C, CHR 0x0D, CHR '' '', CHR 0x85, CHR 0xA0})"

fun doCompressWhitespace_loop :: "string \<Rightarrow> string \<Rightarrow> bool \<Rightarrow> bool \<Rightarrow> string \<times> bool" where
  "doCompressWhitespace_loop [] ret inWhiteSpace changed = (ret, changed)"
| "doCompressWhitespace_loop (c # input) ret inWhiteSpace changed =
     (if isLatinSpace c then
        (if inWhiteSpace then doCompressWhitespace_loop input ret inWhiteSpace True
         else doCompressWhitespace_loop input (ret @ '' '') True changed)
      else doCompressWhitespace_loop input (ret @ [c]) False changed)"

definition doCompressWhitespace :: "string \<Rightarrow> nat \<Rightarrow> string \<times> bool" where
  "doCompressWhitespace input pos =
     doCompressWhitespace_loop (drop pos input) (take pos input) False False"

definition compressWhitespace :: "string \<Rightarrow> transformed" where
  "compressWhitespace value = (case first_index isLatinSpace value of
     Some i \<Rightarrow> (case doCompressWhitespace value i of (t, changed) \<Rightarrow> Some (t, changed, None))
   | None \<Rightarrow> Some (value, False, None))"


subsection \<open>Reference definitions\<close>

definition rep_tok :: "bool \<times> bool \<Rightarrow> string \<Rightarrow> string \<times> nat \<times> bool \<times> bool" where
  "rep_tok st r = (case st of (incomment, changed) \<Rightarrow>
     if \<not> incomment then
       if prefix ''/*'' r then ([], 2, True, True) else ([r ! 0], 1, False, changed)
     else
       if prefix ''*/'' r then ('' '', 2, False, changed) else ([], 1, True, changed))"

text \<open>Every comment becomes one space, an unterminated one too.\<close>

fun strip_comments :: "bool \<Rightarrow> string \<Rightarrow> string" where
  "strip_comments incomment [] = (if incomment then '' '' else [])"
| "strip_comments False (c # s) =
     (if c = CHR ''/'' \<and> prefix ''*'' s then strip_comments True (tl s) else c # strip_comments False s)"
| "strip_comments True (c # s) =
     (if c = CHR ''*'' \<and> prefix ''/'' s then CHR '' '' # strip_comments False (tl s)
      else strip_comments True s)"

text \<open>The invariant of the loop of \<open>removeComments\<close>, and its measure.\<close>

definition rc_inv :: "nat \<Rightarrow> rc_state \<Rightarrow> bool" where
  "rc_inv n s = (length (rc_input s) = n + 1 \<and> rc_j s \<le> rc_i s \<and> rc_j s \<le> n \<and>
     (rc_incomment s \<longrightarrow> rc_j s + 2 \<le> rc_i s \<and> rc_i s \<le> n))"

definition rc_left :: "nat \<Rightarrow> rc_state \<Rightarrow> nat" where
  "rc_left n s = (if rc_break s then 0 else n + 4 - rc_i s)"

text \<open>The normal form of \<open>cmdLine\<close>, byte by byte and for neighbours.\<close>

definition cmd_ok :: "char \<Rightarrow> bool" where
  "cmd_ok c = (\<not> cmd_removed c \<and> \<not> (CHR ''A'' \<le> c \<and> c \<le> CHR ''Z'') \<and> (cmd_blank c \<longrightarrow> c = CHR '' ''))"

definition cmd_pair_ok :: "char \<Rightarrow> char \<Rightarrow> bool" where
  "cmd_pair_ok c d = (c = CHR '' '' \<longrightarrow> d \<noteq> CHR '' '' \<and> \<not> cmd_joint d)"

text \<open>The normal form of \<open>compressWhitespace\<close>.\<close>

definition ws_ok :: "char \<Rightarrow> bool" where
  "ws_ok c = (isLatinSpace c \<longrightarrow> c = CHR '' '')"

definition ws_pair_ok :: "char \<Rightarrow> char \<Rightarrow> bool" where
  "ws_pair_ok c d = (c = CHR '' '' \<longrightarrow> d \<noteq> CHR '' '')"

text \<open>Every byte satisfies \<open>P\<close> and every pair of neighbours satisfies \<open>Q\<close>.\<close>

definition normal_form :: "(char \<Rightarrow> bool) \<Rightarrow> (char \<Rightarrow> char \<Rightarrow> bool) \<Rightarrow> string \<Rightarrow> bool" where
  "normal_form P Q s = (list_all P s \<and> successively Q s)"

subsection \<open>replaceComments\<close>

lemma prefix_two: "prefix [a, b] r \<longleftrightarrow> 1 < length r \<and> r ! 0 = a \<and> r ! 1 = b"
  by (cases r; cases "tl r") auto

interpretation rep_scan: inplace_scan doReplaceComments_step rep_tok
proof (unfold_locales, goal_cases)
  case (1 r x out k x')
  then show ?case
    by (auto simp: rep_tok_def prefix_two Suc_le_eq split: if_splits prod.splits)
next
  case (2 r c p q x out k x')
  have "(q @ r) ! length p = r ! 0" "(q @ r) ! Suc (length p) = r ! 1"
    using 2 by (simp_all add: nth_append)
  with 2 show ?case
    by (auto simp: doReplaceComments_step_def rep_tok_def prefix_two step_simps simp del: put_in_range
        split: if_splits prod.splits)
qed

lemma rep_scan_simps:
  "scan_ref rep_tok (False, ch) (c # s) =
     (if c = CHR ''/'' \<and> prefix ''*'' s then scan_ref rep_tok (True, True) (tl s)
      else (c # fst (scan_ref rep_tok (False, ch) s), snd (scan_ref rep_tok (False, ch) s)))"
  "scan_ref rep_tok (True, ch) (c # s) =
     (if c = CHR ''*'' \<and> prefix ''/'' s
      then (CHR '' '' # fst (scan_ref rep_tok (False, ch) (tl s)), snd (scan_ref rep_tok (False, ch) (tl s)))
      else scan_ref rep_tok (True, ch) s)"
  by (simp_all add: scan_ref.simps(2) rep_tok_def drop_Suc split: prod.splits)

lemma scan_ref_strip:
  "strip_comments inc s = fst (scan_ref rep_tok (inc, ch) s) @
     (if fst (snd (scan_ref rep_tok (inc, ch) s)) then '' '' else [])"
proof (induction inc s arbitrary: ch rule: strip_comments.induct)
  case (2 c s)
  show ?case using "2.IH"(1) [of True] "2.IH"(2) [of ch] by (auto simp: rep_scan_simps)
next
  case (3 c s)
  show ?case using "3.IH"(1) [of ch] "3.IH"(2) [of ch] by (auto simp: rep_scan_simps)
qed simp

lemma scan_ref_changed:
  "(inc \<longrightarrow> ch) \<Longrightarrow> snd (snd (scan_ref rep_tok (inc, ch) s)) = (ch \<or> contains s ''/*'')"
  by (induction inc s arbitrary: ch rule: strip_comments.induct) (auto simp: rep_scan_simps)

lemma scan_ref_room:
  "fst (snd (scan_ref rep_tok (inc, ch) s)) \<Longrightarrow>
   length (fst (scan_ref rep_tok (inc, ch) s)) < length s + (if inc then 1 else 0)"
proof (induction inc s arbitrary: ch rule: strip_comments.induct)
  case (2 c s)
  then show ?case
    by (cases s) (auto simp: rep_scan_simps intro: less_SucI split: if_splits)
next
  case (3 c s)
  then show ?case
    by (cases s) (fastforce simp: rep_scan_simps split: if_splits)+
qed auto

lemma strip_comments_True_hd: "\<not> prefix ''*'' (strip_comments True s)"
  by (induction True s rule: strip_comments.induct) auto

lemma strip_comments_no_opener: "\<not> contains (strip_comments inc s) ''/*''"
proof (induction inc s rule: strip_comments.induct)
  case (2 c s)
  then show ?case
    using strip_comments_True_hd by (cases s) (auto split: if_splits)
qed auto

lemma replaceComments_eq:
  "replaceComments s = Some (strip_comments False s, contains s ''/*'', None)"
proof -
  obtain d c where l: "scan_loop doReplaceComments_step s (s, 0, 0, False, False) =
      Some (d, length s, c, snd (scan_ref rep_tok (False, False) s))"
    and d: "length d = length s" "slice d 0 c = Some (fst (scan_ref rep_tok (False, False) s))"
    using rep_scan.scan_total [of 0 s "(False, False)"] by auto
  obtain out inc ch where sr: "scan_ref rep_tok (False, False) s = (out, inc, ch)"
    by (cases "scan_ref rep_tok (False, False) s") auto
  have c: "c \<le> length d" "take c d = out"
    using d sr by (auto simp: slice_def split: if_splits)
  have ch: "ch = contains s ''/*''" "strip_comments False s = out @ (if inc then '' '' else [])"
    using sr scan_ref_changed [of False False s] scan_ref_strip [of False s False] by simp_all
  show ?thesis
  proof (cases inc)
    case True
    then have "c < length d"
      using scan_ref_room [of False False s] sr c d by auto
    with True l c d ch sr show ?thesis
      by (simp add: replaceComments_def doReplaceComments_def slice_prefix take_Suc_conv_app_nth)
  next
    case False
    with l c d ch sr show ?thesis
      by (simp add: replaceComments_def doReplaceComments_def)
  qed
qed


subsection \<open>removeComments\<close>

lemma looking_at_bound: "looking_at w input i n \<Longrightarrow> i + length w \<le> n"
  by (simp add: looking_at_def)

lemma removeComments_step_total:
  assumes "rc_inv n s" "rc_i s < n" "\<not> rc_break s"
  shows "\<exists>t. removeComments_step n s = Some t \<and> rc_inv n t \<and> rc_left n t < rc_left n s"
proof -
  let ?at = "\<lambda>w. looking_at w (rc_input s) (rc_i s) n"
  have at: "?at w \<Longrightarrow> rc_i s + length w \<le> n" for w
    by (rule looking_at_bound)
  have len: "length (rc_input s) = n + 1" "rc_j s \<le> rc_i s" "rc_j s \<le> n"
    using assms(1) by (simp_all add: rc_inv_def)
  show ?thesis
  proof (cases "rc_incomment s")
    case True
    consider "?at ''*/''" | "\<not> ?at ''*/''" "?at ''-->''" | "\<not> ?at ''*/''" "\<not> ?at ''-->''"
      by blast
    then show ?thesis
    proof cases
      case 1
      with True assms len at [of "''*/''"] show ?thesis
        by (simp add: removeComments_step_def Let_def) (auto simp: rc_inv_def rc_left_def)
    next
      case 2
      with True assms len at [of "''-->''"] show ?thesis
        by (simp add: removeComments_step_def Let_def) (auto simp: rc_inv_def rc_left_def)
    next
      case 3
      with True assms len show ?thesis
        by (simp add: removeComments_step_def Let_def) (auto simp: rc_inv_def rc_left_def)
    qed
  next
    case False
    consider "?at ''/*''" | "\<not> ?at ''/*''" "?at ''<!--''" | "\<not> ?at ''/*''" "\<not> ?at ''<!--''"
      by blast
    then show ?thesis
    proof cases
      case 1
      with False assms len at [of "''/*''"] show ?thesis
        by (simp add: removeComments_step_def Let_def) (auto simp: rc_inv_def rc_left_def)
    next
      case 2
      with False assms len at [of "''<!--''"] show ?thesis
        by (simp add: removeComments_step_def Let_def) (auto simp: rc_inv_def rc_left_def)
    next
      case 3
      with False assms len show ?thesis
        by (simp add: removeComments_step_def Let_def) (auto simp: rc_inv_def rc_left_def)
    qed
  qed
qed

lemma removeComments_total: "\<exists>t changed. removeComments value = Some (t, changed, None)"
proof -
  let ?n = "length value"
  let ?s = "\<lparr>rc_input = value @ [CHR 0x00], rc_i = 0, rc_j = 0, rc_changed = False,
    rc_incomment = False, rc_break = False\<rparr>"
  have "rc_inv ?n ?s"
    by (simp add: rc_inv_def)
  then obtain t where "for_loop (\<lambda>s. rc_i s < ?n \<and> \<not> rc_break s) (removeComments_step ?n) ?s = Some t"
    and "rc_inv ?n t"
    using for_loop_total [of "rc_inv ?n" ?s "\<lambda>s. rc_i s < ?n \<and> \<not> rc_break s"
        "removeComments_step ?n" "rc_left ?n"] removeComments_step_total by blast
  then show ?thesis
    by (auto simp: removeComments_def Let_def rc_inv_def slice_prefix)
qed

subsection \<open>Normal forms\<close>

lemma normal_form_snoc:
  "normal_form P Q (s @ [c]) \<longleftrightarrow> normal_form P Q s \<and> P c \<and> (s \<noteq> [] \<longrightarrow> Q (last s) c)"
  by (auto simp: normal_form_def successively_append_iff)

lemma normal_form_appendD: "normal_form P Q (s @ t) \<Longrightarrow> normal_form P Q s"
  by (simp add: normal_form_def successively_append_iff)

lemma normal_form_middle:
  "normal_form P Q (s @ c # t) \<Longrightarrow> P c \<and> (s \<noteq> [] \<longrightarrow> Q (last s) c)"
  by (auto simp: normal_form_def successively_append_iff)

lemma cmd_pair_not_blank: "c \<noteq> CHR '' '' \<Longrightarrow> cmd_pair_ok c d"
  by (simp add: cmd_pair_ok_def)

lemma cmd_pair_plain: "d \<noteq> CHR '' '' \<Longrightarrow> \<not> cmd_joint d \<Longrightarrow> cmd_pair_ok c d"
  by (simp add: cmd_pair_ok_def)

lemma cmd_pair_blank: "cmd_pair_ok c d \<Longrightarrow> d = CHR '' '' \<Longrightarrow> c \<noteq> CHR '' ''"
  by (simp add: cmd_pair_ok_def)

lemma ws_pair_not_blank: "c \<noteq> CHR '' '' \<Longrightarrow> ws_pair_ok c d" "d \<noteq> CHR '' '' \<Longrightarrow> ws_pair_ok c d"
  by (simp_all add: ws_pair_ok_def)

lemma ws_ok_plain: "\<not> isLatinSpace c \<Longrightarrow> ws_ok c" "ws_ok CHR '' ''"
  by (simp_all add: ws_ok_def)

lemma lower_char_cases:
  obtains "lower_char a = a" "\<not> (CHR ''A'' \<le> a \<and> a \<le> CHR ''Z'')" | "97 \<le> ord (lower_char a)" "ord (lower_char a) \<le> 122"
proof (cases "CHR ''A'' \<le> a \<and> a \<le> CHR ''Z''")
  case True
  then have "65 \<le> ord a" "ord a \<le> 90"
    by (simp_all add: less_eq_char_def)
  with True show ?thesis
    by (intro that(2)) (simp_all add: lower_char_def)
next
  case False
  then show ?thesis
    by (intro that(1)) (auto simp: lower_char_def)
qed

lemma cmd_lower_ok:
  assumes "\<not> cmd_removed a" "\<not> cmd_blank a" "\<not> cmd_joint a"
  shows "cmd_ok (lower_char a)" "\<not> cmd_joint (lower_char a)" "lower_char a \<noteq> CHR '' ''"
proof (atomize (full), cases rule: lower_char_cases [of a])
  case 1
  with assms show "cmd_ok (lower_char a) \<and> \<not> cmd_joint (lower_char a) \<and> lower_char a \<noteq> CHR '' ''"
    by (auto simp: cmd_ok_def cmd_blank_def)
next
  case 2
  then show "cmd_ok (lower_char a) \<and> \<not> cmd_joint (lower_char a) \<and> lower_char a \<noteq> CHR '' ''"
    by (auto simp: cmd_ok_def cmd_removed_def cmd_blank_def cmd_joint_def less_eq_char_def)
qed

lemma cmd_class:
  "cmd_blank a \<Longrightarrow> \<not> cmd_removed a" "cmd_joint a \<Longrightarrow> \<not> cmd_removed a \<and> \<not> cmd_blank a"
  "cmd_ok (CHR '' '')" "\<not> cmd_joint (CHR '' '')" "cmd_joint a \<Longrightarrow> cmd_ok a \<and> a \<noteq> CHR '' ''" "cmd_blank (CHR '' '')"
  by (auto simp: cmd_ok_def cmd_removed_def cmd_blank_def cmd_joint_def)

lemma doCMDLine_loop_normal:
  assumes "normal_form cmd_ok cmd_pair_ok ret" "space \<longleftrightarrow> ret \<noteq> [] \<and> last ret = CHR '' ''"
  shows "\<exists>t. doCMDLine_loop input ret space = Some t \<and> normal_form cmd_ok cmd_pair_ok t"
  using assms
proof (induction input arbitrary: ret space)
  case (Cons a input)
  consider "cmd_removed a" | "cmd_blank a" | "cmd_joint a" | "\<not> cmd_removed a" "\<not> cmd_blank a" "\<not> cmd_joint a"
    by blast
  then show ?case
  proof cases
    case 1
    with Cons show ?thesis by simp
  next
    case 2
    have "normal_form cmd_ok cmd_pair_ok (ret @ '' '')" if "\<not> space"
      using Cons.prems that by (auto simp: normal_form_snoc cmd_class cmd_pair_not_blank)
    with 2 Cons.prems Cons.IH [of ret True] Cons.IH [of "ret @ '' ''" True] show ?thesis
      by (auto simp: cmd_class)
  next
    case 3
    show ?thesis
    proof (cases space)
      case True
      then obtain r where r: "ret = r @ '' ''"
        using Cons.prems(2) by (metis append_butlast_last_id)
      then have "normal_form cmd_ok cmd_pair_ok (r @ [a])"
        using Cons.prems(1) 3 by (auto simp: normal_form_snoc cmd_class dest: cmd_pair_blank
            intro: cmd_pair_not_blank)
      with 3 True r Cons.IH [of "r @ [a]" False] show ?thesis
        by (simp add: cmd_class slice_prefix)
    next
      case False
      then have "normal_form cmd_ok cmd_pair_ok (ret @ [a])"
        using Cons.prems 3 by (auto simp: normal_form_snoc cmd_class cmd_pair_not_blank)
      with 3 False Cons.IH [of "ret @ [a]" False] show ?thesis
        by (simp add: cmd_class)
    qed
  next
    case 4
    then have "normal_form cmd_ok cmd_pair_ok (ret @ [lower_char a])"
      using Cons.prems(1) by (auto simp: normal_form_snoc cmd_lower_ok cmd_pair_plain)
    with 4 Cons.IH [of "ret @ [lower_char a]" False] show ?thesis
      by (simp add: cmd_lower_ok)
  qed
qed simp

lemma doCMDLine_loop_fixed:
  assumes "normal_form cmd_ok cmd_pair_ok (ret @ input)" "space \<longleftrightarrow> ret \<noteq> [] \<and> last ret = CHR '' ''"
  shows "doCMDLine_loop input ret space = Some (ret @ input)"
  using assms
proof (induction input arbitrary: ret space)
  case (Cons a input)
  note m = normal_form_middle [OF Cons.prems(1)]
  then have "lower_char a = a"
    by (auto simp: cmd_ok_def lower_char_def)
  moreover have "doCMDLine_loop input (ret @ [a]) (a = CHR '' '') = Some ((ret @ [a]) @ input)"
    by (intro Cons.IH) (use Cons.prems(1) in auto)
  moreover have "\<not> cmd_removed a" "cmd_blank a \<longleftrightarrow> a = CHR '' ''"
    using m by (auto simp: cmd_ok_def cmd_class)
  moreover have "a = CHR '' '' \<or> cmd_joint a \<Longrightarrow> \<not> space"
    using m Cons.prems(2) by (auto simp: cmd_pair_ok_def)
  ultimately show ?case
    by (cases "cmd_joint a") (auto simp: cmd_class)
qed simp

lemma needsTransform_iff:
  "\<not> needsTransform c \<longleftrightarrow> cmd_ok c \<and> c \<noteq> CHR '' '' \<and> \<not> cmd_joint c"
  by (auto simp: needsTransform_def cmd_ok_def cmd_removed_def cmd_blank_def cmd_joint_def)

lemma normal_form_plain:
  "\<forall>c\<in>set s. P c \<and> c \<noteq> CHR '' '' \<Longrightarrow> (\<And>c d. c \<noteq> CHR '' '' \<Longrightarrow> Q c d) \<Longrightarrow> normal_form P Q s"
proof (induction s rule: rev_induct)
  case (snoc c s)
  then show ?case by (simp add: normal_form_snoc)
qed (simp add: normal_form_def)


lemma cmdLine_normal:
  "\<exists>t changed. cmdLine s = Some (t, changed, None) \<and> normal_form cmd_ok cmd_pair_ok t"
proof (cases "first_index needsTransform s")
  case None
  then have "normal_form cmd_ok cmd_pair_ok s"
    by (intro normal_form_plain) (auto simp: first_index_None_iff needsTransform_iff cmd_pair_ok_def)
  with None show ?thesis
    by (auto simp: cmdLine_def)
next
  case (Some i)
  then have "\<forall>c\<in>set (take i s). cmd_ok c \<and> c \<noteq> CHR '' ''"
    using first_index_Some [OF Some] by (auto simp: needsTransform_iff)
  moreover from this have "normal_form cmd_ok cmd_pair_ok (take i s)"
    by (intro normal_form_plain) (auto simp: cmd_pair_ok_def)
  ultimately obtain t where "doCMDLine s i = Some t" "normal_form cmd_ok cmd_pair_ok t"
    using doCMDLine_loop_normal [of "take i s" False "drop i s"] last_in_set [of "take i s"]
    unfolding doCMDLine_def by blast
  with Some show ?thesis
    by (auto simp: cmdLine_def)
qed

lemma cmdLine_fixed:
  assumes "normal_form cmd_ok cmd_pair_ok t"
  shows "cmdLine t = Some (t, list_ex needsTransform t, None)"
proof (cases "first_index needsTransform t")
  case None
  then show ?thesis
    using first_index_ex [of needsTransform t] by (simp add: cmdLine_def)
next
  case (Some i)
  then have "\<forall>c\<in>set (take i t). c \<noteq> CHR '' ''"
    using first_index_Some [OF Some] by (auto simp: needsTransform_iff)
  then have "take i t \<noteq> [] \<Longrightarrow> last (take i t) \<noteq> CHR '' ''"
    using last_in_set [of "take i t"] by blast
  then have "doCMDLine t i = Some t"
    using assms doCMDLine_loop_fixed [of "take i t" "drop i t" False]
    by (simp only: doCMDLine_def append_take_drop_id) blast
  with Some show ?thesis
    using first_index_ex [of needsTransform t] by (simp add: cmdLine_def)
qed

lemma compress_loop_normal:
  assumes "normal_form ws_ok ws_pair_ok ret" "ws \<longleftrightarrow> ret \<noteq> [] \<and> last ret = CHR '' ''"
  shows "normal_form ws_ok ws_pair_ok (fst (doCompressWhitespace_loop input ret ws ch))"
  using assms
proof (induction input arbitrary: ret ws ch)
  case (Cons c input)
  show ?case
  proof (cases "isLatinSpace c")
    case True
    have "normal_form ws_ok ws_pair_ok (ret @ '' '')" if "\<not> ws"
      using Cons.prems that by (auto simp: normal_form_snoc ws_ok_plain ws_pair_not_blank)
    with True Cons.prems Cons.IH [of ret True True] Cons.IH [of "ret @ '' ''" True ch] show ?thesis
      by auto
  next
    case False
    then have "c \<noteq> CHR '' ''"
      by (auto simp: isLatinSpace_def)
    moreover from this have "normal_form ws_ok ws_pair_ok (ret @ [c])"
      using Cons.prems False by (auto simp: normal_form_snoc ws_ok_plain ws_pair_not_blank)
    ultimately show ?thesis
      using False Cons.IH [of "ret @ [c]" False ch] by simp
  qed
qed simp

lemma compress_loop_fixed:
  assumes "normal_form ws_ok ws_pair_ok (ret @ input)" "ws \<longleftrightarrow> ret \<noteq> [] \<and> last ret = CHR '' ''"
  shows "doCompressWhitespace_loop input ret ws ch = (ret @ input, ch)"
  using assms
proof (induction input arbitrary: ret ws)
  case (Cons a input)
  note m = normal_form_middle [OF Cons.prems(1)]
  have "doCompressWhitespace_loop input (ret @ [a]) (a = CHR '' '') ch = ((ret @ [a]) @ input, ch)"
    by (intro Cons.IH) (use Cons.prems(1) in auto)
  moreover have "isLatinSpace a \<longleftrightarrow> a = CHR '' ''"
    using m by (auto simp: ws_ok_def isLatinSpace_def)
  ultimately show ?case
    using m Cons.prems(2) by (auto simp: ws_pair_ok_def)
qed simp

lemma compressWhitespace_normal:
  "\<exists>t changed. compressWhitespace s = Some (t, changed, None) \<and> normal_form ws_ok ws_pair_ok t"
proof (cases "first_index isLatinSpace s")
  case None
  then have "normal_form ws_ok ws_pair_ok s"
    by (intro normal_form_plain)
      (auto simp: first_index_None_iff ws_ok_def ws_pair_ok_def isLatinSpace_def)
  with None show ?thesis
    by (auto simp: compressWhitespace_def)
next
  case (Some i)
  then have c: "\<forall>c\<in>set (take i s). ws_ok c \<and> c \<noteq> CHR '' ''"
    using first_index_Some [OF Some] by (auto simp: ws_ok_def isLatinSpace_def)
  then have "normal_form ws_ok ws_pair_ok (take i s)"
    by (intro normal_form_plain) (auto simp: ws_pair_ok_def)
  then have "normal_form ws_ok ws_pair_ok (fst (doCompressWhitespace s i))"
    unfolding doCompressWhitespace_def
    by (rule compress_loop_normal) (use c last_in_set [of "take i s"] in blast)
  with Some show ?thesis
    by (cases "doCompressWhitespace s i") (auto simp: compressWhitespace_def)
qed

lemma compressWhitespace_fixed:
  assumes "normal_form ws_ok ws_pair_ok t"
  shows "compressWhitespace t = Some (t, False, None)"
proof (cases "first_index isLatinSpace t")
  case None
  then show ?thesis by (simp add: compressWhitespace_def)
next
  case (Some i)
  then have "\<forall>c\<in>set (take i t). c \<noteq> CHR '' ''"
    using first_index_Some [OF Some] by (auto simp: isLatinSpace_def)
  then have "take i t \<noteq> [] \<Longrightarrow> last (take i t) \<noteq> CHR '' ''"
    using last_in_set [of "take i t"] by blast
  then have "doCompressWhitespace t i = (t, False)"
    using assms compress_loop_fixed [of "take i t" "drop i t" False False]
    by (simp only: doCompressWhitespace_def append_take_drop_id) blast
  with Some show ?thesis
    by (simp add: compressWhitespace_def)
qed

subsection \<open>Properties\<close>

text \<open>
  \<open>replaceComments\<close> never panics and always ends, replaces every C comment by one space, and
  its result never contains the comment opener \<open>/*\<close>. It reports a change exactly when the input
  has one.
\<close>

theorem replaceComments_correct:
  "replaceComments s = Some (strip_comments False s, contains s ''/*'', None) \<and>
   \<not> contains (strip_comments False s) ''/*''"
  by (simp add: replaceComments_eq strip_comments_no_opener)

text \<open>
  \<open>cmdLine\<close> never panics; its result is in normal form: no quote, backslash, caret, comma,
  semicolon, tab, newline or upper-case letter, no two adjacent spaces, no space before a slash or
  an open parenthesis; and \<open>cmdLine\<close> leaves it as it is, so that \<open>cmdLine\<close> is idempotent.
\<close>

theorem cmdLine_idempotent:
  "\<exists>t changed. cmdLine s = Some (t, changed, None) \<and> normal_form cmd_ok cmd_pair_ok t \<and>
     (\<exists>changed'. cmdLine t = Some (t, changed', None))"
  using cmdLine_normal [of s] cmdLine_fixed by blast

text \<open>
  The result of \<open>compressWhitespace\<close> has no white space but single spaces, and the
  transformation leaves such a value unchanged and says so.
\<close>

theorem compressWhitespace_idempotent:
  "\<exists>t changed. compressWhitespace s = Some (t, changed, None) \<and> normal_form ws_ok ws_pair_ok t \<and>
     compressWhitespace t = Some (t, False, None)"
  using compressWhitespace_normal [of s] compressWhitespace_fixed by blast

text \<open>
  A single tab between two letters is rewritten to a space, but the change is not reported.
\<close>

lemma compressWhitespace_unreported:
  "compressWhitespace [CHR ''a'', CHR 0x09, CHR ''b''] = Some (''a b'', False, None)"
  by (simp add: compressWhitespace_def doCompressWhitespace_def isLatinSpace_def)

text \<open>Deleting comment markers can make a new marker of the bytes around them.\<close>

lemma removeCommentsChar_leaves_opener:
  "removeCommentsChar ''//**'' = Some (''/*'', True, None)"
  by (simp add: removeCommentsChar_def)

end
