(* ===== verification/Trans_Codec.thy ===== *)
theory Trans_Codec
  imports Trans_Escape Trans_Text
begin

unbundle bit_operations_syntax

text \<open>
  The transformations of \<open>internal/transformations\<close> that call the standard library: the base64 and
  hexadecimal codecs, bytes and white space removed or replaced, trimming, case, length, paths,
  the rewriting of UTF-8, and the registry of all transformations by name. The hash functions and
  the entity decoder of an external package are parameters of the registry.
\<close>

subsection \<open>base64\<close>

definition base64DecMap :: "nat list" where
  "base64DecMap = [
     127, 127, 127, 127, 127, 127, 127, 127, 127, 127,
     127, 127, 127, 127, 127, 127, 127, 127, 127, 127,
     127, 127, 127, 127, 127, 127, 127, 127, 127, 127,
     127, 127, 127, 127, 127, 127, 127, 127, 127, 127,
     127, 127, 127, 62, 127, 127, 127, 63, 52, 53,
     54, 55, 56, 57, 58, 59, 60, 61, 127, 127,
     127, 64, 127, 127, 127, 0, 1, 2, 3, 4,
     5, 6, 7, 8, 9, 10, 11, 12, 13, 14,
     15, 16, 17, 18, 19, 20, 21, 22, 23, 24,
     25, 127, 127, 127, 127, 127, 127, 26, 27, 28,
     29, 30, 31, 32, 33, 34, 35, 36, 37, 38,
     39, 40, 41, 42, 43, 44, 45, 46, 47, 48,
     49, 50, 51, 127, 127, 127, 127, 127]"

text \<open>
  The loop over the input with the accumulator \<open>x\<close>, its number \<open>n\<close> of sextets and the output
  \<open>dst\<close>. The accumulator holds at most four sextets, so the shifts do not overflow Go's \<open>int\<close>.
\<close>

fun doBase64decode_loop :: "bool \<Rightarrow> string \<Rightarrow> nat \<Rightarrow> nat \<Rightarrow> string \<Rightarrow> (nat \<times> nat \<times> string) option" where
  "doBase64decode_loop ext [] n x dst = Some (n, x, dst)"
| "doBase64decode_loop ext (currChar # src) n x dst =
     (if ext \<and> (is_space_latin1 currChar \<or> currChar = CHR ''.'') then doBase64decode_loop ext src n x dst
      else if currChar = CHR 0x0D \<or> currChar = CHR 0x0A then doBase64decode_loop ext src n x dst
      else if currChar = CHR ''='' \<or> currChar = CHR '' '' \<or> ord currChar > 127 then Some (n, x, dst)
      else do {
        decodedChar \<leftarrow> at base64DecMap (ord currChar);
        if decodedChar = 127 then Some (n, x, dst)
        else
          let x = push_bit 6 x OR (decodedChar AND 0x3F); n = n + 1 in
          if n = 4 then
            doBase64decode_loop ext src 0 0
              (dst @ [char_of (drop_bit 16 x), char_of (drop_bit 8 x), char_of x])
          else doBase64decode_loop ext src n x dst
      })"

text \<open>The switch on the number of sextets that remain.\<close>

definition doBase64decode_rest :: "nat \<times> nat \<times> string \<Rightarrow> string" where
  "doBase64decode_rest = (\<lambda>(n, x, dst).
     if n = 2 then let x = push_bit 12 x in dst @ [char_of (drop_bit 16 x)]
     else if n = 3 then let x = push_bit 6 x in dst @ [char_of (drop_bit 16 x), char_of (drop_bit 8 x)]
     else dst)"

definition doBase64decode :: "string \<Rightarrow> bool \<Rightarrow> string option" where
  "doBase64decode src ext = (if length src = 0 then Some src
     else map_option doBase64decode_rest (doBase64decode_loop ext src 0 0 []))"

definition base64decode :: "string \<Rightarrow> transformed" where
  "base64decode data = do { res \<leftarrow> doBase64decode data False; Some (res, True, None) }"

definition base64decodeext :: "string \<Rightarrow> transformed" where
  "base64decodeext data = do { res \<leftarrow> doBase64decode data True; Some (res, True, None) }"

definition base64encode :: "string \<Rightarrow> transformed" where
  "base64encode data = Some (b64_encode data, True, None)"

subsection \<open>Hexadecimal\<close>

definition hexEncode :: "string \<Rightarrow> transformed" where
  "hexEncode data = Some (hex_encode_to_string data, True, None)"

definition hexDecode :: "string \<Rightarrow> transformed" where
  "hexDecode data = (case hex_decode_string data of
     Inl err \<Rightarrow> Some ([], False, Some err)
   | Inr dst \<Rightarrow> Some (dst, True, None))"

subsection \<open>Bytes, white space and case\<close>

definition removeNulls :: "string \<Rightarrow> transformed" where
  "removeNulls data = (let t = filter (\<lambda>c. c \<noteq> CHR 0x00) data in
     Some (t, length data \<noteq> length t, None))"

definition replaceNulls :: "string \<Rightarrow> transformed" where
  "replaceNulls data = (let t = map (\<lambda>c. if c = CHR 0x00 then CHR '' '' else c) data in
     Some (t, data \<noteq> t, None))"

definition removeWhitespace :: "string \<Rightarrow> transformed" where
  "removeWhitespace data =
     Some (strings_map (\<lambda>r. if is_space_rune r then None else Some r) data,
           list_ex (\<lambda>(r, w). is_space_rune r) (range_runes data), None)"

definition trimSpaces :: string where
  "trimSpaces = [CHR '' '', CHR 0x09, CHR 0x0A, CHR 0x0D, CHR 0x0C, CHR 0x0B]"

definition trim :: "string \<Rightarrow> transformed" where
  "trim data = (let t = trim_both data trimSpaces in Some (t, length data \<noteq> length t, None))"

definition trimLeft :: "string \<Rightarrow> transformed" where
  "trimLeft data = (let t = trim_left data trimSpaces in Some (t, length data \<noteq> length t, None))"

definition trimRight :: "string \<Rightarrow> transformed" where
  "trimRight data = (let t = trim_right data trimSpaces in Some (t, length data \<noteq> length t, None))"

definition lowerCase :: "string \<Rightarrow> transformed" where
  "lowerCase data = (let t = to_lower data in Some (t, data \<noteq> t, None))"

definition upperCase :: "string \<Rightarrow> transformed" where
  "upperCase data = (let t = to_upper data in Some (t, data \<noteq> t, None))"

definition length_t :: "string \<Rightarrow> transformed" where
  "length_t data = Some (itoa (int (length data)), True, None)"

definition none :: "string \<Rightarrow> transformed" where
  "none data = Some (data, False, None)"

subsection \<open>Paths\<close>

definition normalisePath :: "string \<Rightarrow> transformed" where
  "normalisePath data =
     (if length data < 1 then Some (data, False, None)
      else let clean = path_clean data in
        if clean = ''.'' then Some ([], True, None)
        else if last data = CHR ''/'' then Some (clean @ ''/'', True, None)
        else Some (clean, data \<noteq> clean, None))"

definition normalisePathWin :: "string \<Rightarrow> transformed" where
  "normalisePathWin data =
     (if length data < 1 then Some (data, False, None)
      else normalisePath (map (\<lambda>c. if c = CHR 0x5C then CHR ''/'' else c) data))"

subsection \<open>utf8toUnicode\<close>

definition numHexDigits :: "nat \<Rightarrow> nat" where
  "numHexDigits c = (if c \<le> 0xf then 1 else if c \<le> 0xff then 2 else if c \<le> 0xfff then 3 else 4)"

text \<open>\<open>strconv.AppendUint(res, c, 16)\<close>.\<close>

fun hex_nat :: "nat \<Rightarrow> string" where
  "hex_nat n = (if n < 16 then [hex_digits ! n] else hex_nat (n div 16) @ [hex_digits ! (n mod 16)])"

declare hex_nat.simps [simp del]

definition utf8_rune_out :: "nat \<Rightarrow> string" where
  "utf8_rune_out c = (if c < 0x80 then [char_of c]
     else ''%u'' @ replicate (4 - numHexDigits c) CHR ''0'' @ hex_nat c)"

definition doUTF8ToUnicode :: "string \<Rightarrow> nat \<Rightarrow> string" where
  "doUTF8ToUnicode input pos =
     take pos input @ concat (map (\<lambda>(c, w). utf8_rune_out c) (range_runes (drop pos input)))"

text \<open>The byte offset of the first rune outside ASCII.\<close>

fun first_rune :: "(nat \<Rightarrow> bool) \<Rightarrow> nat \<Rightarrow> (nat \<times> nat) list \<Rightarrow> nat option" where
  "first_rune P i [] = None"
| "first_rune P i ((c, w) # rs) = (if P c then Some i else first_rune P (i + w) rs)"

definition utf8ToUnicode :: "string \<Rightarrow> transformed" where
  "utf8ToUnicode str = (case first_rune (\<lambda>c. c \<ge> 0x80) 0 (range_runes str) of
     Some i \<Rightarrow> Some (doUTF8ToUnicode str i, True, None)
   | None \<Rightarrow> Some (str, False, None))"

subsection \<open>The registry\<close>

type_synonym transformation = "string \<Rightarrow> transformed"

type_synonym registry = "(string \<times> transformation) list"

definition Register :: "string \<Rightarrow> transformation \<Rightarrow> registry \<Rightarrow> registry" where
  "Register name t ts = AList.update (to_lower name) t ts"

definition GetTransformation :: "registry \<Rightarrow> string \<Rightarrow> go_error + transformation" where
  "GetTransformation ts name = (case map_of ts (to_lower name) of
     Some t \<Rightarrow> Inr t
   | None \<Rightarrow> Inl (''invalid transformation name '' @ name))"

definition init_transformations ::
  "transformation \<Rightarrow> transformation \<Rightarrow> transformation \<Rightarrow> registry" where
  "init_transformations htmlEntityDecode md5T sha1T = fold (\<lambda>(name, t). Register name t) [
     (''base64Decode'', base64decode),
     (''base64DecodeExt'', base64decodeext),
     (''base64Encode'', base64encode),
     (''cmdLine'', cmdLine),
     (''compressWhitespace'', compressWhitespace),
     (''cssDecode'', cssDecode),
     (''escapeSeqDecode'', escapeSeqDecode),
     (''hexDecode'', hexDecode),
     (''hexEncode'', hexEncode),
     (''htmlEntityDecode'', htmlEntityDecode),
     (''jsDecode'', jsDecode),
     (''length'', length_t),
     (''lowercase'', lowerCase),
     (''md5'', md5T),
     (''none'', none),
     (''normalisePath'', normalisePath),
     (''normalisePathWin'', normalisePathWin),
     (''normalizePath'', normalisePath),
     (''normalizePathWin'', normalisePathWin),
     (''removeComments'', removeComments),
     (''removeCommentsChar'', removeCommentsChar),
     (''removeNulls'', removeNulls),
     (''removeWhitespace'', removeWhitespace),
     (''replaceComments'', replaceComments),
     (''replaceNulls'', replaceNulls),
     (''sha1'', sha1T),
     (''uppercase'', upperCase),
     (''urlDecode'', urlDecode),
     (''urlDecodeUni'', urlDecodeUni),
     (''urlEncode'', urlEncode),
     (''utf8toUnicode'', utf8ToUnicode),
     (''trim'', trim),
     (''trimLeft'', trimLeft),
     (''trimRight'', trimRight)] []"


subsection \<open>base64 round trip\<close>

lemma b64_alphabet_values: "map (\<lambda>c. base64DecMap ! ord c) b64_alphabet = [0..<64]"
  by (simp add: base64DecMap_def b64_alphabet_def) code_simp

lemma b64_alphabet_chars:
  "list_all (\<lambda>c. ord c \<le> 127 \<and> \<not> is_space_latin1 c \<and>
     c \<notin> {CHR ''.'', CHR 0x0D, CHR 0x0A, CHR ''='', CHR '' ''}) b64_alphabet"
  by (simp add: b64_alphabet_def is_space_latin1_def)

lemma b64_char_props:
  assumes "v < 64"
  shows "at base64DecMap (ord (b64_char v)) = Some v" "ord (b64_char v) \<le> 127"
    "\<not> is_space_latin1 (b64_char v)" "b64_char v \<notin> {CHR ''.'', CHR 0x0D, CHR 0x0A, CHR ''='', CHR '' ''}"
proof -
  have len: "v < length b64_alphabet" "length base64DecMap = 128"
    using assms by (simp_all add: b64_alphabet_def base64DecMap_def)
  then have c: "b64_char v \<in> set b64_alphabet"
    by (simp add: b64_char_def)
  then show le: "ord (b64_char v) \<le> 127" and "\<not> is_space_latin1 (b64_char v)"
    "b64_char v \<notin> {CHR ''.'', CHR 0x0D, CHR 0x0A, CHR ''='', CHR '' ''}"
    using b64_alphabet_chars by (auto simp only: list_all_iff)
  have "base64DecMap ! ord (b64_char v) = [0..<64] ! v"
    using len by (simp only: b64_alphabet_values [symmetric] b64_char_def nth_map)
  with assms le len show "at base64DecMap (ord (b64_char v)) = Some v"
    by simp
qed

lemma sextet_or:
  assumes "v < 64"
  shows "push_bit 6 x OR (v AND 0x3F) = x * 64 + (v :: nat)"
proof -
  have v: "v AND 0x3F = v" "take_bit 6 v = v"
    using assms by (simp_all add: take_bit_eq_mod flip: take_bit_eq_mask [of 6 v, unfolded mask_eq_exp_minus_1, simplified])
  have "push_bit 6 x OR v = push_bit 6 x + v"
    by (intro disjunctive_add [symmetric]) (metis v(2) bit_push_bit_iff bit_take_bit_iff not_le)
  then show ?thesis
    by (simp add: v push_bit_eq_mult)
qed

lemma b64_loop_sextet:
  assumes "v < 64"
  shows "doBase64decode_loop ext (b64_char v # src) n x dst =
    (if n = 3 then doBase64decode_loop ext src 0 0 (dst @ [char_of ((x * 64 + v) div 65536),
       char_of ((x * 64 + v) div 256), char_of (x * 64 + v)])
     else doBase64decode_loop ext src (n + 1) (x * 64 + v) dst)"
  using b64_char_props [OF assms] assms by (auto simp: Let_def sextet_or drop_bit_eq_div)

lemma b64_loop_step:
  assumes "v < 64"
  shows "doBase64decode_loop ext (b64_char v # src) 0 0 dst = doBase64decode_loop ext src 1 v dst"
    "doBase64decode_loop ext (b64_char v # src) 1 x dst = doBase64decode_loop ext src 2 (x * 64 + v) dst"
    "doBase64decode_loop ext (b64_char v # src) 2 x dst = doBase64decode_loop ext src 3 (x * 64 + v) dst"
    "doBase64decode_loop ext (b64_char v # src) 3 x dst = doBase64decode_loop ext src 0 0
      (dst @ [char_of ((x * 64 + v) div 65536), char_of ((x * 64 + v) div 256), char_of (x * 64 + v)])"
  by (simp_all add: b64_loop_sextet [OF assms] numeral_2_eq_2 numeral_3_eq_3 del: doBase64decode_loop.simps)

lemma b64_join:
  fixes a b c :: nat
  defines "x \<equiv> ((a div 4 * 64 + (a mod 4 * 16 + b div 16)) * 64 + (b mod 16 * 4 + c div 64)) * 64 + c mod 64"
  assumes "a < 256" "b < 256" "c < 256"
  shows "x div 65536 = a" "x div 256 mod 256 = b" "x mod 256 = c"
proof -
  have x: "x = a * 65536 + b * 256 + c"
  proof -
    have "((a1 * 64 + (a0 * 16 + b1)) * 64 + (b0 * 4 + c1)) * 64 + c0 =
        (a1 * 4 + a0) * 65536 + (b1 * 16 + b0) * 256 + (c1 * 64 + c0)" for a1 a0 b1 b0 c1 c0 :: nat
      by simp
    from this [of "a div 4" "a mod 4" "b div 16" "b mod 16" "c div 64" "c mod 64"]
    show ?thesis
      unfolding x_def div_mult_mod_eq .
  qed
  have "x div 256 = a * 256 + b"
    using assms(2-) by (simp add: x)
  with assms(2-) show "x div 256 mod 256 = b"
    by simp
  have "x = (a * 256 + b) * 256 + c"
    by (simp add: x)
  then show "x mod 256 = c"
    using assms(2-) by (simp only: mod_mult_self3 mod_less)
  have "b * 256 + c < 65536"
    using assms(2-) by linarith
  then show "x div 65536 = a"
    by (simp add: x)
qed

lemma char_of_mod: "char_of (n :: nat) = c \<longleftrightarrow> n mod 256 = ord c"
  by (metis char_of_char char_of_mod_256 of_char_of)


lemma b64_loop_pad:
  "doBase64decode_loop ext (CHR ''='' # src) n x dst = Some (n, x, dst)"
  by (simp add: is_space_latin1_def)

lemma b64_sextets:
  "ord a div 4 < 64" "ord a mod 4 * 16 + ord b div 16 < 64" "ord b mod 16 * 4 + ord c div 64 < 64"
  "ord c mod 64 < 64" "ord a mod 4 * 16 < 64" "ord b mod 16 * 4 < 64"
  using ord_less_256 [of a] ord_less_256 [of b] ord_less_256 [of c] by linarith+

lemmas b64_simps = b64_encode.simps b64_loop_step b64_loop_pad b64_sextets

lemma b64_chars:
  fixes a b c :: char
  defines "x \<equiv> ((ord a div 4 * 64 + (ord a mod 4 * 16 + ord b div 16)) * 64 +
    (ord b mod 16 * 4 + ord c div 64)) * 64 + ord c mod 64"
  shows "char_of (x div 65536) = a" "char_of (x div 256) = b" "char_of x = c"
  using b64_join [OF ord_less_256 ord_less_256 ord_less_256, of a b c] ord_less_256 [of a]
  by (simp_all add: x_def char_of_mod)

lemma b64_zero: "ord CHR 0x00 = 0" "0 div n = (0 :: nat)" "0 mod n = (0 :: nat)" "n + 0 = (n :: nat)" "0 * n = (0 :: nat)"
  by simp_all

lemma b64_shift:
  "push_bit 6 x = x * (64 :: nat)" "push_bit 12 x = x * (64 :: nat) * 64"
  "drop_bit 16 x = x div (65536 :: nat)" "drop_bit 8 x = x div (256 :: nat)"
  by (simp_all add: push_bit_eq_mult drop_bit_eq_div)

lemma doBase64decode_loop_encode:
  "map_option doBase64decode_rest (doBase64decode_loop ext (b64_encode s) 0 0 dst) = Some (dst @ s)"
proof (induction s arbitrary: dst rule: b64_encode.induct)
  case (1 a b c s)
  then show ?case
    by (simp only: b64_simps b64_chars append_assoc append.simps)
next
  case (2 a b)
  show ?case
    using b64_chars(1,2) [of a b "CHR 0x00", unfolded b64_zero]
    by (simp only: b64_simps option.map doBase64decode_rest_def b64_shift Let_def split_conv)
      simp
next
  case (3 a)
  show ?case
    using b64_chars(1) [of a "CHR 0x00" "CHR 0x00", unfolded b64_zero]
    by (simp only: b64_simps option.map doBase64decode_rest_def b64_shift Let_def split_conv) simp
qed (simp add: doBase64decode_rest_def)


lemma doBase64decode_encode: "doBase64decode (b64_encode s) ext = Some s"
proof (cases "s = []")
  case False
  then have "b64_encode s \<noteq> []"
    by (cases s rule: b64_encode.cases) auto
  then show ?thesis
    using doBase64decode_loop_encode [of ext s "[]"] by (simp add: doBase64decode_def)
qed (simp add: doBase64decode_def)

lemma doBase64decode_loop_total: "\<exists>r. doBase64decode_loop ext src n x dst = Some r"
proof (induction src arbitrary: n x dst)
  case (Cons c src)
  have "ord c > 127 \<or> at base64DecMap (ord c) = Some (base64DecMap ! ord c)"
    by (simp add: base64DecMap_def at_def)
  with Cons.IH show ?case
    by (auto simp: Let_def)
qed simp

subsection \<open>The registry\<close>

lemma snd_fold_Register:
  "snd ` set (fold (\<lambda>(name, t). Register name t) ts acc) \<subseteq> snd ` set ts \<union> snd ` set acc"
proof (induction ts arbitrary: acc)
  case (Cons p ts)
  obtain name t where "p = (name, t)" by (cases p)
  moreover have "snd ` set (Register name t acc) \<subseteq> insert t (snd ` set acc)"
    using set_update_subset [of "to_lower name" t acc] unfolding Register_def by force
  ultimately show ?case
    using Cons.IH [of "Register name t acc"]
    by (simp only: fold_simps list.set image_insert split_conv snd_conv comp_apply) blast
qed simp

lemma fold_Register_all:
  "\<forall>t\<in>snd ` set ts. P t \<Longrightarrow> \<forall>t\<in>snd ` set (fold (\<lambda>(name, t). Register name t) ts []). P t"
  using snd_fold_Register [of ts "[]"] by (simp only: list.set image_empty Un_empty_right) blast

lemma lookup_Register:
  "GetTransformation (Register name t ts) other =
     (if to_lower other = to_lower name then Inr t else GetTransformation ts other)"
  by (simp add: GetTransformation_def Register_def update_conv')

lemma jsDecode_total: "jsDecode s \<noteq> None"
proof (cases "first_index (\<lambda>b. b = CHR 0x5C) s")
  case None
  then show ?thesis by (simp add: jsDecode_def index_byte_first_index)
next
  case (Some i)
  then show ?thesis
    by (simp add: jsDecode_def doJsDecode_def index_byte_first_index js_scan.run_from_first
        split: prod.splits)
qed

lemma escapeSeqDecode_total: "escapeSeqDecode s \<noteq> None"
proof (cases "first_index (\<lambda>b. b = CHR 0x5C) s")
  case None
  then show ?thesis by (simp add: escapeSeqDecode_def index_byte_first_index)
next
  case (Some i)
  then show ?thesis
    by (simp add: escapeSeqDecode_def doEscapeSeqDecode_def index_byte_first_index
        escape_scan.run_from_first split: prod.splits)
qed

lemma cssDecode_total: "cssDecode s \<noteq> None"
proof (cases "first_index (\<lambda>b. b = CHR 0x5C) s")
  case None
  then show ?thesis by (simp add: cssDecode_def index_byte_first_index)
next
  case (Some i)
  then show ?thesis
    by (simp add: cssDecode_def cssDecodeInplace_def index_byte_first_index css_scan.run_from_first)
qed

lemma base64_total: "base64decode s \<noteq> None" "base64decodeext s \<noteq> None"
  using doBase64decode_loop_total [of False s 0 0 "[]"] doBase64decode_loop_total [of True s 0 0 "[]"]
  by (auto simp: base64decode_def base64decodeext_def doBase64decode_def)

lemma library_total:
  "base64encode s \<noteq> None" "hexEncode s \<noteq> None" "hexDecode s \<noteq> None" "length_t s \<noteq> None"
  "lowerCase s \<noteq> None" "upperCase s \<noteq> None" "none s \<noteq> None" "normalisePath s \<noteq> None"
  "normalisePathWin s \<noteq> None" "removeNulls s \<noteq> None" "replaceNulls s \<noteq> None"
  "removeWhitespace s \<noteq> None" "trim s \<noteq> None" "trimLeft s \<noteq> None" "trimRight s \<noteq> None"
  "utf8ToUnicode s \<noteq> None" "urlEncode s \<noteq> None" "removeCommentsChar s \<noteq> None"
  by (auto simp: base64encode_def hexEncode_def hexDecode_def length_t_def lowerCase_def
      upperCase_def none_def normalisePath_def normalisePathWin_def removeNulls_def
      replaceNulls_def removeWhitespace_def trim_def trimLeft_def trimRight_def utf8ToUnicode_def
      urlEncode_def removeCommentsChar_def Let_def split: sum.splits option.splits prod.splits)

lemma text_total: "cmdLine s \<noteq> None" "compressWhitespace s \<noteq> None" "removeComments s \<noteq> None"
  "replaceComments s \<noteq> None" "urlDecode s \<noteq> None" "urlDecodeUni s \<noteq> None"
  using cmdLine_normal [of s] compressWhitespace_normal [of s] removeComments_total [of s]
  by (auto simp: replaceComments_eq urlDecode_eq urlDecodeUni_eq)

lemmas transformations_total =
  jsDecode_total escapeSeqDecode_total cssDecode_total base64_total library_total text_total

subsection \<open>Properties\<close>

text \<open>
  (C28) Neither \<open>base64Decode\<close> nor \<open>base64DecodeExt\<close> loses anything that \<open>base64Encode\<close> wrote: both
  decode the standard encoding of every byte string, padded or not, to that string.
\<close>

theorem base64_roundtrip:
  "\<exists>e. base64encode s = Some (e, True, None) \<and> base64decode e = Some (s, True, None) \<and>
     base64decodeext e = Some (s, True, None)"
  by (simp add: base64encode_def base64decode_def base64decodeext_def doBase64decode_encode)

text \<open>\<open>hexDecode\<close> is a left inverse of \<open>hexEncode\<close> on every byte string.\<close>

theorem hex_roundtrip:
  "\<exists>e. hexEncode s = Some (e, True, None) \<and> hexDecode e = Some (s, True, None)"
  by (simp add: hexEncode_def hexDecode_def hex_decode_encode)

text \<open>
  (C27) No built-in transformation panics or runs forever, on any input: every function that the
  registry holds returns a result, provided the three that call external packages do.
\<close>

theorem registry_total:
  assumes "\<And>s. htmlEntityDecode s \<noteq> None" "\<And>s. md5T s \<noteq> None" "\<And>s. sha1T s \<noteq> None"
    and "GetTransformation (init_transformations htmlEntityDecode md5T sha1T) name = Inr t"
  shows "t s \<noteq> None"
proof -
  have "t \<in> snd ` set (init_transformations htmlEntityDecode md5T sha1T)"
    using assms(4) by (force simp: GetTransformation_def dest: map_of_SomeD split: option.splits)
  moreover have "\<forall>t\<in>snd ` set (init_transformations htmlEntityDecode md5T sha1T). \<forall>s. t s \<noteq> None"
    unfolding init_transformations_def
    by (rule fold_Register_all) (simp add: transformations_total assms(1-3) del: not_None_eq)
  ultimately show ?thesis by blast
qed

theorem registry_total_witness:
  "GetTransformation (init_transformations none none none) ''TRIMRight'' = Inr trimRight \<and>
   trimRight ''a '' \<noteq> None"
proof -
  have "to_lower ''TRIMRight'' = to_lower ''trimRight''"
    by code_simp
  then have l: "GetTransformation (init_transformations none none none) ''TRIMRight'' = Inr trimRight"
    by (simp add: init_transformations_def lookup_Register)
  with registry_total [OF library_total(7) library_total(7) library_total(7) l] show ?thesis
    by simp
qed

text \<open>
  Registered names are case-insensitive: a lookup finds what was registered last under a name
  with the same lower-case form, and a registration leaves every other name as it was.
\<close>

theorem GetTransformation_Register:
  "GetTransformation (Register name t ts) other =
     (if to_lower other = to_lower name then Inr t else GetTransformation ts other)"
  by (rule lookup_Register)

text \<open>The root path is not kept: \<open>normalisePath\<close> doubles its slash.\<close>

lemma normalisePath_root: "normalisePath ''/'' = Some (''//'', True, None)"
  by (simp add: normalisePath_def path_clean_def)

end
