(* ===== verification/Waf_Types.thy ===== *)
theory Waf_Types
  imports Go_Lib Byte_Util
begin

text \<open>
  The value types of package \<open>types\<close> and of \<open>internal/corazatypes\<close>: phases, severities, the status
  of the two engines, audit log parts, interruptions. Each parser is shown to accept exactly the
  values its type documents. Go's \<open>RulePhase\<close> and \<open>RuleSeverity\<close> are integers and stay integers.
\<close>

subsection \<open>types/phase.go\<close>

type_synonym RulePhase = int

abbreviation (input) PhaseUnknown :: RulePhase where "PhaseUnknown \<equiv> 0"
abbreviation (input) PhaseRequestHeaders :: RulePhase where "PhaseRequestHeaders \<equiv> 1"
abbreviation (input) PhaseRequestBody :: RulePhase where "PhaseRequestBody \<equiv> 2"
abbreviation (input) PhaseResponseHeaders :: RulePhase where "PhaseResponseHeaders \<equiv> 3"
abbreviation (input) PhaseResponseBody :: RulePhase where "PhaseResponseBody \<equiv> 4"
abbreviation (input) PhaseLogging :: RulePhase where "PhaseLogging \<equiv> 5"

definition ParseRulePhase :: "string \<Rightarrow> go_error + RulePhase" where
  "ParseRulePhase phase =
     (let i = (if phase = ''request'' then 2
               else if phase = ''response'' then 4
               else if phase = ''logging'' then 5
               else fst (atoi phase)) in
      if i > 5 \<or> i < 1 then Inl (''invalid phase '' @ phase) else Inr i)"

subsection \<open>types/severity.go\<close>

type_synonym RuleSeverity = int

definition severity_names :: "string list" where
  "severity_names = [''emergency'', ''alert'', ''critical'', ''error'', ''warning'', ''notice'', ''info'', ''debug'']"

definition severity_String :: "RuleSeverity \<Rightarrow> string" where
  "severity_String rs = (if 0 \<le> rs \<and> rs \<le> 7 then severity_names ! nat rs else ''unknown'')"

text \<open>The parser returns a value also with an error; callers that ignore the error read it.\<close>

definition ParseRuleSeverity :: "string \<Rightarrow> RuleSeverity \<times> go_error option" where
  "ParseRuleSeverity input =
     (if length input = 1 then
        (case atoi input of
           (s, Some err) \<Rightarrow> (0, Some ''invalid syntax'')
         | (s, None) \<Rightarrow> if s < 0 \<or> s > 7 then (0, Some (''invalid severity: '' @ itoa s)) else (s, None))
      else let l = to_lower input in
        if l = ''emergency'' then (0, None)
        else if l = ''alert'' then (1, None)
        else if l = ''critical'' then (2, None)
        else if l = ''error'' then (3, None)
        else if l = ''warning'' then (4, None)
        else if l = ''notice'' then (5, None)
        else if l = ''info'' then (6, None)
        else if l = ''debug'' then (7, None)
        else (0, Some (''unknown severity: '' @ input)))"

subsection \<open>types/waf.go\<close>

datatype AuditEngineStatus = AuditEngineOn | AuditEngineOff | AuditEngineRelevantOnly

definition ParseAuditEngineStatus :: "string \<Rightarrow> go_error + AuditEngineStatus" where
  "ParseAuditEngineStatus as =
     (let l = to_lower as in
      if l = ''on'' then Inr AuditEngineOn
      else if l = ''off'' then Inr AuditEngineOff
      else if l = ''relevantonly'' then Inr AuditEngineRelevantOnly
      else Inl (''invalid audit engine status: '' @ as))"

datatype RuleEngineStatus = RuleEngineOn | RuleEngineDetectionOnly | RuleEngineOff

definition ParseRuleEngineStatus :: "string \<Rightarrow> go_error + RuleEngineStatus" where
  "ParseRuleEngineStatus re =
     (let l = to_lower re in
      if l = ''on'' then Inr RuleEngineOn
      else if l = ''detectiononly'' then Inr RuleEngineDetectionOnly
      else if l = ''off'' then Inr RuleEngineOff
      else Inl (''invalid rule engine status: '' @ re))"

fun engine_String :: "RuleEngineStatus \<Rightarrow> string" where
  "engine_String RuleEngineOn = ''On''"
| "engine_String RuleEngineDetectionOnly = ''DetectionOnly''"
| "engine_String RuleEngineOff = ''Off''"

datatype BodyLimitAction = BodyLimitActionProcessPartial | BodyLimitActionReject

type_synonym AuditLogParts = string

definition validOpts :: string where
  "validOpts = ''BCDEFGHIJK''"

text \<open>
  The slice \<open>opts[1 : len(opts)-1]\<close> is in range because no one-byte string both starts with \<open>A\<close>
  and ends with \<open>Z\<close>; the model keeps the check. The loop ranges over runes, so that a byte above
  127 starts a rune whose low byte \<open>AuditLogPart(p)\<close> keeps; the model covers ASCII options.
\<close>

definition ParseAuditLogParts :: "string \<Rightarrow> (go_error + AuditLogParts) option" where
  "ParseAuditLogParts opts =
     (if \<not> has_prefix opts ''A'' then Some (Inl ''audit log parts is required to start with A'')
      else if \<not> has_suffix opts ''Z'' then Some (Inl ''audit log parts is required to end with Z'')
      else do {
        parts \<leftarrow> slice opts 1 (length opts - 1);
        Some (if list_all (\<lambda>p. p \<in> set validOpts) parts then Inr parts
              else Inl (''invalid audit log parts '' @ opts))})"

record Interruption =
  int_RuleID :: int
  int_Action :: string
  int_Status :: int
  int_Data :: string

subsection \<open>internal/corazatypes/allow.go\<close>

datatype AllowType = AllowTypeUnset | AllowTypeAll | AllowTypePhase | AllowTypeRequest

subsection \<open>The parsers accept what their types document\<close>

lemma atoi_one_digit: "n < 10 \<Longrightarrow> atoi [digit_char n] = (int n, None)"
  using atoi_itoa [of "int n"] dec_digits.simps [of n]
  by (simp add: itoa_def min_int64_def max_int64_def)

lemma severity_cases:
  assumes "0 \<le> s" "s \<le> (7 :: int)"
  shows "s = 0 \<or> s = 1 \<or> s = 2 \<or> s = 3 \<or> s = 4 \<or> s = 5 \<or> s = 6 \<or> s = 7"
  using assms by linarith

lemma severity_name_parses:
  assumes "0 \<le> s" "s \<le> 7"
  shows "ParseRuleSeverity (severity_String s) = (s, None)"
  using severity_cases [OF assms]
  by (elim disjE) (simp_all add: severity_String_def severity_names_def ParseRuleSeverity_def
      to_lower_def lower_char_def less_eq_char_def)

lemma severity_digit_parses:
  assumes "0 \<le> s" "s \<le> 7"
  shows "ParseRuleSeverity (itoa s) = (s, None)"
proof -
  from assms have "nat s < 10" by simp
  with assms have "itoa s = [digit_char (nat s)]"
    by (simp add: itoa_def dec_digits.simps [of "nat s"])
  with assms atoi_one_digit [OF \<open>nat s < 10\<close>] show ?thesis
    by (simp add: ParseRuleSeverity_def)
qed

lemma ParseRuleSeverity_range: "0 \<le> fst (ParseRuleSeverity s) \<and> fst (ParseRuleSeverity s) \<le> 7"
  by (simp add: ParseRuleSeverity_def Let_def split: prod.splits option.splits)

lemma ParseRulePhase_range: "ParseRulePhase p = Inr i \<Longrightarrow> 1 \<le> i \<and> i \<le> 5"
  by (auto simp: ParseRulePhase_def Let_def split: if_splits)

lemma ParseAuditLogParts_total: "ParseAuditLogParts s \<noteq> None"
proof (cases "has_prefix s ''A'' \<and> has_suffix s ''Z''")
  case True
  then obtain t u where t: "s = ''A'' @ t" and u: "s = u @ ''Z''"
    unfolding prefix_def suffix_def by blast
  from u have "last s = CHR ''Z''" by simp
  with t have "t \<noteq> []" by auto
  with t have "2 \<le> length s" by (cases t) auto
  then have "slice s 1 (length s - 1) = Some (take (length s - 2) (drop 1 s))"
    by (simp add: slice_def numeral_2_eq_2)
  with True show ?thesis
    by (simp add: ParseAuditLogParts_def)
qed (auto simp: ParseAuditLogParts_def)

end
