(* ===== verification/Variables.thy ===== *)
theory Variables
  imports Byte_Util
begin

text \<open>
  The rule variables of \<open>internal/variables\<close>. The source's type is a byte whose constants are
  numbered in order; the model's is the number, with one abbreviation per constant, and the names
  are a table in the same order.
\<close>

type_synonym RuleVariable = nat

abbreviation (input) VUnknown :: RuleVariable where "VUnknown \<equiv> 0"
abbreviation (input) VResponseContentType :: RuleVariable where "VResponseContentType \<equiv> 1"
abbreviation (input) VUniqueID :: RuleVariable where "VUniqueID \<equiv> 2"
abbreviation (input) VArgsCombinedSize :: RuleVariable where "VArgsCombinedSize \<equiv> 3"
abbreviation (input) VFilesCombinedSize :: RuleVariable where "VFilesCombinedSize \<equiv> 4"
abbreviation (input) VFullRequestLength :: RuleVariable where "VFullRequestLength \<equiv> 5"
abbreviation (input) VInboundDataError :: RuleVariable where "VInboundDataError \<equiv> 6"
abbreviation (input) VMatchedVar :: RuleVariable where "VMatchedVar \<equiv> 7"
abbreviation (input) VMatchedVarName :: RuleVariable where "VMatchedVarName \<equiv> 8"
abbreviation (input) VMultipartDataAfter :: RuleVariable where "VMultipartDataAfter \<equiv> 9"
abbreviation (input) VOutboundDataError :: RuleVariable where "VOutboundDataError \<equiv> 10"
abbreviation (input) VQueryString :: RuleVariable where "VQueryString \<equiv> 11"
abbreviation (input) VRemoteAddr :: RuleVariable where "VRemoteAddr \<equiv> 12"
abbreviation (input) VRemoteHost :: RuleVariable where "VRemoteHost \<equiv> 13"
abbreviation (input) VRemotePort :: RuleVariable where "VRemotePort \<equiv> 14"
abbreviation (input) VReqbodyError :: RuleVariable where "VReqbodyError \<equiv> 15"
abbreviation (input) VReqbodyErrorMsg :: RuleVariable where "VReqbodyErrorMsg \<equiv> 16"
abbreviation (input) VReqbodyProcessorError :: RuleVariable where "VReqbodyProcessorError \<equiv> 17"
abbreviation (input) VReqbodyProcessorErrorMsg :: RuleVariable where "VReqbodyProcessorErrorMsg \<equiv> 18"
abbreviation (input) VReqbodyProcessor :: RuleVariable where "VReqbodyProcessor \<equiv> 19"
abbreviation (input) VRequestBasename :: RuleVariable where "VRequestBasename \<equiv> 20"
abbreviation (input) VRequestBody :: RuleVariable where "VRequestBody \<equiv> 21"
abbreviation (input) VRequestBodyLength :: RuleVariable where "VRequestBodyLength \<equiv> 22"
abbreviation (input) VRequestFilename :: RuleVariable where "VRequestFilename \<equiv> 23"
abbreviation (input) VRequestLine :: RuleVariable where "VRequestLine \<equiv> 24"
abbreviation (input) VRequestMethod :: RuleVariable where "VRequestMethod \<equiv> 25"
abbreviation (input) VRequestProtocol :: RuleVariable where "VRequestProtocol \<equiv> 26"
abbreviation (input) VRequestURI :: RuleVariable where "VRequestURI \<equiv> 27"
abbreviation (input) VRequestURIRaw :: RuleVariable where "VRequestURIRaw \<equiv> 28"
abbreviation (input) VResponseBody :: RuleVariable where "VResponseBody \<equiv> 29"
abbreviation (input) VResponseContentLength :: RuleVariable where "VResponseContentLength \<equiv> 30"
abbreviation (input) VResponseProtocol :: RuleVariable where "VResponseProtocol \<equiv> 31"
abbreviation (input) VResponseStatus :: RuleVariable where "VResponseStatus \<equiv> 32"
abbreviation (input) VServerAddr :: RuleVariable where "VServerAddr \<equiv> 33"
abbreviation (input) VServerName :: RuleVariable where "VServerName \<equiv> 34"
abbreviation (input) VServerPort :: RuleVariable where "VServerPort \<equiv> 35"
abbreviation (input) VHighestSeverity :: RuleVariable where "VHighestSeverity \<equiv> 36"
abbreviation (input) VStatusLine :: RuleVariable where "VStatusLine \<equiv> 37"
abbreviation (input) VDuration :: RuleVariable where "VDuration \<equiv> 38"
abbreviation (input) VResponseHeadersNames :: RuleVariable where "VResponseHeadersNames \<equiv> 39"
abbreviation (input) VRequestHeadersNames :: RuleVariable where "VRequestHeadersNames \<equiv> 40"
abbreviation (input) VArgs :: RuleVariable where "VArgs \<equiv> 41"
abbreviation (input) VArgsGet :: RuleVariable where "VArgsGet \<equiv> 42"
abbreviation (input) VArgsPost :: RuleVariable where "VArgsPost \<equiv> 43"
abbreviation (input) VArgsPath :: RuleVariable where "VArgsPath \<equiv> 44"
abbreviation (input) VFilesSizes :: RuleVariable where "VFilesSizes \<equiv> 45"
abbreviation (input) VFilesNames :: RuleVariable where "VFilesNames \<equiv> 46"
abbreviation (input) VFilesTmpContent :: RuleVariable where "VFilesTmpContent \<equiv> 47"
abbreviation (input) VMultipartFilename :: RuleVariable where "VMultipartFilename \<equiv> 48"
abbreviation (input) VMultipartName :: RuleVariable where "VMultipartName \<equiv> 49"
abbreviation (input) VMatchedVarsNames :: RuleVariable where "VMatchedVarsNames \<equiv> 50"
abbreviation (input) VMatchedVars :: RuleVariable where "VMatchedVars \<equiv> 51"
abbreviation (input) VFiles :: RuleVariable where "VFiles \<equiv> 52"
abbreviation (input) VRequestCookies :: RuleVariable where "VRequestCookies \<equiv> 53"
abbreviation (input) VRequestHeaders :: RuleVariable where "VRequestHeaders \<equiv> 54"
abbreviation (input) VResponseHeaders :: RuleVariable where "VResponseHeaders \<equiv> 55"
abbreviation (input) VResBodyProcessor :: RuleVariable where "VResBodyProcessor \<equiv> 56"
abbreviation (input) VGeo :: RuleVariable where "VGeo \<equiv> 57"
abbreviation (input) VRequestCookiesNames :: RuleVariable where "VRequestCookiesNames \<equiv> 58"
abbreviation (input) VFilesTmpNames :: RuleVariable where "VFilesTmpNames \<equiv> 59"
abbreviation (input) VArgsNames :: RuleVariable where "VArgsNames \<equiv> 60"
abbreviation (input) VArgsGetNames :: RuleVariable where "VArgsGetNames \<equiv> 61"
abbreviation (input) VArgsPostNames :: RuleVariable where "VArgsPostNames \<equiv> 62"
abbreviation (input) VTX :: RuleVariable where "VTX \<equiv> 63"
abbreviation (input) VRule :: RuleVariable where "VRule \<equiv> 64"
abbreviation (input) VJSON :: RuleVariable where "VJSON \<equiv> 65"
abbreviation (input) VEnv :: RuleVariable where "VEnv \<equiv> 66"
abbreviation (input) VUrlencodedError :: RuleVariable where "VUrlencodedError \<equiv> 67"
abbreviation (input) VResponseArgs :: RuleVariable where "VResponseArgs \<equiv> 68"
abbreviation (input) VResponseXML :: RuleVariable where "VResponseXML \<equiv> 69"
abbreviation (input) VRequestXML :: RuleVariable where "VRequestXML \<equiv> 70"
abbreviation (input) VXML :: RuleVariable where "VXML \<equiv> 71"
abbreviation (input) VMultipartPartHeaders :: RuleVariable where "VMultipartPartHeaders \<equiv> 72"
abbreviation (input) VAuthType :: RuleVariable where "VAuthType \<equiv> 73"
abbreviation (input) VFullRequest :: RuleVariable where "VFullRequest \<equiv> 74"
abbreviation (input) VMultipartBoundaryQuoted :: RuleVariable where "VMultipartBoundaryQuoted \<equiv> 75"
abbreviation (input) VMultipartBoundaryWhitespace :: RuleVariable where "VMultipartBoundaryWhitespace \<equiv> 76"
abbreviation (input) VMultipartCrlfLfLines :: RuleVariable where "VMultipartCrlfLfLines \<equiv> 77"
abbreviation (input) VMultipartDataBefore :: RuleVariable where "VMultipartDataBefore \<equiv> 78"
abbreviation (input) VMultipartFileLimitExceeded :: RuleVariable where "VMultipartFileLimitExceeded \<equiv> 79"
abbreviation (input) VMultipartHeaderFolding :: RuleVariable where "VMultipartHeaderFolding \<equiv> 80"
abbreviation (input) VMultipartInvalidHeaderFolding :: RuleVariable where "VMultipartInvalidHeaderFolding \<equiv> 81"
abbreviation (input) VMultipartInvalidPart :: RuleVariable where "VMultipartInvalidPart \<equiv> 82"
abbreviation (input) VMultipartInvalidQuoting :: RuleVariable where "VMultipartInvalidQuoting \<equiv> 83"
abbreviation (input) VMultipartLfLine :: RuleVariable where "VMultipartLfLine \<equiv> 84"
abbreviation (input) VMultipartMissingSemicolon :: RuleVariable where "VMultipartMissingSemicolon \<equiv> 85"
abbreviation (input) VMultipartStrictError :: RuleVariable where "VMultipartStrictError \<equiv> 86"
abbreviation (input) VMultipartUnmatchedBoundary :: RuleVariable where "VMultipartUnmatchedBoundary \<equiv> 87"
abbreviation (input) VPathInfo :: RuleVariable where "VPathInfo \<equiv> 88"
abbreviation (input) VSessionid :: RuleVariable where "VSessionid \<equiv> 89"
abbreviation (input) VUserid :: RuleVariable where "VUserid \<equiv> 90"
abbreviation (input) VIP :: RuleVariable where "VIP \<equiv> 91"
abbreviation (input) VResBodyError :: RuleVariable where "VResBodyError \<equiv> 92"
abbreviation (input) VResBodyErrorMsg :: RuleVariable where "VResBodyErrorMsg \<equiv> 93"
abbreviation (input) VResBodyProcessorError :: RuleVariable where "VResBodyProcessorError \<equiv> 94"
abbreviation (input) VResBodyProcessorErrorMsg :: RuleVariable where "VResBodyProcessorErrorMsg \<equiv> 95"
abbreviation (input) VTime :: RuleVariable where "VTime \<equiv> 96"
abbreviation (input) VTimeDay :: RuleVariable where "VTimeDay \<equiv> 97"
abbreviation (input) VTimeEpoch :: RuleVariable where "VTimeEpoch \<equiv> 98"
abbreviation (input) VTimeHour :: RuleVariable where "VTimeHour \<equiv> 99"
abbreviation (input) VTimeMin :: RuleVariable where "VTimeMin \<equiv> 100"
abbreviation (input) VTimeMon :: RuleVariable where "VTimeMon \<equiv> 101"
abbreviation (input) VTimeSec :: RuleVariable where "VTimeSec \<equiv> 102"
abbreviation (input) VTimeWday :: RuleVariable where "VTimeWday \<equiv> 103"
abbreviation (input) VTimeYear :: RuleVariable where "VTimeYear \<equiv> 104"

definition variable_names :: "string list" where
  "variable_names = [
     ''UNKNOWN'', ''RESPONSE_CONTENT_TYPE'', ''UNIQUE_ID'', ''ARGS_COMBINED_SIZE'',
     ''FILES_COMBINED_SIZE'', ''FULL_REQUEST_LENGTH'', ''INBOUND_DATA_ERROR'', ''MATCHED_VAR'',
     ''MATCHED_VAR_NAME'', ''MULTIPART_DATA_AFTER'', ''OUTBOUND_DATA_ERROR'', ''QUERY_STRING'',
     ''REMOTE_ADDR'', ''REMOTE_HOST'', ''REMOTE_PORT'', ''REQBODY_ERROR'',
     ''REQBODY_ERROR_MSG'', ''REQBODY_PROCESSOR_ERROR'', ''REQBODY_PROCESSOR_ERROR_MSG'',
     ''REQBODY_PROCESSOR'', ''REQUEST_BASENAME'', ''REQUEST_BODY'', ''REQUEST_BODY_LENGTH'',
     ''REQUEST_FILENAME'', ''REQUEST_LINE'', ''REQUEST_METHOD'', ''REQUEST_PROTOCOL'',
     ''REQUEST_URI'', ''REQUEST_URI_RAW'', ''RESPONSE_BODY'', ''RESPONSE_CONTENT_LENGTH'',
     ''RESPONSE_PROTOCOL'', ''RESPONSE_STATUS'', ''SERVER_ADDR'', ''SERVER_NAME'',
     ''SERVER_PORT'', ''HIGHEST_SEVERITY'', ''STATUS_LINE'', ''DURATION'',
     ''RESPONSE_HEADERS_NAMES'', ''REQUEST_HEADERS_NAMES'', ''ARGS'', ''ARGS_GET'',
     ''ARGS_POST'', ''ARGS_PATH'', ''FILES_SIZES'', ''FILES_NAMES'', ''FILES_TMP_CONTENT'',
     ''MULTIPART_FILENAME'', ''MULTIPART_NAME'', ''MATCHED_VARS_NAMES'', ''MATCHED_VARS'',
     ''FILES'', ''REQUEST_COOKIES'', ''REQUEST_HEADERS'', ''RESPONSE_HEADERS'',
     ''RES_BODY_PROCESSOR'', ''GEO'', ''REQUEST_COOKIES_NAMES'', ''FILES_TMPNAMES'',
     ''ARGS_NAMES'', ''ARGS_GET_NAMES'', ''ARGS_POST_NAMES'', ''TX'', ''RULE'', ''JSON'',
     ''ENV'', ''URLENCODED_ERROR'', ''RESPONSE_ARGS'', ''RESPONSE_XML'', ''REQUEST_XML'',
     ''XML'', ''MULTIPART_PART_HEADERS'', ''AUTH_TYPE'', ''FULL_REQUEST'',
     ''MULTIPART_BOUNDARY_QUOTED'', ''MULTIPART_BOUNDARY_WHITESPACE'',
     ''MULTIPART_CRLF_LF_LINES'', ''MULTIPART_DATA_BEFORE'', ''MULTIPART_FILE_LIMIT_EXCEEDED'',
     ''MULTIPART_HEADER_FOLDING'', ''MULTIPART_INVALID_HEADER_FOLDING'',
     ''MULTIPART_INVALID_PART'', ''MULTIPART_INVALID_QUOTING'', ''MULTIPART_LF_LINE'',
     ''MULTIPART_MISSING_SEMICOLON'', ''MULTIPART_STRICT_ERROR'',
     ''MULTIPART_UNMATCHED_BOUNDARY'', ''PATH_INFO'', ''SESSIONID'', ''USERID'', ''IP'',
     ''RES_BODY_ERROR'', ''RES_BODY_ERROR_MSG'', ''RES_BODY_PROCESSOR_ERROR'',
     ''RES_BODY_PROCESSOR_ERROR_MSG'', ''TIME'', ''TIME_DAY'', ''TIME_EPOCH'', ''TIME_HOUR'',
     ''TIME_MIN'', ''TIME_MON'', ''TIME_SEC'', ''TIME_WDAY'', ''TIME_YEAR'']"

definition Name :: "RuleVariable \<Rightarrow> string" where
  "Name v = (if v < length variable_names then variable_names ! v else ''INVALID_VARIABLE'')"

definition CanBeSelected :: "RuleVariable \<Rightarrow> bool" where
  "CanBeSelected v = (v \<in> set [
     39, 40, 41, 42, 43, 44, 45, 46, 47, 48, 49, 50, 51, 52, 53, 54, 55, 57, 58, 59, 60, 61,
     62, 63, 64, 65, 66, 68, 69, 70, 71, 72])"

definition rulemapRev :: "(string \<times> RuleVariable) list" where
  "rulemapRev = zip variable_names [0..<length variable_names]"

definition Parse :: "string \<Rightarrow> go_error + RuleVariable" where
  "Parse v = (case map_of rulemapRev (to_upper v) of
     Some rv \<Rightarrow> Inr rv
   | None \<Rightarrow> Inl ''unknown variable'')"

lemma length_variable_names: "length variable_names = 105"
  by (simp add: variable_names_def)

lemma distinct_variable_names: "distinct variable_names"
  by (simp add: variable_names_def)

lemma variable_names_upper: "map to_upper variable_names = variable_names"
  by code_simp

lemma map_of_rulemapRev: "v < length variable_names \<Longrightarrow> map_of rulemapRev (variable_names ! v) = Some v"
  unfolding rulemapRev_def using distinct_variable_names
  by (subst map_of_zip_nth) simp_all

text \<open>
  The name of every variable parses back to the variable, so a rule that is printed for the
  audit log names the variable it inspects.
\<close>

theorem Parse_Name:
  assumes "v < length variable_names"
  shows "Parse (Name v) = Inr v"
proof -
  have "to_upper (variable_names ! v) = variable_names ! v"
    using assms variable_names_upper by (metis nth_map)
  with assms show ?thesis
    by (simp add: Parse_def Name_def map_of_rulemapRev)
qed

theorem Parse_Name_witness: "VArgs < length variable_names \<and> Name VArgs = ''ARGS'' \<and> Parse (Name VArgs) = Inr VArgs"
proof -
  have "VArgs < length variable_names"
    by (simp add: length_variable_names)
  with Parse_Name [of VArgs] show ?thesis
    by (simp add: Name_def variable_names_def)
qed

end
