(* ===== verification/Collections.thy ===== *)
theory Collections
  imports Variables "HOL-Library.Multiset"
begin

text \<open>
  The collections of \<open>internal/collections\<close> that hold the variables of a transaction: \<open>Map\<close>,
  \<open>NamedCollection\<close> with its view \<open>NamedCollectionNames\<close>, \<open>Single\<close>, and the views
  \<open>ConcatCollection\<close>, \<open>ConcatKeyed\<close> and \<open>SizeCollection\<close>. The interface types of
  \<open>collection/collection.go\<close> are a datatype with one constructor per implementation.

  Go iterates a map in no fixed order. The model iterates in the order of an association list;
  the theorems about iterations compare multisets or sets of matches.
\<close>

subsection \<open>Matches\<close>

text \<open>\<open>corazarules.MatchData\<close>, without the disruptive flag and the child rules of the log.\<close>

record MatchData =
  md_Variable :: RuleVariable
  md_Key :: string
  md_Value :: string
  md_Message :: string
  md_Data :: string
  md_ChainLevel :: nat

definition match_data :: "RuleVariable \<Rightarrow> string \<Rightarrow> string \<Rightarrow> MatchData" where
  "match_data v k x = \<lparr>md_Variable = v, md_Key = k, md_Value = x, md_Message = [], md_Data = [], md_ChainLevel = 0\<rparr>"

subsection \<open>Map\<close>

record keyValue =
  kv_key :: string
  kv_value :: string

record Map =
  isCaseSensitive :: bool
  data :: "(string \<times> keyValue list) list"
  map_variable :: RuleVariable

definition NewMap :: "RuleVariable \<Rightarrow> Map" where
  "NewMap v = \<lparr>isCaseSensitive = False, data = [], map_variable = v\<rparr>"

definition NewCaseSensitiveKeyMap :: "RuleVariable \<Rightarrow> Map" where
  "NewCaseSensitiveKeyMap v = \<lparr>isCaseSensitive = True, data = [], map_variable = v\<rparr>"

text \<open>The key under which the map stores, and the values stored there.\<close>

definition map_key :: "Map \<Rightarrow> string \<Rightarrow> string" where
  "map_key c key = (if \<not> isCaseSensitive c then to_lower key else key)"

definition map_slot :: "Map \<Rightarrow> string \<Rightarrow> keyValue list" where
  "map_slot c k = (case map_of (data c) k of Some vs \<Rightarrow> vs | None \<Rightarrow> [])"

definition map_Get :: "Map \<Rightarrow> string \<Rightarrow> string list" where
  "map_Get c key = (if data c = [] then []
     else let values = map_slot c (map_key c key) in
       if values = [] then [] else map kv_value values)"

definition kv_matches :: "RuleVariable \<Rightarrow> keyValue list \<Rightarrow> MatchData list" where
  "kv_matches v kvs = map (\<lambda>d. match_data v (kv_key d) (kv_value d)) kvs"

definition map_FindAll :: "Map \<Rightarrow> MatchData list" where
  "map_FindAll c = concat (map (\<lambda>(k, d). kv_matches (map_variable c) d) (data c))"

definition map_FindRegex :: "Map \<Rightarrow> (string \<Rightarrow> bool) \<Rightarrow> MatchData list" where
  "map_FindRegex c rx =
     concat (map (\<lambda>(k, d). if rx k then kv_matches (map_variable c) d else []) (data c))"

definition map_FindString :: "Map \<Rightarrow> string \<Rightarrow> MatchData list" where
  "map_FindString c key =
     (if key = [] then map_FindAll c
      else if data c = [] then []
      else kv_matches (map_variable c) (map_slot c (map_key c key)))"

definition map_Add :: "string \<Rightarrow> string \<Rightarrow> Map \<Rightarrow> Map" where
  "map_Add key value c =
     (let k = map_key c key in
      c\<lparr>data := AList.update k (map_slot c k @ [\<lparr>kv_key = key, kv_value = value\<rparr>]) (data c)\<rparr>)"

definition map_Set :: "string \<Rightarrow> string list \<Rightarrow> Map \<Rightarrow> Map" where
  "map_Set key values c =
     c\<lparr>data := AList.update (map_key c key) (map (\<lambda>v. \<lparr>kv_key = key, kv_value = v\<rparr>) values) (data c)\<rparr>"

text \<open>A negative index into a non-empty slot is the one that panics.\<close>

definition map_SetIndex :: "string \<Rightarrow> int \<Rightarrow> string \<Rightarrow> Map \<Rightarrow> Map option" where
  "map_SetIndex key index value c =
     (let k = map_key c key; values = map_slot c k; av = \<lparr>kv_key = key, kv_value = value\<rparr> in
      if values = [] then Some (c\<lparr>data := AList.update k [av] (data c)\<rparr>)
      else if int (length values) \<le> index then Some (c\<lparr>data := AList.update k (values @ [av]) (data c)\<rparr>)
      else if index < 0 then None
      else Some (c\<lparr>data := AList.update k (values[nat index := av]) (data c)\<rparr>))"

definition map_Remove :: "string \<Rightarrow> Map \<Rightarrow> Map" where
  "map_Remove key c = (if data c = [] then c
     else c\<lparr>data := AList.delete (map_key c key) (data c)\<rparr>)"

definition map_Reset :: "Map \<Rightarrow> Map" where
  "map_Reset c = c\<lparr>data := []\<rparr>"

definition map_Len :: "Map \<Rightarrow> nat" where
  "map_Len c = length (data c)"

subsection \<open>NamedCollection and its names\<close>

text \<open>
  A \<open>NamedCollection\<close> embeds a \<open>Map\<close> and forwards every operation; the view of its names returns
  the stored key as the value of the match.
\<close>

type_synonym NamedCollection = Map

definition NewNamedCollection :: "RuleVariable \<Rightarrow> NamedCollection" where
  "NewNamedCollection rv = NewMap rv"

definition NewCaseSensitiveNamedCollection :: "RuleVariable \<Rightarrow> NamedCollection" where
  "NewCaseSensitiveNamedCollection rv = NewCaseSensitiveKeyMap rv"

definition named_Data :: "NamedCollection \<Rightarrow> (string \<times> string list) list" where
  "named_Data c = map (\<lambda>(k, d). (k, map kv_value d)) (data c)"

definition name_matches :: "RuleVariable \<Rightarrow> keyValue list \<Rightarrow> MatchData list" where
  "name_matches v kvs = map (\<lambda>d. match_data v (kv_key d) (kv_key d)) kvs"

definition names_FindAll :: "RuleVariable \<Rightarrow> NamedCollection \<Rightarrow> MatchData list" where
  "names_FindAll v c = concat (map (\<lambda>(k, d). name_matches v d) (data c))"

definition names_FindRegex :: "RuleVariable \<Rightarrow> NamedCollection \<Rightarrow> (string \<Rightarrow> bool) \<Rightarrow> MatchData list" where
  "names_FindRegex v c rx = concat (map (\<lambda>(k, d). if \<not> rx k then [] else name_matches v d) (data c))"

definition names_FindString :: "RuleVariable \<Rightarrow> NamedCollection \<Rightarrow> string \<Rightarrow> MatchData list" where
  "names_FindString v c key = concat (map (\<lambda>(k, d). if k \<noteq> key then [] else name_matches v d) (data c))"

definition names_Get :: "NamedCollection \<Rightarrow> string \<Rightarrow> string list" where
  "names_Get c key = map_Get c key"

subsection \<open>SizeCollection\<close>

definition size_size :: "NamedCollection list \<Rightarrow> nat" where
  "size_size cs = sum_list (map (\<lambda>d. sum_list (map (\<lambda>(k, vs).
     sum_list (map (\<lambda>v. length (kv_key v) + length (kv_value v)) vs)) (data d))) cs)"

definition size_FindAll :: "RuleVariable \<Rightarrow> NamedCollection list \<Rightarrow> MatchData list" where
  "size_FindAll v cs = [match_data v [] (itoa (int (size_size cs)))]"

subsection \<open>The interfaces\<close>

datatype collection =
    CNoop
  | CSingle RuleVariable string
  | CMap Map
  | CNames RuleVariable NamedCollection
  | CSize RuleVariable "NamedCollection list"
  | CConcat RuleVariable "collection list"
  | CConcatKeyed RuleVariable "collection list"

definition replaceVariable :: "RuleVariable \<Rightarrow> MatchData list \<Rightarrow> MatchData list" where
  "replaceVariable v md = map (\<lambda>m. m\<lparr>md_Variable := v\<rparr>) md"

fun FindAll :: "collection \<Rightarrow> MatchData list" where
  "FindAll CNoop = []"
| "FindAll (CSingle v s) = [match_data v [] s]"
| "FindAll (CMap m) = map_FindAll m"
| "FindAll (CNames v c) = names_FindAll v c"
| "FindAll (CSize v cs) = size_FindAll v cs"
| "FindAll (CConcat v cs) = concat (map (\<lambda>c. replaceVariable v (FindAll c)) cs)"
| "FindAll (CConcatKeyed v cs) = concat (map (\<lambda>c. replaceVariable v (FindAll c)) cs)"

text \<open>The methods of the \<open>Keyed\<close> interface; \<open>None\<close> where the implementation does not have them.\<close>

fun is_Keyed :: "collection \<Rightarrow> bool" where
  "is_Keyed (CMap m) = True"
| "is_Keyed (CNames v c) = True"
| "is_Keyed (CConcatKeyed v cs) = True"
| "is_Keyed _ = False"

fun FindRegex :: "collection \<Rightarrow> (string \<Rightarrow> bool) \<Rightarrow> MatchData list" where
  "FindRegex (CMap m) rx = map_FindRegex m rx"
| "FindRegex (CNames v c) rx = names_FindRegex v c rx"
| "FindRegex (CSize v cs) rx = size_FindAll v cs"
| "FindRegex (CConcatKeyed v cs) rx = concat (map (\<lambda>c. replaceVariable v (FindRegex c rx)) cs)"
| "FindRegex _ rx = []"

fun FindString :: "collection \<Rightarrow> string \<Rightarrow> MatchData list" where
  "FindString (CMap m) key = map_FindString m key"
| "FindString (CNames v c) key = names_FindString v c key"
| "FindString (CSize v cs) key = size_FindAll v cs"
| "FindString (CConcatKeyed v cs) key = concat (map (\<lambda>c. replaceVariable v (FindString c key)) cs)"
| "FindString _ key = []"

fun keyed_Get :: "collection \<Rightarrow> string \<Rightarrow> string list" where
  "keyed_Get (CMap m) key = map_Get m key"
| "keyed_Get (CNames v c) key = names_Get c key"
| "keyed_Get (CConcatKeyed v cs) key =
     (let keyL = to_lower key in concat (map (\<lambda>c. keyed_Get c keyL) cs))"
| "keyed_Get _ key = []"

subsection \<open>The invariant and the equality of keys\<close>

text \<open>The invariant: keys are distinct and in the form under which the map looks them up.\<close>

definition map_ok :: "Map \<Rightarrow> bool" where
  "map_ok c = (distinct (map fst (data c)) \<and> (\<forall>(k, vs)\<in>set (data c). map_key c k = k))"

definition map_same :: "Map \<Rightarrow> string \<Rightarrow> string \<Rightarrow> bool" where
  "map_same c k k' = (map_key c k = map_key c k')"

subsection \<open>The contract of a collection that can be written\<close>

text \<open>
  What a client of \<open>collection.Map\<close> relies on: values are kept per key, keys that the collection
  does not tell apart share their values, and a write to one key leaves the others alone.
\<close>

locale collection_map =
  fixes same :: "'c \<Rightarrow> string \<Rightarrow> string \<Rightarrow> bool"
    and get :: "'c \<Rightarrow> string \<Rightarrow> string list"
    and add :: "string \<Rightarrow> string \<Rightarrow> 'c \<Rightarrow> 'c"
    and set_values :: "string \<Rightarrow> string list \<Rightarrow> 'c \<Rightarrow> 'c"
    and remove :: "string \<Rightarrow> 'c \<Rightarrow> 'c"
    and reset :: "'c \<Rightarrow> 'c"
  assumes same_refl: "same c k k"
    and same_add: "same (add k v c) = same c"
    and same_set: "same (set_values k vs c) = same c"
    and same_remove: "same (remove k c) = same c"
    and get_add: "get (add k v c) k' = (if same c k k' then get c k' @ [v] else get c k')"
    and get_set: "get (set_values k vs c) k' = (if same c k k' then vs else get c k')"
    and get_remove: "get (remove k c) k' = (if same c k k' then [] else get c k')"
    and get_reset: "get (reset c) k' = []"
begin

text \<open>A sequence of additions appends the values whose keys are the key asked for, in order.\<close>

lemma get_add_all:
  "get (fold (\<lambda>(k, v). add k v) kvs c) k' = get c k' @ map snd (filter (\<lambda>(k, v). same c k k') kvs)"
proof (induction kvs arbitrary: c)
  case (Cons p kvs)
  obtain k v where "p = (k, v)" by (cases p)
  then show ?case
    using Cons.IH [of "add k v c"] by (simp add: get_add same_add)
qed simp

lemma set_then_get: "get (set_values k vs c) k = vs"
  by (simp add: get_set same_refl)

lemma set_overwrites:
  "get (set_values k vs (set_values k ws c)) k' = get (set_values k vs c) k'"
  by (simp add: get_set same_set)

lemma remove_after_add: "get (remove k (add k v c)) k' = get (remove k c) k'"
  by (simp add: get_remove get_add same_add)

end

subsection \<open>Map implements the contract\<close>

lemma map_Get_slot: "map_Get c key = map kv_value (map_slot c (map_key c key))"
  by (simp add: map_Get_def map_slot_def Let_def)

lemma map_slot_update:
  "map_slot (c\<lparr>data := AList.update k vs (data c)\<rparr>) k' = (if k' = k then vs else map_slot c k')"
  by (simp add: map_slot_def update_conv')

lemma map_slot_delete:
  "map_slot (c\<lparr>data := AList.delete k (data c)\<rparr>) k' = (if k' = k then [] else map_slot c k')"
  by (simp add: map_slot_def delete_conv')

lemma map_key_data [simp]: "map_key (c\<lparr>data := d\<rparr>) = map_key c"
  by (rule ext) (simp add: map_key_def)

interpretation coll: collection_map map_same map_Get map_Add map_Set map_Remove map_Reset
proof unfold_locales
  fix c k k' v vs
  show "map_same c k k" by (simp add: map_same_def)
  show "map_same (map_Add k v c) = map_same c" "map_same (map_Set k vs c) = map_same c"
    "map_same (map_Remove k c) = map_same c"
    by (auto simp: fun_eq_iff map_same_def map_Add_def map_Set_def map_Remove_def Let_def)
  show "map_Get (map_Add k v c) k' = (if map_same c k k' then map_Get c k' @ [v] else map_Get c k')"
    by (auto simp: map_Get_slot map_Add_def map_slot_update map_same_def Let_def)
  show "map_Get (map_Set k vs c) k' = (if map_same c k k' then vs else map_Get c k')"
    by (auto simp: map_Get_slot map_Set_def map_slot_update map_same_def comp_def)
  show "map_Get (map_Remove k c) k' = (if map_same c k k' then [] else map_Get c k')"
    by (auto simp: map_Get_slot map_Remove_def map_slot_delete map_same_def)
      (simp_all add: map_slot_def)
  show "map_Get (map_Reset c) k' = []"
    by (simp add: map_Get_def map_Reset_def)
qed

subsection \<open>Properties\<close>

lemma map_ok_update:
  "map_ok c \<Longrightarrow> map_key c k = k \<Longrightarrow> map_ok (c\<lparr>data := AList.update k vs (data c)\<rparr>)"
  using set_update_subset [of k vs "data c"] by (fastforce simp: map_ok_def distinct_update)

lemma map_key_idem [simp]: "map_key c (map_key c k) = map_key c k"
  by (simp add: map_key_def)

lemma map_ok_preserved:
  assumes "map_ok c"
  shows "map_ok (map_Add k v c)" "map_ok (map_Set k vs c)" "map_ok (map_Remove k c)" "map_ok (map_Reset c)"
    "map_SetIndex k i v c = Some c' \<Longrightarrow> map_ok c'"
proof -
  show "map_ok (map_Add k v c)" "map_ok (map_Set k vs c)"
    using assms by (simp_all add: map_Add_def map_Set_def map_ok_update Let_def)
  show "map_ok (map_Remove k c)"
    using assms by (auto simp: map_Remove_def map_ok_def distinct_map_filter AList.delete_eq)
  show "map_ok (map_Reset c)"
    by (simp add: map_ok_def map_Reset_def)
  show "map_SetIndex k i v c = Some c' \<Longrightarrow> map_ok c'"
    using assms by (auto simp: map_SetIndex_def map_ok_update Let_def split: if_splits)
qed

text \<open>What an update of one slot does to a sum over all slots.\<close>

lemma sum_list_update_fresh:
  "k \<notin> fst ` set al \<Longrightarrow>
   sum_list (map f (AList.update k v al)) = sum_list (map f al) + (f (k, v) :: 'a :: comm_monoid_add)"
  by (induction al) (auto simp: ac_simps)

lemma sum_list_update_old:
  "map_of al k = Some v0 \<Longrightarrow>
   sum_list (map f (AList.update k v al)) + f (k, v0) = sum_list (map f al) + (f (k, v) :: 'a :: comm_monoid_add)"
  by (induction al) (auto simp: ac_simps)

lemma sum_slots_update:
  fixes f :: "string \<times> keyValue list \<Rightarrow> 'a :: comm_monoid_add"
  assumes "f (k, []) = 0"
  shows "sum_list (map f (AList.update k v (data c))) + f (k, map_slot c k) =
    sum_list (map f (data c)) + f (k, v)"
proof (cases "map_of (data c) k")
  case None
  then have "k \<notin> fst ` set (data c)"
    by (simp add: map_of_eq_None_iff)
  with None assms show ?thesis
    by (simp add: map_slot_def sum_list_update_fresh)
next
  case (Some v0)
  then show ?thesis
    by (simp add: map_slot_def sum_list_update_old)
qed

lemma mset_concat_map: "mset (concat (map f xs)) = sum_list (map (\<lambda>x. mset (f x)) xs)"
  by (induction xs) auto

lemma mset_FindAll:
  "mset (map_FindAll c) = sum_list (map (\<lambda>(k, d). mset (kv_matches (map_variable c) d)) (data c))"
  by (simp add: map_FindAll_def mset_concat_map split_def)

lemma kv_matches_append: "kv_matches v (xs @ ys) = kv_matches v xs @ kv_matches v ys"
  by (simp add: kv_matches_def)

text \<open>
  \<open>Map.Add\<close> adds exactly one match to what \<open>FindAll\<close> returns, with the key as it was given and
  not in the lower-case form under which it is stored, whatever order the map is iterated in.
\<close>

theorem FindAll_Add:
  "mset (map_FindAll (map_Add k v c)) = mset (map_FindAll c) + {#match_data (map_variable c) k v#}"
proof -
  let ?f = "\<lambda>(k, d). mset (kv_matches (map_variable c) d)"
  let ?vs = "map_slot c (map_key c k) @ [\<lparr>kv_key = k, kv_value = v\<rparr>]"
  have "sum_list (map ?f (AList.update (map_key c k) ?vs (data c))) + ?f (map_key c k, map_slot c (map_key c k)) =
      sum_list (map ?f (data c)) + ?f (map_key c k, ?vs)"
    by (rule sum_slots_update) (simp add: kv_matches_def)
  then show ?thesis
    by (simp add: mset_FindAll map_Add_def Let_def kv_matches_append kv_matches_def)
qed

text \<open>
  The combined size that \<open>SizeCollection\<close> reports is the sum of the lengths of all keys and
  values: an addition to one of its collections raises it by the length of the key and the value.
\<close>

theorem size_Add:
  "size_size (cs @ map_Add k v c # ds) = size_size (cs @ c # ds) + length k + length v"
proof -
  let ?f = "\<lambda>(k, vs). sum_list (map (\<lambda>v. length (kv_key v) + length (kv_value v)) vs)"
  let ?vs = "map_slot c (map_key c k) @ [\<lparr>kv_key = k, kv_value = v\<rparr>]"
  have "sum_list (map ?f (AList.update (map_key c k) ?vs (data c))) + ?f (map_key c k, map_slot c (map_key c k)) =
      sum_list (map ?f (data c)) + ?f (map_key c k, ?vs)"
    by (rule sum_slots_update) simp
  then show ?thesis
    by (simp add: size_size_def map_Add_def Let_def)
qed

text \<open>
  A map that was filled by \<open>Add\<close> returns for a key the values added under that key, in the
  order in which they came, with keys compared without regard to case unless the map is case
  sensitive.
\<close>

theorem Get_after_Adds:
  "map_Get (fold (\<lambda>(k, v). map_Add k v) kvs (NewMap rv)) key =
     map snd (filter (\<lambda>(k, v). to_lower k = to_lower key) kvs) \<and>
   map_Get (fold (\<lambda>(k, v). map_Add k v) kvs (NewCaseSensitiveKeyMap rv)) key =
     map snd (filter (\<lambda>(k, v). k = key) kvs)"
  using coll.get_add_all [of kvs "NewMap rv" key] coll.get_add_all [of kvs "NewCaseSensitiveKeyMap rv" key]
  by (simp add: map_same_def map_key_def NewMap_def NewCaseSensitiveKeyMap_def map_Get_def)

text \<open>
  (C30) Every operation that writes a \<open>Map\<close> keeps its keys distinct and in the form under which it
  looks them up, so that a stored value can be found again.
\<close>

theorem map_invariant:
  assumes "map_ok c"
  shows "map_ok (map_Add k v c) \<and> map_ok (map_Set k vs c) \<and> map_ok (map_Remove k c) \<and>
    map_ok (map_Reset c) \<and> (\<forall>c'. map_SetIndex k i v c = Some c' \<longrightarrow> map_ok c')"
  using assms map_ok_preserved by blast

theorem map_invariant_witness:
  "map_ok (NewMap VTX) \<and> map_ok (map_Set ''Score'' [''5''] (map_Add ''score'' ''1'' (NewMap VTX)))"
proof -
  have "map_ok (NewMap VTX)"
    by (simp add: map_ok_def NewMap_def)
  then have "map_ok (map_Add ''score'' ''1'' (NewMap VTX))"
    using map_invariant by blast
  then have "map_ok (map_Set ''Score'' [''5''] (map_Add ''score'' ''1'' (NewMap VTX)))"
    using map_invariant by blast
  with \<open>map_ok (NewMap VTX)\<close> show ?thesis by blast
qed

lemma map_FindString_Get:
  "key \<noteq> [] \<Longrightarrow> map md_Value (map_FindString c key) = map_Get c key"
  by (simp add: map_FindString_def map_Get_slot kv_matches_def match_data_def comp_def map_slot_def)

text \<open>
  The names of a collection are looked up without the lower-casing that its values get: the name
  of an argument is found under its lower-case form only.
\<close>

lemma names_FindString_case:
  "map_Get (map_Add ''Foo'' ''1'' (NewNamedCollection VArgsGet)) ''Foo'' = [''1''] \<and>
   names_FindString VArgsGetNames (map_Add ''Foo'' ''1'' (NewNamedCollection VArgsGet)) ''Foo'' = []"
  by code_simp

end
