(* ===== verification/Tx_State.thy ===== *)
theory Tx_State
  imports Waf_Types Macro Body_Buffer
begin

text \<open>
  The state of a transaction (\<open>internal/corazawaf/transaction.go\<close>, \<open>waf.go\<close>) and the operations on it
  that do not evaluate rules: the variables and their collections, lookups with exceptions,
  captures, headers, arguments, the request line, creation and closing.

  \<open>TransactionVariables\<close> has one field per variable. A field that holds a \<open>Single\<close> is the value of
  \<open>singles\<close> at its variable; a field that holds a \<open>Map\<close> or a \<open>NamedCollection\<close> is the value of \<open>maps\<close>.
  The views (\<open>Names\<close>, \<open>ConcatKeyed\<close>, \<open>SizeCollection\<close>) have no state of their own and are computed by
  \<open>Collection\<close>. A compiled regular expression is used for matching only and is its predicate. The
  debug logger, the stop watches and the context are left out.
\<close>

subsection \<open>Rule targets\<close>

type_synonym regexp = "string \<Rightarrow> bool"

record ruleVariableException =
  ex_KeyStr :: string
  ex_KeyRx :: "regexp option"

record ruleVariableParams =
  rv_Count :: bool
  rv_Variable :: RuleVariable
  rv_KeyRx :: "regexp option"
  rv_KeyStr :: string
  rv_Exceptions :: "ruleVariableException list"

subsection \<open>Rule metadata and matched rules\<close>

record RuleMetadata =
  ID :: int
  LogID :: string
  File :: string
  Line :: int
  Rev :: string
  Severity :: RuleSeverity
  Version :: string
  Tags :: "string list"
  Maturity :: int
  Accuracy :: int
  Operator :: string
  Phase :: RulePhase
  Raw :: string
  SecMark :: string
  ParentID :: int

datatype DisruptiveAction =
    DisruptiveActionUnknown
  | DisruptiveActionAllow
  | DisruptiveActionDeny
  | DisruptiveActionDrop
  | DisruptiveActionPass
  | DisruptiveActionRedirect

definition DisruptiveActionMap :: "(string \<times> DisruptiveAction) list" where
  "DisruptiveActionMap = [(''allow'', DisruptiveActionAllow), (''deny'', DisruptiveActionDeny),
     (''drop'', DisruptiveActionDrop), (''pass'', DisruptiveActionPass), (''redirect'', DisruptiveActionRedirect)]"

record MatchedRule =
  mr_Message :: string
  mr_Data :: string
  mr_URI :: string
  mr_TransactionID :: string
  mr_Disruptive :: bool
  mr_DisruptiveAction :: DisruptiveAction
  mr_Log :: bool
  mr_ServerIPAddress :: string
  mr_ClientIPAddress :: string
  mr_MatchedDatas :: "MatchData list"
  mr_Rule :: RuleMetadata

subsection \<open>The transaction\<close>

record TransactionVariables =
  singles :: "RuleVariable \<Rightarrow> string"
  maps :: "RuleVariable \<Rightarrow> Map"

text \<open>
  The cache key has the address of the key's bytes, which the runtime chooses, the position of the
  argument, its variable and the identifier of the transformation list.
\<close>

type_synonym transformationKey = "nat \<times> nat \<times> RuleVariable \<times> nat"
type_synonym transformationValue = "string \<times> go_error list"

record Transaction =
  tx_id :: string
  tx_matchedRules :: "MatchedRule list"
  tx_interruption :: "Interruption option"
  tx_SkipAfter :: string
  tx_AllowType :: AllowType
  tx_AuditEngine :: AuditEngineStatus
  tx_AuditLogParts :: AuditLogParts
  tx_AuditLogFormat :: string
  tx_ForceRequestBodyVariable :: bool
  tx_RequestBodyAccess :: bool
  tx_RequestBodyLimit :: int
  tx_ForceResponseBodyVariable :: bool
  tx_ResponseBodyAccess :: bool
  tx_ResponseBodyLimit :: int
  tx_RuleEngine :: RuleEngineStatus
  tx_HashEngine :: bool
  tx_HashEnforcement :: bool
  tx_lastPhase :: RulePhase
  tx_requestBodyBuffer :: BodyBuffer
  tx_responseBodyBuffer :: BodyBuffer
  tx_ruleRemoveByID :: "int list"
  tx_ruleRemoveTargetByID :: "int \<Rightarrow> ruleVariableParams list"
  tx_Skip :: int
  tx_Capture :: bool
  tx_Timestamp :: int
  tx_audit :: bool
  tx_variables :: TransactionVariables
  tx_transformationCache :: "transformationKey \<rightharpoonup> transformationValue"

text \<open>The settings of a WAF instance that transactions read; its rules come with the rule engine.\<close>

record WAFSettings =
  w_RequestBodyAccess :: bool
  w_RequestBodyLimit :: int
  w_requestBodyInMemoryLimit :: "int option"
  w_ResponseBodyAccess :: bool
  w_ResponseBodyLimit :: int
  w_RuleEngine :: RuleEngineStatus
  w_ResponseBodyMimeTypes :: "string list"
  w_RequestBodyLimitAction :: BodyLimitAction
  w_ResponseBodyLimitAction :: BodyLimitAction
  w_AuditEngine :: AuditEngineStatus
  w_AuditLogParts :: AuditLogParts
  w_AuditLogFormat :: string
  w_AuditLogRelevantStatus :: "regexp option"
  w_ArgumentLimit :: int

subsection \<open>Reading and writing variables\<close>

definition single_Get :: "RuleVariable \<Rightarrow> Transaction \<Rightarrow> string" where
  "single_Get v tx = singles (tx_variables tx) v"

definition single_Set :: "RuleVariable \<Rightarrow> string \<Rightarrow> Transaction \<Rightarrow> Transaction" where
  "single_Set v s tx = tx\<lparr>tx_variables := (tx_variables tx)\<lparr>singles := (singles (tx_variables tx))(v := s)\<rparr>\<rparr>"

definition map_of_var :: "RuleVariable \<Rightarrow> Transaction \<Rightarrow> Map" where
  "map_of_var v tx = maps (tx_variables tx) v"

definition map_put :: "RuleVariable \<Rightarrow> Map \<Rightarrow> Transaction \<Rightarrow> Transaction" where
  "map_put v m tx = tx\<lparr>tx_variables := (tx_variables tx)\<lparr>maps := (maps (tx_variables tx))(v := m)\<rparr>\<rparr>"

definition map_SetIndex_var :: "RuleVariable \<Rightarrow> string \<Rightarrow> int \<Rightarrow> string \<Rightarrow> Transaction \<Rightarrow> Transaction option" where
  "map_SetIndex_var v key i s tx = map_option (\<lambda>m. map_put v m tx) (map_SetIndex key i s (map_of_var v tx))"

subsection \<open>Collections by variable\<close>

definition single_vars :: "RuleVariable list" where
  "single_vars = [VResponseContentType, VUniqueID, VFilesCombinedSize, VFullRequestLength, VInboundDataError,
     VMatchedVar, VMatchedVarName, VMultipartDataAfter, VOutboundDataError, VQueryString, VRemoteAddr,
     VRemoteHost, VRemotePort, VReqbodyError, VReqbodyErrorMsg, VReqbodyProcessorError,
     VReqbodyProcessorErrorMsg, VReqbodyProcessor, VRequestBasename, VRequestBody, VRequestBodyLength,
     VRequestFilename, VRequestLine, VRequestMethod, VRequestProtocol, VRequestURI, VRequestURIRaw,
     VResponseBody, VResponseContentLength, VResponseProtocol, VResponseStatus, VServerAddr, VServerName,
     VServerPort, VHighestSeverity, VStatusLine, VDuration, VResBodyProcessor, VUrlencodedError,
     VMultipartStrictError, VTime, VTimeDay, VTimeEpoch, VTimeHour, VTimeMin, VTimeMon, VTimeSec,
     VTimeWday, VTimeYear]"

definition map_vars :: "RuleVariable list" where
  "map_vars = [VArgsGet, VArgsPost, VArgsPath, VFilesSizes, VFilesNames, VFilesTmpContent, VMultipartFilename,
     VMultipartName, VMatchedVars, VFiles, VRequestCookies, VRequestHeaders, VResponseHeaders, VGeo,
     VFilesTmpNames, VTX, VRule, VEnv, VResponseArgs, VResponseXML, VRequestXML, VMultipartPartHeaders]"

definition Collection :: "Transaction \<Rightarrow> RuleVariable \<Rightarrow> collection option" where
  "Collection tx idx =
     (let m = maps (tx_variables tx) in
      if idx \<in> set single_vars then Some (CSingle idx (singles (tx_variables tx) idx))
      else if idx \<in> set map_vars then Some (CMap (m idx))
      else if idx = VXML then Some (CMap (m VRequestXML))
      else if idx = VArgsCombinedSize then Some (CSize VArgsCombinedSize [m VArgsGet, m VArgsPost])
      else if idx = VResponseHeadersNames then Some (CNames VResponseHeadersNames (m VResponseHeaders))
      else if idx = VRequestHeadersNames then Some (CNames VRequestHeadersNames (m VRequestHeaders))
      else if idx = VMatchedVarsNames then Some (CNames VMatchedVarsNames (m VMatchedVars))
      else if idx = VRequestCookiesNames then Some (CNames VRequestCookiesNames (m VRequestCookies))
      else if idx = VArgsGetNames then Some (CNames VArgsGetNames (m VArgsGet))
      else if idx = VArgsPostNames then Some (CNames VArgsPostNames (m VArgsPost))
      else if idx = VArgs then
        Some (CConcatKeyed VArgs [CMap (m VArgsGet), CMap (m VArgsPost), CMap (m VArgsPath)])
      else if idx = VArgsNames then
        Some (CConcatKeyed VArgsNames [CNames VArgsGetNames (m VArgsGet), CNames VArgsPostNames (m VArgsPost),
          CNames VUnknown (m VArgsPath)])
      else if idx = VJSON then None
      else Some CNoop)"

definition NewTransactionVariables :: TransactionVariables where
  "NewTransactionVariables = \<lparr>singles = (\<lambda>v. []), maps = (\<lambda>v. NewMap v)\<rparr>"

definition Interrupt :: "Interruption \<Rightarrow> Transaction \<Rightarrow> Transaction" where
  "Interrupt i tx = (if tx_RuleEngine tx = RuleEngineOn then tx\<lparr>tx_interruption := Some i\<rparr> else tx)"

definition is_exception :: "ruleVariableParams \<Rightarrow> MatchData \<Rightarrow> bool" where
  "is_exception rv c =
     (let lkey = to_lower (md_Key c) in
      list_ex (\<lambda>ex. (case ex_KeyRx ex of Some rx \<Rightarrow> rx lkey | None \<Rightarrow> False) \<or> to_lower (ex_KeyStr ex) = lkey)
        (rv_Exceptions rv))"

definition field_matches :: "collection \<Rightarrow> ruleVariableParams \<Rightarrow> MatchData list" where
  "field_matches col rv = (case rv_KeyRx rv of
     Some rx \<Rightarrow> if is_Keyed col then FindRegex col rx else []
   | None \<Rightarrow>
       if rv_KeyStr rv \<noteq> [] then (if is_Keyed col then FindString col (rv_KeyStr rv) else [])
       else FindAll col)"

definition GetField :: "Transaction \<Rightarrow> ruleVariableParams \<Rightarrow> MatchData list" where
  "GetField tx rv = (case Collection tx (rv_Variable rv) of
     None \<Rightarrow> []
   | Some col \<Rightarrow>
       let matches = filter (\<lambda>c. \<not> is_exception rv c) (field_matches col rv) in
       if rv_Count rv then [match_data (rv_Variable rv) (rv_KeyStr rv) (itoa (int (length matches)))]
       else matches)"

subsection \<open>Headers\<close>

definition AddAll :: "RuleVariable \<Rightarrow> multimap \<Rightarrow> Transaction \<Rightarrow> Transaction" where
  "AddAll v kvs tx = fold (\<lambda>(k, vr) tx. fold (\<lambda>s tx. map_put v (map_Add k s (map_of_var v tx)) tx) vr tx) kvs tx"

definition AddRequestHeader :: "string \<Rightarrow> string \<Rightarrow> Transaction \<Rightarrow> Transaction" where
  "AddRequestHeader key value tx =
     (if key = [] then tx
      else let keyl = to_lower key;
               tx = map_put VRequestHeaders (map_Add key value (map_of_var VRequestHeaders tx)) tx in
        if keyl = ''content-type'' then
          (let val = to_lower value in
           if val = ''application/x-www-form-urlencoded'' then single_Set VReqbodyProcessor ''URLENCODED'' tx
           else if has_prefix val ''multipart/form-data'' then single_Set VReqbodyProcessor ''MULTIPART'' tx
           else tx)
        else if keyl = ''cookie'' then AddAll VRequestCookies (ParseCookies value) tx
        else tx)"

definition AddResponseHeader :: "string \<Rightarrow> string \<Rightarrow> Transaction \<Rightarrow> Transaction" where
  "AddResponseHeader key value tx =
     (if key = [] then tx
      else let keyl = to_lower key;
               tx = map_put VResponseHeaders (map_Add key value (map_of_var VResponseHeaders tx)) tx in
        if keyl = ''content-type'' then
          (case str_cut value CHR '';'' of (name, _, _) \<Rightarrow> single_Set VResponseContentType name tx)
        else tx)"

subsection \<open>Captures and matched variables\<close>

definition CaptureField :: "int \<Rightarrow> string \<Rightarrow> Transaction \<Rightarrow> Transaction option" where
  "CaptureField index value tx =
     (if tx_Capture tx then map_SetIndex_var VTX (itoa index) 0 value tx else Some tx)"

definition resetCaptures :: "Transaction \<Rightarrow> Transaction option" where
  "resetCaptures tx = ofold (\<lambda>i. map_SetIndex_var VTX [char_of i] 0 []) [48..<58] tx"

definition match_name :: "MatchData \<Rightarrow> string" where
  "match_name m = (if md_Key m \<noteq> [] then Name (md_Variable m) @ '':'' @ md_Key m else Name (md_Variable m))"

definition tx_matchVariable :: "MatchData \<Rightarrow> Transaction \<Rightarrow> Transaction" where
  "tx_matchVariable m tx =
     (let varName = match_name m;
          tx = single_Set VMatchedVarName [] tx;
          tx = map_put VMatchedVars (map_Add varName (md_Value m) (map_of_var VMatchedVars tx)) tx;
          tx = single_Set VMatchedVar (md_Value m) tx in
      single_Set VMatchedVarName varName tx)"

definition RemoveRuleTargetByID :: "int \<Rightarrow> RuleVariable \<Rightarrow> string \<Rightarrow> Transaction \<Rightarrow> Transaction" where
  "RemoveRuleTargetByID i v key tx =
     (let c = \<lparr>rv_Count = False, rv_Variable = v, rv_KeyRx = None, rv_KeyStr = key, rv_Exceptions = []\<rparr> in
      tx\<lparr>tx_ruleRemoveTargetByID := (tx_ruleRemoveTargetByID tx)(i := tx_ruleRemoveTargetByID tx i @ [c])\<rparr>)"

definition RemoveRuleByID :: "int \<Rightarrow> Transaction \<Rightarrow> Transaction" where
  "RemoveRuleByID i tx = tx\<lparr>tx_ruleRemoveByID := tx_ruleRemoveByID tx @ [i]\<rparr>"

subsection \<open>Connection, arguments and request line\<close>

definition ProcessConnection :: "string \<Rightarrow> int \<Rightarrow> string \<Rightarrow> int \<Rightarrow> Transaction \<Rightarrow> Transaction" where
  "ProcessConnection client cPort server sPort tx =
     (let p = itoa cPort; p2 = itoa sPort;
          tx = single_Set VRemoteAddr client tx;
          tx = single_Set VRemotePort p tx;
          tx = single_Set VServerAddr server tx in
      single_Set VServerPort p2 tx)"

definition checkArgumentLimit :: "'w WAFSettings_scheme \<Rightarrow> Map \<Rightarrow> bool" where
  "checkArgumentLimit w c = (int (map_Len c) \<ge> w_ArgumentLimit w)"

definition add_argument :: "'w WAFSettings_scheme \<Rightarrow> RuleVariable \<Rightarrow> string \<Rightarrow> string \<Rightarrow> Transaction \<Rightarrow> Transaction" where
  "add_argument w v key value tx =
     (if checkArgumentLimit w (map_of_var v tx) then tx
      else map_put v (map_Add key value (map_of_var v tx)) tx)"

definition AddGetRequestArgument :: "'w WAFSettings_scheme \<Rightarrow> string \<Rightarrow> string \<Rightarrow> Transaction \<Rightarrow> Transaction" where
  "AddGetRequestArgument w key value tx = add_argument w VArgsGet key value tx"

definition AddPostRequestArgument :: "'w WAFSettings_scheme \<Rightarrow> string \<Rightarrow> string \<Rightarrow> Transaction \<Rightarrow> Transaction" where
  "AddPostRequestArgument w key value tx = add_argument w VArgsPost key value tx"

definition AddPathRequestArgument :: "'w WAFSettings_scheme \<Rightarrow> string \<Rightarrow> string \<Rightarrow> Transaction \<Rightarrow> Transaction" where
  "AddPathRequestArgument w key value tx = add_argument w VArgsPath key value tx"

definition AddResponseArgument :: "'w WAFSettings_scheme \<Rightarrow> string \<Rightarrow> string \<Rightarrow> Transaction \<Rightarrow> Transaction" where
  "AddResponseArgument w key value tx =
     (if int (map_Len (map_of_var VResponseArgs tx)) \<ge> w_ArgumentLimit w then tx
      else map_put VResponseArgs (map_Add key value (map_of_var VResponseArgs tx)) tx)"

definition ExtractGetArguments :: "'w WAFSettings_scheme \<Rightarrow> string \<Rightarrow> Transaction \<Rightarrow> Transaction" where
  "ExtractGetArguments w uri tx =
     fold (\<lambda>(k, vs) tx. fold (\<lambda>v tx. AddGetRequestArgument w k v tx) vs tx) (ParseQuery uri CHR ''&'') tx"

text \<open>What \<open>ProcessURI\<close> reads of a parsed URL.\<close>

record parsed_url =
  u_Path :: string
  u_RawQuery :: string
  u_String :: string

fun last_index_any :: "string \<Rightarrow> string \<Rightarrow> nat option" where
  "last_index_any [] cs = None"
| "last_index_any (x # s) cs = (case last_index_any s cs of
     Some i \<Rightarrow> Some (Suc i)
   | None \<Rightarrow> if x \<in> set cs then Some 0 else None)"

definition basename :: "string \<Rightarrow> string" where
  "basename path = (case last_index_any path [CHR ''/'', CHR 0x5C] of
     Some offset \<Rightarrow> if length path > offset + 1 then drop (offset + 1) path else path
   | None \<Rightarrow> path)"

text \<open>\<open>ParseRequestURI\<close> of package \<open>net/url\<close> is the argument \<open>parse\<close>.\<close>

definition ProcessURI ::
  "(string \<Rightarrow> go_error + parsed_url) \<Rightarrow> 'w WAFSettings_scheme \<Rightarrow> string \<Rightarrow> string \<Rightarrow> string \<Rightarrow> Transaction \<Rightarrow> Transaction" where
  "ProcessURI parse w uri method httpVersion tx =
     (let tx = single_Set VRequestMethod method tx;
          tx = single_Set VRequestProtocol httpVersion tx;
          tx = single_Set VRequestURIRaw uri tx;
          tx = single_Set VRequestLine (method @ '' '' @ uri @ '' '' @ httpVersion) tx;
          uri = (case index_byte uri CHR ''#'' of Some i \<Rightarrow> take i uri | None \<Rightarrow> uri) in
      case (case parse uri of
              Inl err \<Rightarrow> (single_Set VRequestURI uri (single_Set VUrlencodedError err tx), uri, [])
            | Inr u \<Rightarrow> (single_Set VRequestURI (u_String u) (ExtractGetArguments w (u_RawQuery u) tx),
                        u_Path u, u_RawQuery u)) of
        (tx, path, query) \<Rightarrow>
          let tx = single_Set VRequestBasename (basename path) tx;
              tx = single_Set VRequestFilename path tx in
          single_Set VQueryString query tx)"

text \<open>A call after the request headers phase only logs a warning.\<close>

definition SetServerName :: "string \<Rightarrow> Transaction \<Rightarrow> Transaction" where
  "SetServerName serverName tx = single_Set VServerName serverName tx"

subsection \<open>Creation and closing\<close>

text \<open>The fields of a \<open>time.Time\<close> that are read, in the local time zone.\<close>

record go_time =
  t_UnixNano :: int
  t_Unix :: int
  t_Hour :: nat
  t_Minute :: nat
  t_Second :: nat
  t_Year :: int
  t_Month :: int
  t_Day :: int
  t_Weekday :: int

definition two_digits :: "nat \<Rightarrow> string" where
  "two_digits n = [digit_char (n div 10), digit_char (n mod 10)]"

definition format_TimeOnly :: "go_time \<Rightarrow> string" where
  "format_TimeOnly t = two_digits (t_Hour t) @ '':'' @ two_digits (t_Minute t) @ '':'' @ two_digits (t_Second t)"

definition setTimeVariables :: "go_time \<Rightarrow> Transaction \<Rightarrow> Transaction option" where
  "setTimeVariables timestamp tx = do {
     let tx = single_Set VTimeEpoch (itoa (t_Unix timestamp)) tx;
     let timeOnly = format_TimeOnly timestamp;
     let tx = single_Set VTime timeOnly tx;
     h \<leftarrow> slice timeOnly 0 2;
     let tx = single_Set VTimeHour h tx;
     m \<leftarrow> slice timeOnly 3 5;
     let tx = single_Set VTimeMin m tx;
     s \<leftarrow> slice timeOnly 6 8;
     let tx = single_Set VTimeSec s tx;
     let tx = single_Set VTimeDay (itoa (t_Day timestamp)) tx;
     let tx = single_Set VTimeMon (itoa (t_Month timestamp)) tx;
     let tx = single_Set VTimeYear (itoa (t_Year timestamp)) tx;
     Some (single_Set VTimeWday (itoa (t_Weekday timestamp)) tx)
   }"

definition set_defaults :: "Transaction \<Rightarrow> Transaction" where
  "set_defaults tx =
     (let tx = fold (\<lambda>i tx. map_put VTX (map_Set (itoa i) [[]] (map_of_var VTX tx)) tx) [0..10] tx in
      fold (\<lambda>v tx. single_Set v ''0'' tx)
        [VFilesCombinedSize, VUrlencodedError, VFullRequestLength, VMultipartDataAfter, VOutboundDataError,
         VReqbodyError, VReqbodyProcessorError, VRequestBodyLength, VDuration, VHighestSeverity] tx)"

text \<open>
  A transaction taken from the pool: \<open>None\<close> is \<open>new(Transaction)\<close>, whose buffers and variables are
  created by the call, \<open>Some t\<close> one that was closed before.
\<close>

definition fresh_Transaction :: "'w WAFSettings_scheme \<Rightarrow> Transaction" where
  "fresh_Transaction w =
     \<lparr>tx_id = [], tx_matchedRules = [], tx_interruption = None, tx_SkipAfter = [],
      tx_AllowType = AllowTypeUnset, tx_AuditEngine = AuditEngineOn, tx_AuditLogParts = [],
      tx_AuditLogFormat = [], tx_ForceRequestBodyVariable = False, tx_RequestBodyAccess = False,
      tx_RequestBodyLimit = 0, tx_ForceResponseBodyVariable = False, tx_ResponseBodyAccess = False,
      tx_ResponseBodyLimit = 0, tx_RuleEngine = RuleEngineOn, tx_HashEngine = False,
      tx_HashEnforcement = False, tx_lastPhase = 0,
      tx_requestBodyBuffer = NewBodyBuffer (w_RequestBodyLimit w)
        (case w_requestBodyInMemoryLimit w of Some l \<Rightarrow> l | None \<Rightarrow> w_RequestBodyLimit w),
      tx_responseBodyBuffer = NewBodyBuffer (w_ResponseBodyLimit w) (w_ResponseBodyLimit w),
      tx_ruleRemoveByID = [], tx_ruleRemoveTargetByID = (\<lambda>_. []), tx_Skip = 0, tx_Capture = False,
      tx_Timestamp = 0, tx_audit = False, tx_variables = NewTransactionVariables,
      tx_transformationCache = Map.empty\<rparr>"

definition assign_settings :: "'w WAFSettings_scheme \<Rightarrow> string \<Rightarrow> go_time \<Rightarrow> Transaction \<Rightarrow> Transaction" where
  "assign_settings w i now tx = tx\<lparr>tx_id := i, tx_matchedRules := [], tx_interruption := None, tx_SkipAfter := [],
     tx_AuditEngine := w_AuditEngine w, tx_AuditLogParts := w_AuditLogParts w,
     tx_AuditLogFormat := w_AuditLogFormat w, tx_ForceRequestBodyVariable := False,
     tx_RequestBodyAccess := w_RequestBodyAccess w, tx_RequestBodyLimit := w_RequestBodyLimit w,
     tx_ResponseBodyAccess := w_ResponseBodyAccess w, tx_ResponseBodyLimit := w_ResponseBodyLimit w,
     tx_RuleEngine := w_RuleEngine w, tx_HashEngine := False, tx_HashEnforcement := False,
     tx_lastPhase := 0, tx_ruleRemoveByID := [], tx_ruleRemoveTargetByID := (\<lambda>_. []), tx_Skip := 0,
     tx_AllowType := AllowTypeUnset, tx_Capture := False, tx_Timestamp := t_UnixNano now, tx_audit := False\<rparr>"

definition newTransaction ::
  "'w WAFSettings_scheme \<Rightarrow> string \<Rightarrow> go_time \<Rightarrow> Transaction option \<Rightarrow> Transaction option" where
  "newTransaction w i now pooled =
     (let tx = (case pooled of None \<Rightarrow> fresh_Transaction w | Some t \<Rightarrow> t);
          tx = set_defaults (assign_settings w i now tx) in
      setTimeVariables now (single_Set VUniqueID i tx))"

text \<open>The variables that \<open>All\<close> visits, in its order.\<close>

definition All_variables :: "RuleVariable list" where
  "All_variables = [VArgs, VArgsCombinedSize, VArgsGet, VArgsGetNames, VArgsNames, VArgsPath, VArgsPost,
     VArgsPostNames, VDuration, VEnv, VFiles, VFilesCombinedSize, VFilesNames, VFilesSizes, VFilesTmpContent,
     VFilesTmpNames, VFullRequestLength, VGeo, VHighestSeverity, VInboundDataError, VMatchedVar,
     VMatchedVarName, VMatchedVars, VMatchedVarsNames, VMultipartDataAfter, VMultipartFilename,
     VMultipartName, VMultipartPartHeaders, VMultipartStrictError, VOutboundDataError, VQueryString,
     VRemoteAddr, VRemoteHost, VRemotePort, VReqbodyError, VReqbodyErrorMsg, VReqbodyProcessor,
     VReqbodyProcessorError, VReqbodyProcessorErrorMsg, VRequestBasename, VRequestBody, VRequestBodyLength,
     VRequestCookies, VRequestCookiesNames, VRequestFilename, VRequestHeaders, VRequestHeadersNames,
     VRequestLine, VRequestMethod, VRequestProtocol, VRequestURI, VRequestURIRaw, VRequestXML, VResponseBody,
     VResponseContentLength, VResponseContentType, VResponseHeaders, VResponseHeadersNames, VResponseProtocol,
     VResponseStatus, VResponseXML, VResponseArgs, VResBodyProcessor, VRule, VServerAddr, VServerName,
     VServerPort, VStatusLine, VTX, VUniqueID, VUrlencodedError, VXML, VTime, VTimeDay, VTimeEpoch, VTimeHour,
     VTimeMin, VTimeMon, VTimeSec, VTimeWday, VTimeYear]"

text \<open>\<open>Single\<close>, \<open>Map\<close> and \<open>NamedCollection\<close> have a \<open>Reset\<close>; the views do not.\<close>

definition vars_reset :: "TransactionVariables \<Rightarrow> TransactionVariables" where
  "vars_reset vs = fold (\<lambda>v vs. vs\<lparr>singles := (singles vs)(v := []), maps := (maps vs)(v := map_Reset (maps vs v))\<rparr>)
     All_variables vs"

text \<open>\<open>remove\<close> is the outcome of \<open>os.Remove\<close> on a temporary file, \<open>e1\<close> and \<open>e2\<close> those of the two buffers.\<close>

definition tx_Close ::
  "(string \<Rightarrow> go_error option) \<Rightarrow> go_error option \<Rightarrow> go_error option \<Rightarrow> Transaction \<Rightarrow> go_error list \<times> Transaction" where
  "tx_Close remove e1 e2 tx =
     (let opt = (\<lambda>msg e. case e of Some err \<Rightarrow> [msg @ err] | None \<Rightarrow> []);
          errs = concat (map (\<lambda>file. opt ''removing temporary file: '' (remove file)) (map_Get (map_of_var VFilesTmpNames tx) []))
            @ opt ''reseting request body buffer: '' e1 @ opt ''reseting response body buffer: '' e2 in
      (errs, tx\<lparr>tx_variables := vars_reset (tx_variables tx),
                tx_requestBodyBuffer := bb_Reset (tx_requestBodyBuffer tx),
                tx_responseBodyBuffer := bb_Reset (tx_responseBodyBuffer tx)\<rparr>))"

text \<open>\<open>WAF.Validate\<close>; \<open>None\<close> is the nil error.\<close>

definition Validate :: "'w WAFSettings_scheme \<Rightarrow> go_error option" where
  "Validate w =
     (if w_RequestBodyLimit w \<le> 0 then Some ''request body limit should be bigger than 0''
      else if w_RequestBodyLimit w > 1073741824 then Some ''request body limit should be at most 1GiB''
      else case (case w_requestBodyInMemoryLimit w of
                   None \<Rightarrow> None
                 | Some l \<Rightarrow>
                     if l \<le> 0 then Some ''request body memory limit should be bigger than 0''
                     else if w_RequestBodyLimit w < l then Some ''request body limit should be at least the memory limit''
                     else None) of
        Some err \<Rightarrow> Some err
      | None \<Rightarrow>
          if w_ResponseBodyLimit w \<le> 0 then Some ''response body limit should be bigger than 0''
          else if w_ResponseBodyLimit w > 1073741824 then Some ''response body limit should be at most 1GiB''
          else if w_ArgumentLimit w \<le> 0 then Some ''argument limit should be bigger than 0''
          else None)"

subsection \<open>Variables and the other fields do not interfere\<close>

lemma single_Set_fields [simp]:
  "tx_id (single_Set v s tx) = tx_id tx"
  "tx_matchedRules (single_Set v s tx) = tx_matchedRules tx"
  "tx_interruption (single_Set v s tx) = tx_interruption tx"
  "tx_SkipAfter (single_Set v s tx) = tx_SkipAfter tx"
  "tx_AllowType (single_Set v s tx) = tx_AllowType tx"
  "tx_AuditEngine (single_Set v s tx) = tx_AuditEngine tx"
  "tx_AuditLogParts (single_Set v s tx) = tx_AuditLogParts tx"
  "tx_AuditLogFormat (single_Set v s tx) = tx_AuditLogFormat tx"
  "tx_ForceRequestBodyVariable (single_Set v s tx) = tx_ForceRequestBodyVariable tx"
  "tx_RequestBodyAccess (single_Set v s tx) = tx_RequestBodyAccess tx"
  "tx_RequestBodyLimit (single_Set v s tx) = tx_RequestBodyLimit tx"
  "tx_ForceResponseBodyVariable (single_Set v s tx) = tx_ForceResponseBodyVariable tx"
  "tx_ResponseBodyAccess (single_Set v s tx) = tx_ResponseBodyAccess tx"
  "tx_ResponseBodyLimit (single_Set v s tx) = tx_ResponseBodyLimit tx"
  "tx_RuleEngine (single_Set v s tx) = tx_RuleEngine tx"
  "tx_HashEngine (single_Set v s tx) = tx_HashEngine tx"
  "tx_HashEnforcement (single_Set v s tx) = tx_HashEnforcement tx"
  "tx_lastPhase (single_Set v s tx) = tx_lastPhase tx"
  "tx_requestBodyBuffer (single_Set v s tx) = tx_requestBodyBuffer tx"
  "tx_responseBodyBuffer (single_Set v s tx) = tx_responseBodyBuffer tx"
  "tx_ruleRemoveByID (single_Set v s tx) = tx_ruleRemoveByID tx"
  "tx_ruleRemoveTargetByID (single_Set v s tx) = tx_ruleRemoveTargetByID tx"
  "tx_Skip (single_Set v s tx) = tx_Skip tx"
  "tx_Capture (single_Set v s tx) = tx_Capture tx"
  "tx_Timestamp (single_Set v s tx) = tx_Timestamp tx"
  "tx_audit (single_Set v s tx) = tx_audit tx"
  "tx_transformationCache (single_Set v s tx) = tx_transformationCache tx"
  by (simp_all add: single_Set_def)

lemma map_put_fields [simp]:
  "tx_id (map_put v m tx) = tx_id tx"
  "tx_matchedRules (map_put v m tx) = tx_matchedRules tx"
  "tx_interruption (map_put v m tx) = tx_interruption tx"
  "tx_SkipAfter (map_put v m tx) = tx_SkipAfter tx"
  "tx_AllowType (map_put v m tx) = tx_AllowType tx"
  "tx_AuditEngine (map_put v m tx) = tx_AuditEngine tx"
  "tx_AuditLogParts (map_put v m tx) = tx_AuditLogParts tx"
  "tx_AuditLogFormat (map_put v m tx) = tx_AuditLogFormat tx"
  "tx_ForceRequestBodyVariable (map_put v m tx) = tx_ForceRequestBodyVariable tx"
  "tx_RequestBodyAccess (map_put v m tx) = tx_RequestBodyAccess tx"
  "tx_RequestBodyLimit (map_put v m tx) = tx_RequestBodyLimit tx"
  "tx_ForceResponseBodyVariable (map_put v m tx) = tx_ForceResponseBodyVariable tx"
  "tx_ResponseBodyAccess (map_put v m tx) = tx_ResponseBodyAccess tx"
  "tx_ResponseBodyLimit (map_put v m tx) = tx_ResponseBodyLimit tx"
  "tx_RuleEngine (map_put v m tx) = tx_RuleEngine tx"
  "tx_HashEngine (map_put v m tx) = tx_HashEngine tx"
  "tx_HashEnforcement (map_put v m tx) = tx_HashEnforcement tx"
  "tx_lastPhase (map_put v m tx) = tx_lastPhase tx"
  "tx_requestBodyBuffer (map_put v m tx) = tx_requestBodyBuffer tx"
  "tx_responseBodyBuffer (map_put v m tx) = tx_responseBodyBuffer tx"
  "tx_ruleRemoveByID (map_put v m tx) = tx_ruleRemoveByID tx"
  "tx_ruleRemoveTargetByID (map_put v m tx) = tx_ruleRemoveTargetByID tx"
  "tx_Skip (map_put v m tx) = tx_Skip tx"
  "tx_Capture (map_put v m tx) = tx_Capture tx"
  "tx_Timestamp (map_put v m tx) = tx_Timestamp tx"
  "tx_audit (map_put v m tx) = tx_audit tx"
  "tx_transformationCache (map_put v m tx) = tx_transformationCache tx"
  by (simp_all add: map_put_def)

lemma variables_read_back [simp]:
  "single_Get u (single_Set v s tx) = (if u = v then s else single_Get u tx)"
  "single_Get u (map_put v m tx) = single_Get u tx"
  "map_of_var u (single_Set v s tx) = map_of_var u tx"
  "map_of_var u (map_put v m tx) = (if u = v then m else map_of_var u tx)"
  by (simp_all add: single_Get_def single_Set_def map_of_var_def map_put_def)

lemma variables_overwritten [simp]:
  "(single_Set v s tx)\<lparr>tx_variables := vs\<rparr> = tx\<lparr>tx_variables := vs\<rparr>"
  "(map_put v m tx)\<lparr>tx_variables := vs\<rparr> = tx\<lparr>tx_variables := vs\<rparr>"
  by (simp_all add: single_Set_def map_put_def)

subsection \<open>Creation\<close>

lemma setTimeVariables_eq:
  "setTimeVariables t tx = Some (single_Set VTimeWday (itoa (t_Weekday t)) (single_Set VTimeYear (itoa (t_Year t))
     (single_Set VTimeMon (itoa (t_Month t)) (single_Set VTimeDay (itoa (t_Day t))
     (single_Set VTimeSec (two_digits (t_Second t)) (single_Set VTimeMin (two_digits (t_Minute t))
     (single_Set VTimeHour (two_digits (t_Hour t)) (single_Set VTime (format_TimeOnly t)
     (single_Set VTimeEpoch (itoa (t_Unix t)) tx)))))))))"
  by (simp add: setTimeVariables_def format_TimeOnly_def two_digits_def slice_def)

text \<open>The variables that \<open>Collection\<close> can show.\<close>

definition same_view :: "Transaction \<Rightarrow> Transaction \<Rightarrow> bool" where
  "same_view a b = ((\<forall>v\<in>set single_vars. single_Get v a = single_Get v b) \<and>
     (\<forall>v\<in>set map_vars. map_of_var v a = map_of_var v b))"



lemma same_view_map_put: "same_view a b \<Longrightarrow> same_view (map_put v m a) (map_put v m b)"
  by (simp add: same_view_def)




lemma set_defaults_rest [simp]: "(set_defaults tx)\<lparr>tx_variables := vs\<rparr> = tx\<lparr>tx_variables := vs\<rparr>"
proof -
  have fold_rest: "(fold g xs t)\<lparr>tx_variables := vs\<rparr> = t\<lparr>tx_variables := vs\<rparr>"
    if "\<And>x t. (g x t)\<lparr>tx_variables := vs\<rparr> = t\<lparr>tx_variables := vs\<rparr>" for g :: "'x \<Rightarrow> _" and xs t
    by (induction xs arbitrary: t) (simp_all add: that)
  show ?thesis
    by (simp add: set_defaults_def Let_def fold_rest)
qed

subsection \<open>A pooled transaction starts like a new one\<close>

definition vars_ok :: "TransactionVariables \<Rightarrow> bool" where
  "vars_ok vs = (\<forall>v. map_ok (maps vs v) \<and> map_variable (maps vs v) = v \<and> \<not> isCaseSensitive (maps vs v))"







text \<open>A transaction that forced the response body leaves the setting to the next user of the pool.\<close>

definition example_settings :: WAFSettings where
  "example_settings = \<lparr>w_RequestBodyAccess = True, w_RequestBodyLimit = 100, w_requestBodyInMemoryLimit = None,
     w_ResponseBodyAccess = True, w_ResponseBodyLimit = 100, w_RuleEngine = RuleEngineOn,
     w_ResponseBodyMimeTypes = [''text/html''], w_RequestBodyLimitAction = BodyLimitActionReject,
     w_ResponseBodyLimitAction = BodyLimitActionReject, w_AuditEngine = AuditEngineOff,
     w_AuditLogParts = ''BCH'', w_AuditLogFormat = ''Native'', w_AuditLogRelevantStatus = None,
     w_ArgumentLimit = 2\<rparr>"

definition example_time :: go_time where
  "example_time = \<lparr>t_UnixNano = 0, t_Unix = 0, t_Hour = 0, t_Minute = 0, t_Second = 0, t_Year = 1970,
     t_Month = 1, t_Day = 1, t_Weekday = 4\<rparr>"




lemma ForceResponseBodyVariable_leaks:
  "map_option tx_ForceResponseBodyVariable (newTransaction example_settings ''b'' example_time
     (Some (snd (tx_Close (\<lambda>_. None) None None
       ((fresh_Transaction example_settings)\<lparr>tx_ForceResponseBodyVariable := True\<rparr>))))) = Some True \<and>
   map_option tx_ForceResponseBodyVariable (newTransaction example_settings ''b'' example_time None) = Some False"
proof -
  have force: "tx_ForceResponseBodyVariable (set_defaults tx) = tx_ForceResponseBodyVariable tx" for tx
    using set_defaults_rest [where tx = tx and vs = "tx_variables tx"]
    by (metis Transaction.select_convs(12) Transaction.surjective Transaction.update_convs(27))
  show ?thesis
    by (simp add: newTransaction_def Let_def setTimeVariables_eq force assign_settings_def tx_Close_def
        fresh_Transaction_def)
qed

subsection \<open>The invariant of the variables\<close>

lemma vars_ok_single_Set [simp]: "vars_ok (tx_variables (single_Set v s tx)) = vars_ok (tx_variables tx)"
  by (simp add: vars_ok_def single_Set_def)

lemma vars_ok_map_put:
  assumes "vars_ok (tx_variables tx)" "map_ok m" "map_variable m = v" "\<not> isCaseSensitive m"
  shows "vars_ok (tx_variables (map_put v m tx))"
  using assms by (simp add: vars_ok_def map_put_def)

lemma map_config [simp]:
  "map_variable (map_Add k s c) = map_variable c" "isCaseSensitive (map_Add k s c) = isCaseSensitive c"
  "map_variable (map_Set k ss c) = map_variable c" "isCaseSensitive (map_Set k ss c) = isCaseSensitive c"
  "map_variable (map_Remove k c) = map_variable c" "isCaseSensitive (map_Remove k c) = isCaseSensitive c"
  "map_variable (map_Reset c) = map_variable c" "isCaseSensitive (map_Reset c) = isCaseSensitive c"
  by (simp_all add: map_Add_def map_Set_def map_Remove_def map_Reset_def Let_def)

lemma map_SetIndex_config:
  "map_SetIndex k i s c = Some c' \<Longrightarrow> map_variable c' = map_variable c \<and> isCaseSensitive c' = isCaseSensitive c"
  by (auto simp: map_SetIndex_def Let_def split: if_splits)

lemma vars_ok_var:
  assumes "vars_ok (tx_variables tx)"
  shows "map_ok (map_of_var v tx)" "map_variable (map_of_var v tx) = v" "\<not> isCaseSensitive (map_of_var v tx)"
  using assms by (simp_all add: vars_ok_def map_of_var_def)

lemma vars_ok_updates:
  assumes "vars_ok (tx_variables tx)"
  shows "vars_ok (tx_variables (map_put v (map_Add k s (map_of_var v tx)) tx))"
    "vars_ok (tx_variables (map_put v (map_Set k ss (map_of_var v tx)) tx))"
    "vars_ok (tx_variables (map_put v (map_Remove k (map_of_var v tx)) tx))"
    "vars_ok (tx_variables (map_put v (map_Reset (map_of_var v tx)) tx))"
    "map_SetIndex_var v k i s tx = Some tx' \<Longrightarrow> vars_ok (tx_variables tx')"
  using assms vars_ok_var [OF assms, of v]
  by (auto simp: map_SetIndex_var_def map_ok_preserved dest: map_SetIndex_config intro!: vars_ok_map_put
      intro: map_ok_preserved)

lemma map_SetIndex_0: "\<exists>c'. map_SetIndex k 0 s c = Some c'"
  by (simp add: map_SetIndex_def Let_def)

lemma CaptureField_total: "\<exists>tx'. CaptureField i s tx = Some tx'"
  using map_SetIndex_0 [of "itoa i" s "map_of_var VTX tx"] by (auto simp: CaptureField_def map_SetIndex_var_def)

subsection \<open>Arguments\<close>



lemma fold_invariant: "(\<And>x t. P t \<Longrightarrow> P (g x t)) \<Longrightarrow> P t \<Longrightarrow> P (fold g xs t)"
  by (induction xs arbitrary: t) auto



text \<open>The limit counts names, not arguments: values of one name are not bounded by it.\<close>

lemma argument_limit_counts_names:
  "map_Get (map_of_var VArgsGet (ExtractGetArguments example_settings ''a=1&a=2&a=3&a=4''
     (fresh_Transaction example_settings))) ''a'' = [''1'', ''2'', ''3'', ''4'']"
  by code_simp

subsection \<open>The request line\<close>

lemma last_index_any_Some:
  "last_index_any s cs = Some i \<Longrightarrow> i < length s \<and> s ! i \<in> set cs \<and> (\<forall>x\<in>set (drop (Suc i) s). x \<notin> set cs)"
proof (induction s arbitrary: i)
  case (Cons x s)
  then show ?case
  proof (cases "last_index_any s cs")
    case None
    then have "\<forall>x\<in>set s. x \<notin> set cs"
      by (induction s) (auto split: option.splits if_splits)
    with None Cons.prems show ?thesis by (auto split: if_splits)
  qed auto
qed simp

lemma last_index_any_None: "last_index_any s cs = None \<Longrightarrow> \<forall>x\<in>set s. x \<notin> set cs"
  by (induction s) (auto split: option.splits if_splits)

definition path_seps :: string where
  "path_seps = [CHR ''/'', CHR 0x5C]"

definition is_basename :: "string \<Rightarrow> string \<Rightarrow> bool" where
  "is_basename path base = (suffix base path \<and>
     (if path \<noteq> [] \<and> last path \<in> set path_seps then base = path else list_all (\<lambda>c. c \<notin> set path_seps) base))"

lemma basename_correct: "is_basename path (basename path)"
proof (cases "last_index_any path path_seps")
  case None
  then show ?thesis
    using last_index_any_None [OF None] by (auto simp: is_basename_def basename_def path_seps_def list_all_iff)
next
  case (Some i)
  note i = last_index_any_Some [OF Some]
  show ?thesis
  proof (cases "length path > i + 1")
    case True
    then have "last path \<in> set (drop (Suc i) path)"
      by (metis Suc_eq_plus1 drop_eq_Nil2 last_drop last_in_set linorder_not_less)
    with i Some True show ?thesis
      by (auto simp: is_basename_def basename_def path_seps_def suffix_drop list_all_iff)
  next
    case False
    with i have "i = length path - 1" "path \<noteq> []" by auto
    with i have "last path \<in> set path_seps" by (simp add: last_conv_nth)
    with Some False \<open>path \<noteq> []\<close> show ?thesis
      by (simp add: is_basename_def basename_def path_seps_def)
  qed
qed

lemma ExtractGetArguments_singles: "single_Get v (ExtractGetArguments w q tx) = single_Get v tx"
  unfolding ExtractGetArguments_def AddGetRequestArgument_def add_argument_def
  by (rule fold_invariant [where P = "\<lambda>t. single_Get v t = single_Get v tx"], clarify,
      rule fold_invariant [where P = "\<lambda>t. single_Get v t = single_Get v tx"]) auto

text \<open>
  After \<open>ProcessURI\<close>, whatever the URL parser answers, \<open>REQUEST_BASENAME\<close> is the end of
  \<open>REQUEST_FILENAME\<close> and has no path separator, unless the file name ends in one, when it is the
  whole file name; the raw URI, the method and the request line are kept as received.
\<close>

theorem ProcessURI_variables:
  "let t = ProcessURI parse w uri method httpVersion tx in
    single_Get VRequestURIRaw t = uri \<and> single_Get VRequestMethod t = method \<and>
    single_Get VRequestLine t = method @ '' '' @ uri @ '' '' @ httpVersion \<and>
    is_basename (single_Get VRequestFilename t) (single_Get VRequestBasename t)"
  unfolding ProcessURI_def Let_def
  by (auto split: sum.splits simp: ExtractGetArguments_singles basename_correct)

end
