(* ===== verification/Rules.thy ===== *)
theory Rules
  imports Tx_State Trans_Codec
begin

text \<open>
  Rules (\<open>internal/corazawaf/rule.go\<close>) and how the parser builds them: targets, exceptions, the
  operator, the transformations with their identifiers and the actions. Go embeds \<open>RuleMetadata\<close> in
  \<open>Rule\<close>; the record \<open>Rule\<close> extends it. The pointers \<open>Chain\<close> of a rule form a singly linked list: a
  rule with its chain is a pair of the rule and the list of the rules behind it. An operator is what
  its \<open>Evaluate\<close> does to a transaction, with \<open>None\<close> for a panic. The fields that only multiphase
  evaluation reads, which the default build disables, are left out.
\<close>

subsection \<open>Types\<close>

datatype ActionType =
    ActionTypeMetadata
  | ActionTypeDisruptive
  | ActionTypeData
  | ActionTypeNondisruptive
  | ActionTypeFlow

datatype ctlFunctionType =
    ctlUnknown
  | ctlRuleRemoveTargetByID
  | ctlRuleRemoveTargetByTag
  | ctlRuleRemoveTargetByMsg
  | ctlAuditEngine
  | ctlAuditLogParts
  | ctlForceRequestBodyVariable
  | ctlRequestBodyAccess
  | ctlRequestBodyLimit
  | ctlRuleEngine
  | ctlRuleRemoveByID
  | ctlRuleRemoveByMsg
  | ctlRuleRemoveByTag
  | ctlHashEngine
  | ctlHashEnforcement
  | ctlRequestBodyProcessor
  | ctlForceResponseBodyVariable
  | ctlResponseBodyProcessor
  | ctlResponseBodyAccess
  | ctlResponseBodyLimit
  | ctlDebugLogLevel

text \<open>
  The initialised actions with the fields that their \<open>Init\<close> stores. An action whose \<open>Evaluate\<close> is
  empty keeps its name only.
\<close>

datatype actionFn =
    allowFn AllowType
  | ctlFn ctlFunctionType string RuleVariable string
  | denyFn
  | dropFn
  | passFn
  | blockFn
  | redirectFn string
  | setenvFn string macro
  | setvarFn macro "macro option" RuleVariable bool
  | skipFn int
  | skipafterFn string
  | initcolFn string string
  | chainFn
  | statusFn
  | inertFn ActionType string

record ruleActionParams =
  act_Name :: string
  act_Function :: actionFn

type_synonym operator = "Transaction \<Rightarrow> string \<Rightarrow> (bool \<times> Transaction) option"

record ruleOperatorParams =
  op_Operator :: operator
  op_Function :: string
  op_Data :: string
  op_Negation :: bool

record Rule = RuleMetadata +
  r_variables :: "ruleVariableParams list"
  r_operator :: "ruleOperatorParams option"
  r_transformations :: "transformation list"
  r_transformationsID :: nat
  r_actions :: "ruleActionParams list"
  r_Capture :: bool
  r_DisruptiveStatus :: int
  r_Msg :: "macro option"
  r_LogData :: "macro option"
  r_Log :: bool
  r_Audit :: bool
  r_MultiMatch :: bool
  r_HasChain :: bool

type_synonym RuleNode = "Rule \<times> Rule list"

record WAF = WAFSettings +
  w_Rules :: "RuleNode list"

abbreviation (input) noID :: int where "noID \<equiv> 0"

definition NewRule :: Rule where
  "NewRule = \<lparr>ID = 0, LogID = [], File = [], Line = 0, Rev = [], Severity = 0, Version = [], Tags = [],
     Maturity = 0, Accuracy = 0, Operator = [], Phase = 2, Raw = [], SecMark = [], ParentID = 0,
     r_variables = [], r_operator = None, r_transformations = [], r_transformationsID = 0, r_actions = [],
     r_Capture = False, r_DisruptiveStatus = 0, r_Msg = None, r_LogData = None, r_Log = False,
     r_Audit = False, r_MultiMatch = False, r_HasChain = False\<rparr>"

subsection \<open>Building a rule\<close>

definition AddAction :: "string \<Rightarrow> actionFn \<Rightarrow> Rule \<Rightarrow> Rule" where
  "AddAction name action r = r\<lparr>r_actions := r_actions r @ [\<lparr>act_Name = name, act_Function = action\<rparr>]\<rparr>"

definition hasRegex :: "string \<Rightarrow> bool \<times> string" where
  "hasRegex key =
     (if length key > 2 \<and> key ! 0 = CHR ''/'' \<and> key ! (length key - 1) = CHR ''/''
      then (True, take (length key - 2) (drop 1 key)) else (False, key))"

definition caseSensitiveVariable :: "RuleVariable \<Rightarrow> bool" where
  "caseSensitiveVariable v = (v \<in> set [VArgs, VArgsNames, VArgsGet, VArgsPost, VArgsGetNames, VArgsPostNames])"

definition newRuleVariableParams :: "RuleVariable \<Rightarrow> string \<Rightarrow> regexp option \<Rightarrow> bool \<Rightarrow> ruleVariableParams" where
  "newRuleVariableParams v key re iscount =
     \<lparr>rv_Count = iscount, rv_Variable = v, rv_KeyRx = re,
      rv_KeyStr = (if \<not> caseSensitiveVariable v then to_lower key else key), rv_Exceptions = []\<rparr>"

text \<open>\<open>regexp.Compile\<close> is the argument \<open>rxc\<close>. The rule is not nil here.\<close>

definition compile_key :: "(string \<Rightarrow> go_error + regexp) \<Rightarrow> string \<Rightarrow> go_error + regexp option" where
  "compile_key rxc key = (case hasRegex key of
     (True, rx) \<Rightarrow> (case rxc rx of Inl err \<Rightarrow> Inl err | Inr re \<Rightarrow> Inr (Some re))
   | (False, _) \<Rightarrow> Inr None)"

definition AddVariable ::
  "(string \<Rightarrow> go_error + regexp) \<Rightarrow> RuleVariable \<Rightarrow> string \<Rightarrow> bool \<Rightarrow> Rule \<Rightarrow> go_error + Rule" where
  "AddVariable rxc v key iscount r = (case compile_key rxc key of
     Inl err \<Rightarrow> Inl err
   | Inr re \<Rightarrow> Inr (r\<lparr>r_variables := r_variables r @ [newRuleVariableParams v key re iscount]\<rparr>))"

definition AddVariableNegation ::
  "(string \<Rightarrow> go_error + regexp) \<Rightarrow> RuleVariable \<Rightarrow> string \<Rightarrow> Rule \<Rightarrow> go_error + Rule" where
  "AddVariableNegation rxc v key r = (case compile_key rxc key of
     Inl err \<Rightarrow> Inl err
   | Inr re \<Rightarrow> Inr (r\<lparr>r_variables := map (\<lambda>rv.
       if rv_Variable rv = v
       then rv\<lparr>rv_Exceptions := rv_Exceptions rv @ [\<lparr>ex_KeyStr = key, ex_KeyRx = re\<rparr>]\<rparr>
       else rv) (r_variables r)\<rparr>))"

text \<open>The global tables that give a list of transformation names its identifier.\<close>

record transformation_ids =
  IDToName :: "string list"
  NameToID :: "(string \<times> nat) list"

definition initial_ids :: transformation_ids where
  "initial_ids = \<lparr>IDToName = [[]], NameToID = [([], 0)]\<rparr>"

definition transformationID :: "nat \<Rightarrow> string \<Rightarrow> transformation_ids \<Rightarrow> (nat \<times> transformation_ids) option" where
  "transformationID currentID transformationName ids = do {
     currName \<leftarrow> at (IDToName ids) currentID;
     let nextName = currName @ ''+'' @ transformationName;
     Some (case map_of (NameToID ids) nextName of
       Some i \<Rightarrow> (i, ids)
     | None \<Rightarrow>
         let i = length (IDToName ids) in
         (i, \<lparr>IDToName = IDToName ids @ [nextName], NameToID = AList.update nextName i (NameToID ids)\<rparr>))
   }"

definition AddTransformation ::
  "string \<Rightarrow> transformation option \<Rightarrow> transformation_ids \<Rightarrow> Rule \<Rightarrow> (go_error + Rule \<times> transformation_ids) option" where
  "AddTransformation name t ids r = (case t of
     None \<Rightarrow> Some (Inl (''invalid transformation '' @ name @ '' not found''))
   | Some t \<Rightarrow>
       if name = [] then Some (Inl (''invalid transformation '' @ name @ '' not found''))
       else do {
         (i, ids) \<leftarrow> transformationID (r_transformationsID r) name ids;
         Some (Inr (r\<lparr>r_transformations := r_transformations r @ [t], r_transformationsID := i\<rparr>, ids))
       })"

definition ClearTransformations :: "Rule \<Rightarrow> Rule" where
  "ClearTransformations r = r\<lparr>r_transformations := []\<rparr>"

definition SetOperator :: "operator \<Rightarrow> string \<Rightarrow> string \<Rightarrow> Rule \<Rightarrow> Rule" where
  "SetOperator op functionName params r = r\<lparr>r_operator := Some
     \<lparr>op_Operator = op, op_Function = functionName, op_Data = params,
      op_Negation = (length functionName > 0 \<and> functionName ! 0 = CHR ''!'')\<rparr>\<rparr>"

subsection \<open>Identifiers of transformation lists\<close>

definition ids_ok :: "transformation_ids \<Rightarrow> bool" where
  "ids_ok ids = (IDToName ids \<noteq> [] \<and> IDToName ids ! 0 = [] \<and> distinct (IDToName ids) \<and>
     (\<forall>s i. map_of (NameToID ids) s = Some i \<longleftrightarrow> i < length (IDToName ids) \<and> IDToName ids ! i = s))"

text \<open>The identifier after a list of names was added, one after the other.\<close>

fun add_names :: "nat \<Rightarrow> string list \<Rightarrow> transformation_ids \<Rightarrow> (nat \<times> transformation_ids) option" where
  "add_names i [] ids = Some (i, ids)"
| "add_names i (n # ns) ids = Option.bind (transformationID i n ids) (\<lambda>(j, ids). add_names j ns ids)"

definition joined :: "string list \<Rightarrow> string" where
  "joined ns = concat (map (\<lambda>n. CHR ''+'' # n) ns)"

lemma joined_simps: "joined [] = []" "joined (n # ns) = CHR ''+'' # n @ joined ns"
  by (simp_all add: joined_def)

lemma ids_ok_initial: "ids_ok initial_ids"
  by (auto simp: ids_ok_def initial_ids_def)

lemma transformationID_correct:
  assumes "ids_ok ids" "cur < length (IDToName ids)"
  shows "\<exists>i ids'. transformationID cur n ids = Some (i, ids') \<and> ids_ok ids' \<and> prefix (IDToName ids) (IDToName ids') \<and>
    i < length (IDToName ids') \<and> IDToName ids' ! i = IDToName ids ! cur @ ''+'' @ n"
proof -
  let ?next = "IDToName ids ! cur @ ''+'' @ n"
  show ?thesis
  proof (cases "map_of (NameToID ids) ?next")
    case (Some i)
    then have "transformationID cur n ids = Some (i, ids)"
      using assms(2) by (simp add: transformationID_def Let_def)
    moreover from assms(1) Some have "i < length (IDToName ids) \<and> IDToName ids ! i = ?next"
      by (simp add: ids_ok_def)
    ultimately show ?thesis using assms(1) by blast
  next
    case None
    let ?k = "length (IDToName ids)"
    let ?ids = "\<lparr>IDToName = IDToName ids @ [?next], NameToID = AList.update ?next ?k (NameToID ids)\<rparr>"
    from assms None have fresh: "?next \<notin> set (IDToName ids)"
      by (metis ids_ok_def in_set_conv_nth option.distinct(1))
    then have "\<And>i. i < ?k \<Longrightarrow> IDToName ids ! i \<noteq> ?next" by (metis nth_mem)
    with assms(1) have "map_of (NameToID ?ids) s = Some i \<longleftrightarrow> i < length (IDToName ?ids) \<and> IDToName ?ids ! i = s" for s i
      by (auto simp: ids_ok_def update_conv' nth_append less_Suc_eq)
    with assms(1) fresh have "ids_ok ?ids"
      by (simp add: ids_ok_def nth_append)
    moreover have "transformationID cur n ids = Some (?k, ?ids)"
      using assms None by (simp add: transformationID_def Let_def)
    ultimately show ?thesis by auto
  qed
qed

lemma prefix_nth: "prefix xs ys \<Longrightarrow> i < length xs \<Longrightarrow> ys ! i = xs ! i"
  by (auto simp: prefix_def nth_append)

lemma add_names_correct:
  assumes "ids_ok ids" "cur < length (IDToName ids)"
  shows "\<exists>i ids'. add_names cur ns ids = Some (i, ids') \<and> ids_ok ids' \<and> prefix (IDToName ids) (IDToName ids') \<and>
    i < length (IDToName ids') \<and> IDToName ids' ! i = IDToName ids ! cur @ joined ns"
  using assms
proof (induction ns arbitrary: cur ids)
  case (Cons n ns)
  from transformationID_correct [OF Cons.prems, of n] obtain j ids1 where
    1: "transformationID cur n ids = Some (j, ids1)" "ids_ok ids1" "prefix (IDToName ids) (IDToName ids1)"
      "j < length (IDToName ids1)" "IDToName ids1 ! j = IDToName ids ! cur @ ''+'' @ n" by blast
  from Cons.IH [OF 1(2,4)] obtain i ids2 where
    "add_names j ns ids1 = Some (i, ids2)" "ids_ok ids2" "prefix (IDToName ids1) (IDToName ids2)"
    "i < length (IDToName ids2)" "IDToName ids2 ! i = IDToName ids1 ! j @ joined ns" by blast
  with 1 show ?case
    by (auto simp: joined_simps dest: prefix_order.trans)
qed (simp add: joined_simps)

lemma joined_head: "CHR ''+'' \<notin> set a \<Longrightarrow> takeWhile (\<lambda>c. c \<noteq> CHR ''+'') (a @ joined xs) = a"
proof (induction a)
  case Nil
  then show ?case by (cases xs) (simp_all add: joined_simps)
qed auto

lemma joined_inject:
  assumes "\<forall>n\<in>set ns. CHR ''+'' \<notin> set n" "\<forall>n\<in>set ms. CHR ''+'' \<notin> set n" "joined ns = joined ms"
  shows "ns = ms"
  using assms
proof (induction ns arbitrary: ms)
  case Nil
  then show ?case by (cases ms) (simp_all add: joined_simps)
next
  case (Cons n ns)
  from Cons.prems(3) obtain m ms' where ms: "ms = m # ms'" by (cases ms) (simp_all add: joined_simps)
  with Cons.prems(3) have eq: "n @ joined ns = m @ joined ms'" by (simp only: joined_simps list.inject)
  have "CHR ''+'' \<notin> set n" "CHR ''+'' \<notin> set m" using Cons.prems(1,2) ms by auto
  then have "n = m" using eq joined_head by metis
  with eq have "joined ns = joined ms'" by simp
  then have "ns = ms'" using Cons.IH Cons.prems(1,2) ms by simp
  with ms \<open>n = m\<close> show ?case by simp
qed

text \<open>
  Two rules built by adding transformations get the same identifier exactly when they have the
  same list of transformation names, so a cache keyed by the identifier does not confuse two
  different lists. Names with a \<open>+\<close> in them are excluded, as no built-in name has one.
\<close>

theorem transformation_ids_injective:
  assumes "ids_ok ids" "add_names 0 ns ids = Some (i, ids1)" "add_names 0 ms ids1 = Some (j, ids2)"
    "list_all (\<lambda>n. CHR ''+'' \<notin> set n) (ns @ ms)"
  shows "i = j \<longleftrightarrow> ns = ms"
proof -
  from assms(1) have "0 < length (IDToName ids)" "IDToName ids ! 0 = []"
    by (simp_all add: ids_ok_def)
  from add_names_correct [OF assms(1) this(1), of ns] assms(2) this(2)
  have 1: "ids_ok ids1" "i < length (IDToName ids1)" "IDToName ids1 ! i = joined ns" by auto
  then have "0 < length (IDToName ids1)" "IDToName ids1 ! 0 = []"
    by (simp_all add: ids_ok_def)
  from add_names_correct [OF 1(1) this(1), of ms] assms(3) this(2)
  have 2: "ids_ok ids2" "prefix (IDToName ids1) (IDToName ids2)" "j < length (IDToName ids2)"
    "IDToName ids2 ! j = joined ms" by auto
  have "i < length (IDToName ids2)" "IDToName ids2 ! i = joined ns"
    using 1 2(2) by (auto simp: prefix_nth dest: prefix_length_le)
  with 2 have "i = j \<longleftrightarrow> joined ns = joined ms"
    by (metis ids_ok_def nth_eq_iff_index_eq)
  also have "\<dots> \<longleftrightarrow> ns = ms"
    using joined_inject [of ns ms] assms(4) by (auto simp: list_all_iff)
  finally show ?thesis .
qed

theorem transformation_ids_injective_witness:
  "\<exists>i ids1 j ids2. add_names 0 [''lowercase'', ''urlDecode''] initial_ids = Some (i, ids1) \<and>
     add_names 0 [''urlDecode'', ''lowercase''] ids1 = Some (j, ids2) \<and> i \<noteq> j"
proof -
  obtain i ids1 where 1: "add_names 0 [''lowercase'', ''urlDecode''] initial_ids = Some (i, ids1)" "ids_ok ids1"
      "0 < length (IDToName ids1)"
    using add_names_correct [OF ids_ok_initial, of 0 "[''lowercase'', ''urlDecode'']"]
    by (auto simp: initial_ids_def ids_ok_def)
  obtain j ids2 where 2: "add_names 0 [''urlDecode'', ''lowercase''] ids1 = Some (j, ids2)"
    using add_names_correct [OF 1(2,3), of "[''urlDecode'', ''lowercase'']"] by auto
  show ?thesis
    using 1 2 transformation_ids_injective [OF ids_ok_initial 1(1) 2] by simp
qed

text \<open>
  \<open>t:none\<close> clears the transformations but not their identifier: a rule that starts over is given an
  identifier that no other rule with the same transformations has.
\<close>

lemma ClearTransformations_keeps_id:
  "r_transformationsID (ClearTransformations r) = r_transformationsID r \<and> r_transformations (ClearTransformations r) = []"
  by (simp add: ClearTransformations_def)

end
