(* ===== verification/Actions.thy ===== *)
theory Actions
  imports Rules
begin

text \<open>
  The actions of \<open>internal/actions\<close>: for each its \<open>Init\<close>, which parses the argument and may change the
  rule, its \<open>Type\<close> and its \<open>Evaluate\<close>. The registry \<open>actionmap\<close> finds an action by name. Shown are
  what every \<open>Init\<close> keeps of a rule, that only disruptive actions can interrupt a transaction and
  only with the engine on, and the arithmetic of \<open>setvar\<close>.
\<close>

definition ErrUnexpectedArguments :: go_error where
  "ErrUnexpectedArguments = ''unexpected arguments''"

definition ErrMissingArguments :: go_error where
  "ErrMissingArguments = ''missing arguments''"

definition ErrInvalidKVArguments :: go_error where
  "ErrInvalidKVArguments = ''invalid arguments, expected syntax {action}:{key}={value}''"

type_synonym action_init = "string \<Rightarrow> Rule \<Rightarrow> go_error + actionFn \<times> Rule"

subsection \<open>Init of the actions without arguments\<close>

definition no_argument :: "actionFn \<Rightarrow> (Rule \<Rightarrow> Rule) \<Rightarrow> action_init" where
  "no_argument a f d r = (if length d > 0 then Inl ErrUnexpectedArguments else Inr (a, f r))"

definition auditlog_Init :: action_init where
  "auditlog_Init = no_argument (inertFn ActionTypeNondisruptive ''auditlog'') (\<lambda>r. r\<lparr>r_Audit := True\<rparr>)"

definition block_Init :: action_init where
  "block_Init = no_argument blockFn (\<lambda>r. r)"

definition capture_Init :: action_init where
  "capture_Init = no_argument (inertFn ActionTypeNondisruptive ''capture'') (\<lambda>r. r\<lparr>r_Capture := True\<rparr>)"

definition chain_Init :: action_init where
  "chain_Init = no_argument chainFn (\<lambda>r. r\<lparr>r_HasChain := True\<rparr>)"

definition deny_Init :: action_init where
  "deny_Init = no_argument denyFn (\<lambda>r. r)"

definition drop_Init :: action_init where
  "drop_Init = no_argument dropFn (\<lambda>r. r)"

definition exec_Init :: action_init where
  "exec_Init = no_argument (inertFn ActionTypeNondisruptive ''exec'') (\<lambda>r. r)"

definition log_Init :: action_init where
  "log_Init = no_argument (inertFn ActionTypeNondisruptive ''log'') (\<lambda>r. r\<lparr>r_Log := True, r_Audit := True\<rparr>)"

definition multimatch_Init :: action_init where
  "multimatch_Init = no_argument (inertFn ActionTypeNondisruptive ''multimatch'') (\<lambda>r. r\<lparr>r_MultiMatch := True\<rparr>)"

definition noauditlog_Init :: action_init where
  "noauditlog_Init = no_argument (inertFn ActionTypeNondisruptive ''noauditlog'') (\<lambda>r. r\<lparr>r_Audit := False\<rparr>)"

definition nolog_Init :: action_init where
  "nolog_Init = no_argument (inertFn ActionTypeNondisruptive ''nolog'') (\<lambda>r. r\<lparr>r_Log := False, r_Audit := False\<rparr>)"

definition pass_Init :: action_init where
  "pass_Init = no_argument passFn (\<lambda>r. r)"

subsection \<open>Init of the actions with an argument\<close>

definition allow_Init :: action_init where
  "allow_Init d r =
     (if d = ''phase'' then Inr (allowFn AllowTypePhase, r)
      else if d = ''request'' then Inr (allowFn AllowTypeRequest, r)
      else if d = [] then Inr (allowFn AllowTypeAll, r)
      else Inl (''invalid argument '' @ d))"

definition expirevar_Init :: action_init where
  "expirevar_Init d r = Inr (inertFn ActionTypeNondisruptive ''expirevar'', r)"

definition id_Init :: action_init where
  "id_Init d r =
     (if length d = 0 then Inl ErrMissingArguments
      else case atoi d of
        (i, Some err) \<Rightarrow> Inl ''invalid syntax''
      | (i, None) \<Rightarrow>
          if i \<le> 0 then Inl (''invalid id argument, '' @ itoa i @ '' must be positive'')
          else Inr (inertFn ActionTypeMetadata ''id'', r\<lparr>ID := i, LogID := itoa i\<rparr>))"

definition initcol_Init :: action_init where
  "initcol_Init d r = (case str_cut d CHR ''='' of (col, key, ok) \<Rightarrow>
     if \<not> ok then Inl ErrInvalidKVArguments else Inr (initcolFn col key, r))"

definition logdata_Init :: action_init where
  "logdata_Init d r =
     (if length d = 0 then Inl ErrMissingArguments
      else case NewMacro d of
        Inl err \<Rightarrow> Inl err
      | Inr m \<Rightarrow> Inr (inertFn ActionTypeNondisruptive ''logdata'', r\<lparr>r_LogData := Some m\<rparr>))"

definition maturity_Init :: action_init where
  "maturity_Init d r = (case atoi d of
     (m, Some err) \<Rightarrow> Inl ''invalid syntax''
   | (m, None) \<Rightarrow>
       if m < 1 \<or> m > 9 then Inl (''invalid argument, '' @ itoa m @ '' should be between 1 and 9'')
       else Inr (inertFn ActionTypeMetadata ''maturity'', r\<lparr>Maturity := m\<rparr>))"

definition msg_Init :: action_init where
  "msg_Init d r =
     (let d = MaybeRemoveQuotes d in
      if length d = 0 then Inl ErrMissingArguments
      else case NewMacro d of
        Inl err \<Rightarrow> Inl err
      | Inr m \<Rightarrow> Inr (inertFn ActionTypeMetadata ''msg'', r\<lparr>r_Msg := Some m\<rparr>))"

definition phase_Init :: action_init where
  "phase_Init d r =
     (if length d = 0 then Inl ErrMissingArguments
      else case ParseRulePhase d of
        Inl err \<Rightarrow> Inl err
      | Inr p \<Rightarrow> Inr (inertFn ActionTypeMetadata ''phase'', r\<lparr>Phase := p\<rparr>))"

definition redirect_Init :: action_init where
  "redirect_Init d r = (if length d = 0 then Inl ErrMissingArguments else Inr (redirectFn d, r))"

definition rev_Init :: action_init where
  "rev_Init d r = (if length d = 0 then Inl ErrMissingArguments
     else Inr (inertFn ActionTypeMetadata ''rev'', r\<lparr>Rev := d\<rparr>))"

definition setenv_Init :: action_init where
  "setenv_Init d r =
     (if length d = 0 then Inl ErrMissingArguments
      else case str_cut d CHR ''='' of (key, val, ok) \<Rightarrow>
        if \<not> ok then Inl ErrInvalidKVArguments
        else if length key = 0 then Inl ''missing env key''
        else if length val = 0 then Inl ''missing env value''
        else case NewMacro val of
          Inl err \<Rightarrow> Inl err
        | Inr m \<Rightarrow> Inr (setenvFn key m, r))"

definition setvar_Init :: action_init where
  "setvar_Init d r =
     (if length d = 0 then Inl ErrMissingArguments
      else let isRemove = (hd d = CHR ''!''); d = (if isRemove then tl d else d) in
        case str_cut d CHR ''='' of (key, val, valOk) \<Rightarrow>
        case str_cut key CHR ''.'' of (colKey, colVal, colOk) \<Rightarrow>
          if to_upper colKey \<noteq> ''TX'' then Inl ''invalid arguments, expected collection TX''
          else if trim_space colVal = [] then Inl ''invalid arguments, expected syntax TX.{key}={value}''
          else case Parse colKey of
            Inl err \<Rightarrow> Inl err
          | Inr col \<Rightarrow> (case NewMacro colVal of
              Inl err \<Rightarrow> Inl err
            | Inr k \<Rightarrow>
                if \<not> valOk then Inr (setvarFn k None col isRemove, r)
                else case NewMacro val of
                  Inl err \<Rightarrow> Inl err
                | Inr v \<Rightarrow> Inr (setvarFn k (Some v) col isRemove, r)))"

definition severity_Init :: action_init where
  "severity_Init d r =
     (if length d = 0 then Inl ErrMissingArguments
      else case ParseRuleSeverity d of
        (sev, Some err) \<Rightarrow> Inl err
      | (sev, None) \<Rightarrow> Inr (inertFn ActionTypeMetadata ''severity'', r\<lparr>Severity := sev\<rparr>))"

definition skip_Init :: action_init where
  "skip_Init d r =
     (if length d = 0 then Inl ErrMissingArguments
      else case atoi d of
        (i, Some err) \<Rightarrow> Inl ''invalid syntax''
      | (i, None) \<Rightarrow>
          if i < 1 then Inl (''invalid argument, '' @ itoa i @ '' must be greater than 1'')
          else Inr (skipFn i, r))"

definition skipafter_Init :: action_init where
  "skipafter_Init d r =
     (let d = MaybeRemoveQuotes d in
      if length d = 0 then Inl ErrMissingArguments else Inr (skipafterFn d, r))"

definition status_Init :: action_init where
  "status_Init d r =
     (if length d = 0 then Inl ErrMissingArguments
      else case atoi d of
        (status, Some err) \<Rightarrow> Inl ''invalid argument: invalid syntax''
      | (status, None) \<Rightarrow> Inr (statusFn, r\<lparr>r_DisruptiveStatus := status\<rparr>))"

definition tag_Init :: action_init where
  "tag_Init d r = (if length d = 0 then Inl ErrMissingArguments
     else Inr (inertFn ActionTypeMetadata ''tag'', r\<lparr>Tags := Tags r @ [d]\<rparr>))"

definition ver_Init :: action_init where
  "ver_Init d r = (if length d = 0 then Inl ErrMissingArguments
     else Inr (inertFn ActionTypeMetadata ''ver'', r\<lparr>Version := d\<rparr>))"

definition ctl_names :: "(string \<times> ctlFunctionType) list" where
  "ctl_names = [(''auditEngine'', ctlAuditEngine), (''auditLogParts'', ctlAuditLogParts),
     (''requestBodyAccess'', ctlRequestBodyAccess), (''requestBodyLimit'', ctlRequestBodyLimit),
     (''requestBodyProcessor'', ctlRequestBodyProcessor),
     (''forceRequestBodyVariable'', ctlForceRequestBodyVariable),
     (''responseBodyProcessor'', ctlResponseBodyProcessor), (''responseBodyAccess'', ctlResponseBodyAccess),
     (''responseBodyLimit'', ctlResponseBodyLimit),
     (''forceResponseBodyVariable'', ctlForceResponseBodyVariable), (''ruleEngine'', ctlRuleEngine),
     (''ruleRemoveById'', ctlRuleRemoveByID), (''ruleRemoveByMsg'', ctlRuleRemoveByMsg),
     (''ruleRemoveByTag'', ctlRuleRemoveByTag), (''ruleRemoveTargetById'', ctlRuleRemoveTargetByID),
     (''ruleRemoveTargetByMsg'', ctlRuleRemoveTargetByMsg),
     (''ruleRemoveTargetByTag'', ctlRuleRemoveTargetByTag), (''hashEngine'', ctlHashEngine),
     (''hashEnforcement'', ctlHashEnforcement), (''debugLogLevel'', ctlDebugLogLevel)]"

definition parseCtl :: "string \<Rightarrow> go_error + ctlFunctionType \<times> string \<times> RuleVariable \<times> string" where
  "parseCtl d = (case str_cut d CHR ''='' of (action, ctlVal, ok) \<Rightarrow>
     if \<not> ok then Inl ''invalid syntax''
     else case str_cut ctlVal CHR '';'' of (val, col, ok) \<Rightarrow>
       case (if ok then str_cut col CHR '':'' else ([], [], False)) of (colname, colkey, _) \<Rightarrow>
         let collection = (case Parse (trim_space colname) of Inl err \<Rightarrow> VUnknown | Inr v \<Rightarrow> v);
             colkey = to_lower colkey in
         case map_of ctl_names action of
           Some act \<Rightarrow> Inr (act, val, collection, trim_space colkey)
         | None \<Rightarrow> Inl (''unknown ctl action '' @ action))"

definition ctl_Init :: action_init where
  "ctl_Init d r = (case parseCtl d of
     Inl err \<Rightarrow> Inl err
   | Inr (act, val, col, key) \<Rightarrow> Inr (ctlFn act val col key, r))"

text \<open>The action \<open>t\<close> reads the registry of transformations and the table of their identifiers.\<close>

definition t_Init ::
  "registry \<Rightarrow> string \<Rightarrow> transformation_ids \<Rightarrow> Rule \<Rightarrow> (go_error + actionFn \<times> Rule \<times> transformation_ids) option" where
  "t_Init reg d ids r =
     (let a = inertFn ActionTypeNondisruptive ''t'' in
      if d = ''none'' then Some (Inr (a, ClearTransformations r, ids))
      else case GetTransformation reg d of
        Inl err \<Rightarrow> Some (Inl err)
      | Inr tt \<Rightarrow> map_option (\<lambda>res. case res of Inl err \<Rightarrow> Inl err | Inr (r, ids) \<Rightarrow> Inr (a, r, ids))
          (AddTransformation d (Some tt) ids r))"

subsection \<open>The registry\<close>

definition actionmap :: "(string \<times> action_init) list" where
  "actionmap = [(''allow'', allow_Init), (''auditlog'', auditlog_Init), (''block'', block_Init),
     (''capture'', capture_Init), (''chain'', chain_Init), (''ctl'', ctl_Init), (''deny'', deny_Init),
     (''drop'', drop_Init), (''exec'', exec_Init), (''expirevar'', expirevar_Init), (''id'', id_Init),
     (''initcol'', initcol_Init), (''log'', log_Init), (''logdata'', logdata_Init),
     (''maturity'', maturity_Init), (''msg'', msg_Init), (''multimatch'', multimatch_Init),
     (''noauditlog'', noauditlog_Init), (''nolog'', nolog_Init), (''pass'', pass_Init),
     (''phase'', phase_Init), (''redirect'', redirect_Init), (''rev'', rev_Init), (''setenv'', setenv_Init),
     (''setvar'', setvar_Init), (''severity'', severity_Init), (''skip'', skip_Init),
     (''skipafter'', skipafter_Init), (''status'', status_Init), (''tag'', tag_Init), (''ver'', ver_Init)]"

text \<open>\<open>Get\<close> followed by \<open>Init\<close>, as the rule parser calls them.\<close>

definition init_action ::
  "registry \<Rightarrow> string \<Rightarrow> string \<Rightarrow> transformation_ids \<Rightarrow> Rule \<Rightarrow> (go_error + actionFn \<times> Rule \<times> transformation_ids) option" where
  "init_action reg name d ids r =
     (let name = to_lower name in
      if name = ''t'' then t_Init reg d ids r
      else case map_of actionmap name of
        None \<Rightarrow> Some (Inl (''invalid action '' @ name))
      | Some init \<Rightarrow> Some (case init d r of Inl err \<Rightarrow> Inl err | Inr (a, r) \<Rightarrow> Inr (a, r, ids)))"

subsection \<open>Type and Evaluate\<close>

fun action_Type :: "actionFn \<Rightarrow> ActionType" where
  "action_Type (allowFn a) = ActionTypeDisruptive"
| "action_Type (ctlFn a v c k) = ActionTypeNondisruptive"
| "action_Type denyFn = ActionTypeDisruptive"
| "action_Type dropFn = ActionTypeDisruptive"
| "action_Type passFn = ActionTypeDisruptive"
| "action_Type blockFn = ActionTypeDisruptive"
| "action_Type (redirectFn s) = ActionTypeDisruptive"
| "action_Type (setenvFn k v) = ActionTypeNondisruptive"
| "action_Type (setvarFn k v c b) = ActionTypeNondisruptive"
| "action_Type (skipFn n) = ActionTypeFlow"
| "action_Type (skipafterFn s) = ActionTypeFlow"
| "action_Type (initcolFn c k) = ActionTypeNondisruptive"
| "action_Type chainFn = ActionTypeFlow"
| "action_Type statusFn = ActionTypeData"
| "action_Type (inertFn ty n) = ty"

definition rule_or_parent :: "Rule \<Rightarrow> int" where
  "rule_or_parent r = (if ID r = noID then ParentID r else ID r)"

definition deny_Evaluate :: "Rule \<Rightarrow> Transaction \<Rightarrow> Transaction" where
  "deny_Evaluate r = Interrupt \<lparr>int_RuleID = rule_or_parent r, int_Action = ''deny'',
     int_Status = (if r_DisruptiveStatus r = 0 then 403 else r_DisruptiveStatus r), int_Data = []\<rparr>"

definition drop_Evaluate :: "Rule \<Rightarrow> Transaction \<Rightarrow> Transaction" where
  "drop_Evaluate r = Interrupt \<lparr>int_RuleID = rule_or_parent r, int_Action = ''drop'',
     int_Status = r_DisruptiveStatus r, int_Data = []\<rparr>"

definition redirect_Evaluate :: "string \<Rightarrow> Rule \<Rightarrow> Transaction \<Rightarrow> Transaction" where
  "redirect_Evaluate target r = Interrupt \<lparr>int_RuleID = rule_or_parent r, int_Action = ''redirect'',
     int_Status = (if r_DisruptiveStatus r \<in> {301, 302, 303, 307} then r_DisruptiveStatus r else 302),
     int_Data = target\<rparr>"

definition setenv_Evaluate :: "string \<Rightarrow> macro \<Rightarrow> Transaction \<Rightarrow> Transaction option" where
  "setenv_Evaluate key m tx = do {
     v \<leftarrow> Expand (Collection tx) m;
     Some (map_put VEnv (map_Set key [v] (map_of_var VEnv tx)) tx)
   }"

text \<open>The write of \<open>setvar\<close> to its collection, with Go's wrapping addition.\<close>

definition evaluateTxCollection :: "bool \<Rightarrow> string \<Rightarrow> string \<Rightarrow> Map \<Rightarrow> Map" where
  "evaluateTxCollection isRemove key val col =
     (if isRemove then map_Remove key col
      else let currentVal = (case map_Get col key of x # _ \<Rightarrow> x | [] \<Rightarrow> []) in
        if length val = 0 then map_Set key [[]] col
        else if hd val = CHR ''+'' \<or> hd val = CHR ''-'' then
          (case (if length val > 1 then atoi (tl val) else (0, None)) of
             (n, Some err) \<Rightarrow> if has_prefix (tl val) ''tx.'' then col else map_Set key [val] col
           | (n, None) \<Rightarrow>
               (case (if currentVal \<noteq> [] then atoi currentVal else (0, None)) of
                  (c, Some err) \<Rightarrow> col
                | (c, None) \<Rightarrow>
                    map_Set key [itoa (wrap64 (if hd val = CHR ''+'' then c + n else c - n))] col))
        else map_Set key [val] col)"

text \<open>\<open>XML\<close> is the same collection object as \<open>REQUEST_XML\<close>.\<close>

definition alias_of :: "RuleVariable \<Rightarrow> RuleVariable" where
  "alias_of v = (if v = VXML then VRequestXML else v)"

definition setvar_put :: "RuleVariable \<Rightarrow> bool \<Rightarrow> string \<Rightarrow> string \<Rightarrow> Transaction \<Rightarrow> Transaction" where
  "setvar_put col isRemove key val tx = (case Collection tx col of
     Some (CMap c) \<Rightarrow> map_put (alias_of col) (evaluateTxCollection isRemove key val c) tx
   | _ \<Rightarrow> tx)"

text \<open>The value macro is nil when the argument has no \<open>=\<close>, and expanding it panics.\<close>

definition setvar_Evaluate :: "macro \<Rightarrow> macro option \<Rightarrow> RuleVariable \<Rightarrow> bool \<Rightarrow> Transaction \<Rightarrow> Transaction option" where
  "setvar_Evaluate k v col isRemove tx = do {
     key \<leftarrow> Expand (Collection tx) k;
     m \<leftarrow> v;
     val \<leftarrow> Expand (Collection tx) m;
     Some (setvar_put col isRemove (to_lower key) val tx)
   }"

definition parseOnOff :: "string \<Rightarrow> bool option" where
  "parseOnOff s = (let val = to_lower s in
     if val = ''on'' then Some True else if val = ''off'' then Some False else None)"

definition parse_range :: "string \<Rightarrow> go_error + int \<times> int" where
  "parse_range input =
     (if length input = 0 then Inl ''empty input''
      else case str_cut input CHR ''-'' of (in0, in1, ok) \<Rightarrow>
        if ok then
          (case atoi in0 of
             (start, Some err) \<Rightarrow> Inl ''invalid syntax''
           | (start, None) \<Rightarrow> (case atoi in1 of
               (end, Some err) \<Rightarrow> Inl ''invalid syntax''
             | (end, None) \<Rightarrow>
                 if start > end then Inl ''invalid range, start > end'' else Inr (start, end)))
        else (case atoi input of
           (i, Some err) \<Rightarrow> Inl ''invalid syntax''
         | (i, None) \<Rightarrow> Inr (i, i)))"

definition rangeToInts :: "RuleNode list \<Rightarrow> string \<Rightarrow> go_error + int list" where
  "rangeToInts rules input = (case parse_range input of
     Inl err \<Rightarrow> Inl err
   | Inr (start, end) \<Rightarrow> Inr (filter (\<lambda>i. i \<ge> start \<and> i \<le> end) (map (ID \<circ> fst) rules)))"

definition has_msg :: "string \<Rightarrow> RuleNode \<Rightarrow> bool" where
  "has_msg s n = (case r_Msg (fst n) of Some m \<Rightarrow> macro_String m = s | None \<Rightarrow> False)"

definition ids_where :: "(RuleNode \<Rightarrow> bool) \<Rightarrow> RuleNode list \<Rightarrow> int list" where
  "ids_where P rules = map (ID \<circ> fst) (filter P rules)"

definition on_off :: "string \<Rightarrow> (bool \<Rightarrow> Transaction \<Rightarrow> Transaction) \<Rightarrow> Transaction \<Rightarrow> Transaction" where
  "on_off s f tx = (case parseOnOff s of Some b \<Rightarrow> f b tx | None \<Rightarrow> tx)"

text \<open>\<open>ParseInt(s, 10, 64)\<close> accepts what \<open>Atoi\<close> accepts. The debug level only reaches the logger.\<close>

fun ctl_Evaluate ::
  "RuleNode list \<Rightarrow> ctlFunctionType \<Rightarrow> string \<Rightarrow> RuleVariable \<Rightarrow> string \<Rightarrow> Transaction \<Rightarrow> Transaction option" where
  "ctl_Evaluate rules ctlRuleRemoveTargetByID s col key tx = Some (case rangeToInts rules s of
     Inl err \<Rightarrow> tx
   | Inr rng \<Rightarrow> fold (\<lambda>i. RemoveRuleTargetByID i col key) rng tx)"
| "ctl_Evaluate rules ctlRuleRemoveTargetByTag s col key tx =
     Some (fold (\<lambda>i. RemoveRuleTargetByID i col key) (ids_where (\<lambda>n. InSlice s (Tags (fst n))) rules) tx)"
| "ctl_Evaluate rules ctlRuleRemoveTargetByMsg s col key tx =
     Some (fold (\<lambda>i. RemoveRuleTargetByID i col key) (ids_where (has_msg s) rules) tx)"
| "ctl_Evaluate rules ctlAuditEngine s col key tx = Some (case ParseAuditEngineStatus s of
     Inl err \<Rightarrow> tx
   | Inr ae \<Rightarrow> tx\<lparr>tx_AuditEngine := ae\<rparr>)"
| "ctl_Evaluate rules ctlAuditLogParts s col key tx =
     Option.bind (ParseAuditLogParts s) (\<lambda>res. Some (case res of
       Inl err \<Rightarrow> tx
     | Inr ps \<Rightarrow> tx\<lparr>tx_AuditLogParts := ps\<rparr>))"
| "ctl_Evaluate rules ctlForceRequestBodyVariable s col key tx =
     Some (on_off s (\<lambda>b tx. tx\<lparr>tx_ForceRequestBodyVariable := b\<rparr>) tx)"
| "ctl_Evaluate rules ctlRequestBodyAccess s col key tx =
     Some (if tx_lastPhase tx \<le> PhaseRequestHeaders
           then on_off s (\<lambda>b tx. tx\<lparr>tx_RequestBodyAccess := b\<rparr>) tx else tx)"
| "ctl_Evaluate rules ctlRequestBodyLimit s col key tx =
     Some (if tx_lastPhase tx \<le> PhaseRequestHeaders then
             (case atoi s of (l, None) \<Rightarrow> tx\<lparr>tx_RequestBodyLimit := l\<rparr> | (l, Some err) \<Rightarrow> tx) else tx)"
| "ctl_Evaluate rules ctlRequestBodyProcessor s col key tx =
     Some (if tx_lastPhase tx \<le> PhaseRequestHeaders then single_Set VReqbodyProcessor (to_upper s) tx else tx)"
| "ctl_Evaluate rules ctlRuleEngine s col key tx = Some (case ParseRuleEngineStatus s of
     Inl err \<Rightarrow> tx
   | Inr re \<Rightarrow> tx\<lparr>tx_RuleEngine := re\<rparr>)"
| "ctl_Evaluate rules ctlRuleRemoveByID s col key tx =
     Some (if index_byte s CHR ''-'' = None then
             (case atoi s of (i, None) \<Rightarrow> RemoveRuleByID i tx | (i, Some err) \<Rightarrow> tx)
           else (case rangeToInts rules s of
             Inl err \<Rightarrow> tx
           | Inr rng \<Rightarrow> fold RemoveRuleByID rng tx))"
| "ctl_Evaluate rules ctlRuleRemoveByMsg s col key tx =
     Some (fold RemoveRuleByID (ids_where (has_msg s) rules) tx)"
| "ctl_Evaluate rules ctlRuleRemoveByTag s col key tx =
     Some (fold RemoveRuleByID (ids_where (\<lambda>n. InSlice s (Tags (fst n))) rules) tx)"
| "ctl_Evaluate rules ctlResponseBodyAccess s col key tx =
     Some (if tx_lastPhase tx \<le> PhaseResponseHeaders
           then on_off s (\<lambda>b tx. tx\<lparr>tx_ResponseBodyAccess := b\<rparr>) tx else tx)"
| "ctl_Evaluate rules ctlResponseBodyLimit s col key tx =
     Some (if tx_lastPhase tx \<le> PhaseResponseHeaders then
             (case atoi s of (l, None) \<Rightarrow> tx\<lparr>tx_ResponseBodyLimit := l\<rparr> | (l, Some err) \<Rightarrow> tx) else tx)"
| "ctl_Evaluate rules ctlForceResponseBodyVariable s col key tx =
     Some (on_off s (\<lambda>b tx. tx\<lparr>tx_ForceResponseBodyVariable := b\<rparr>) tx)"
| "ctl_Evaluate rules ctlResponseBodyProcessor s col key tx =
     Some (if tx_lastPhase tx \<le> PhaseResponseHeaders then single_Set VResBodyProcessor (to_upper s) tx else tx)"
| "ctl_Evaluate rules ctlHashEngine s col key tx = Some tx"
| "ctl_Evaluate rules ctlHashEnforcement s col key tx = Some tx"
| "ctl_Evaluate rules ctlDebugLogLevel s col key tx = Some tx"
| "ctl_Evaluate rules ctlUnknown s col key tx = Some tx"

fun action_Evaluate :: "RuleNode list \<Rightarrow> Rule \<Rightarrow> actionFn \<Rightarrow> Transaction \<Rightarrow> Transaction option" where
  "action_Evaluate rules r (allowFn a) tx = Some (tx\<lparr>tx_AllowType := a\<rparr>)"
| "action_Evaluate rules r (ctlFn a s col key) tx = ctl_Evaluate rules a s col key tx"
| "action_Evaluate rules r denyFn tx = Some (deny_Evaluate r tx)"
| "action_Evaluate rules r dropFn tx = Some (drop_Evaluate r tx)"
| "action_Evaluate rules r (redirectFn target) tx = Some (redirect_Evaluate target r tx)"
| "action_Evaluate rules r (setenvFn k v) tx = setenv_Evaluate k v tx"
| "action_Evaluate rules r (setvarFn k v col isRemove) tx = setvar_Evaluate k v col isRemove tx"
| "action_Evaluate rules r (skipFn n) tx = Some (tx\<lparr>tx_Skip := n\<rparr>)"
| "action_Evaluate rules r (skipafterFn s) tx = Some (tx\<lparr>tx_SkipAfter := s\<rparr>)"
| "action_Evaluate rules r _ tx = Some tx"

subsection \<open>What Init keeps of a rule\<close>

definition rule_ok :: "transformation_ids \<Rightarrow> Rule \<Rightarrow> bool" where
  "rule_ok ids r = (ids_ok ids \<and> r_transformationsID r < length (IDToName ids) \<and>
     0 \<le> ID r \<and> 1 \<le> Phase r \<and> Phase r \<le> 5 \<and> 0 \<le> Severity r \<and> Severity r \<le> 7 \<and>
     0 \<le> Maturity r \<and> Maturity r \<le> 9)"

lemma rule_ok_NewRule: "rule_ok initial_ids NewRule"
  using ids_ok_initial by (simp add: rule_ok_def NewRule_def initial_ids_def)

lemmas init_defs = auditlog_Init_def block_Init_def capture_Init_def chain_Init_def deny_Init_def
  drop_Init_def exec_Init_def log_Init_def multimatch_Init_def noauditlog_Init_def nolog_Init_def
  pass_Init_def no_argument_def allow_Init_def expirevar_Init_def initcol_Init_def
  logdata_Init_def msg_Init_def redirect_Init_def rev_Init_def setenv_Init_def setvar_Init_def
  skip_Init_def skipafter_Init_def status_Init_def tag_Init_def ver_Init_def ctl_Init_def

text \<open>An \<open>Init\<close> that leaves the fields of the invariant alone, or sets one of them within its range.\<close>

definition keeps_ok :: "action_init \<Rightarrow> bool" where
  "keeps_ok init = (\<forall>ids d r a r'. rule_ok ids r \<longrightarrow> init d r = Inr (a, r') \<longrightarrow> rule_ok ids r')"

lemma keeps_ok_simple:
  "keeps_ok auditlog_Init" "keeps_ok block_Init" "keeps_ok capture_Init" "keeps_ok chain_Init"
  "keeps_ok deny_Init" "keeps_ok drop_Init" "keeps_ok exec_Init" "keeps_ok log_Init"
  "keeps_ok multimatch_Init" "keeps_ok noauditlog_Init" "keeps_ok nolog_Init" "keeps_ok pass_Init"
  "keeps_ok allow_Init" "keeps_ok expirevar_Init" "keeps_ok initcol_Init" "keeps_ok redirect_Init"
  "keeps_ok rev_Init" "keeps_ok skipafter_Init" "keeps_ok tag_Init" "keeps_ok ver_Init"
  by (auto simp: keeps_ok_def init_defs rule_ok_def Let_def split: if_splits prod.splits)

lemma keeps_ok_parsed:
  "keeps_ok logdata_Init" "keeps_ok msg_Init" "keeps_ok setenv_Init" "keeps_ok skip_Init"
  "keeps_ok status_Init" "keeps_ok ctl_Init"
  by (auto simp: keeps_ok_def init_defs rule_ok_def Let_def
      split: if_splits prod.splits sum.splits option.splits)

lemma keeps_ok_setvar: "keeps_ok setvar_Init"
  by (auto simp: keeps_ok_def setvar_Init_def Let_def split: if_splits prod.splits sum.splits)

lemma keeps_ok_ranges:
  "keeps_ok id_Init" "keeps_ok maturity_Init" "keeps_ok phase_Init" "keeps_ok severity_Init"
proof -
  show "keeps_ok id_Init" "keeps_ok maturity_Init"
    by (auto simp: keeps_ok_def id_Init_def maturity_Init_def rule_ok_def split: if_splits prod.splits option.splits)
  show "keeps_ok phase_Init"
    by (auto simp: keeps_ok_def phase_Init_def rule_ok_def split: if_splits sum.splits
        dest: ParseRulePhase_range)
  have "ParseRuleSeverity d = (s, e) \<Longrightarrow> 0 \<le> s \<and> s \<le> 7" for d s e
    using ParseRuleSeverity_range [of d] by simp
  then show "keeps_ok severity_Init"
    by (auto simp: keeps_ok_def severity_Init_def rule_ok_def split: if_splits prod.splits option.splits)
qed

lemma actionmap_keeps_ok: "list_all (\<lambda>(n, init). keeps_ok init) actionmap"
  by (simp add: actionmap_def keeps_ok_simple keeps_ok_parsed keeps_ok_setvar keeps_ok_ranges)

lemma t_Init_ok:
  assumes "rule_ok ids r"
  shows "\<exists>res. t_Init reg d ids r = Some res \<and> (\<forall>a r' ids'. res = Inr (a, r', ids') \<longrightarrow> rule_ok ids' r')"
proof -
  from assms have "ids_ok ids" "r_transformationsID r < length (IDToName ids)"
    by (simp_all add: rule_ok_def)
  from transformationID_correct [OF this, of d] obtain i ids' where
    "transformationID (r_transformationsID r) d ids = Some (i, ids')" "ids_ok ids'" "i < length (IDToName ids')"
    by blast
  with assms show ?thesis
    by (auto simp: t_Init_def Let_def AddTransformation_def ClearTransformations_def rule_ok_def split: sum.splits)
qed

text \<open>
  Initialising any built-in action on a well-formed rule never panics, and a rule that it
  returns is well formed again: its id is not negative, its phase between 1 and 5, its severity
  between 0 and 7, its maturity at most 9 and its transformation identifier known.
\<close>

theorem init_action_ok:
  assumes "rule_ok ids r"
  shows "\<exists>res. init_action reg name d ids r = Some res \<and> (\<forall>a r' ids'. res = Inr (a, r', ids') \<longrightarrow> rule_ok ids' r')"
proof (cases "to_lower name = ''t'' \<or> map_of actionmap (to_lower name) = None")
  case True
  then show ?thesis
    using t_Init_ok [OF assms, of reg d] by (auto simp: init_action_def Let_def)
next
  case False
  then obtain init where init: "map_of actionmap (to_lower name) = Some init" by blast
  then have "keeps_ok init"
    using actionmap_keeps_ok by (auto simp: list_all_iff dest: map_of_SomeD)
  with init False assms show ?thesis
    by (auto simp: init_action_def Let_def keeps_ok_def split: sum.splits prod.splits)
qed

theorem init_action_ok_witness:
  "\<exists>res. init_action [] ''Severity'' ''critical'' initial_ids NewRule = Some res \<and>
     (\<forall>a r' ids'. res = Inr (a, r', ids') \<longrightarrow> rule_ok ids' r')"
  using init_action_ok [OF rule_ok_NewRule] by blast

subsection \<open>What Evaluate changes\<close>

lemma fold_RemoveRuleByID:
  "fold RemoveRuleByID is tx = tx\<lparr>tx_ruleRemoveByID := tx_ruleRemoveByID tx @ is\<rparr>"
  by (induction "is" arbitrary: tx) (simp_all add: RemoveRuleByID_def)

lemma fold_RemoveRuleTargetByID:
  "fold (\<lambda>i. RemoveRuleTargetByID i col key) is tx = tx\<lparr>tx_ruleRemoveTargetByID :=
     fold (\<lambda>i f. f(i := f i @ [\<lparr>rv_Count = False, rv_Variable = col, rv_KeyRx = None, rv_KeyStr = key,
       rv_Exceptions = []\<rparr>])) is (tx_ruleRemoveTargetByID tx)\<rparr>"
  by (induction "is" arbitrary: tx) (simp_all add: RemoveRuleTargetByID_def Let_def)

text \<open>The part of a transaction that no action and no operator changes.\<close>

definition same_core :: "Transaction \<Rightarrow> Transaction \<Rightarrow> bool" where
  "same_core tx tx' = (tx_id tx' = tx_id tx \<and> tx_matchedRules tx' = tx_matchedRules tx \<and>
     tx_lastPhase tx' = tx_lastPhase tx \<and> tx_requestBodyBuffer tx' = tx_requestBodyBuffer tx \<and>
     tx_responseBodyBuffer tx' = tx_responseBodyBuffer tx \<and> tx_Capture tx' = tx_Capture tx \<and>
     tx_audit tx' = tx_audit tx \<and> tx_transformationCache tx' = tx_transformationCache tx \<and>
     prefix (tx_ruleRemoveByID tx) (tx_ruleRemoveByID tx') \<and>
     (vars_ok (tx_variables tx) \<longrightarrow> vars_ok (tx_variables tx')))"

lemma same_core_refl [simp]: "same_core tx tx"
  by (simp add: same_core_def)

lemma same_core_trans: "same_core a b \<Longrightarrow> same_core b c \<Longrightarrow> same_core a c"
  by (auto simp: same_core_def)

lemma evaluateTxCollection_config:
  "map_variable (evaluateTxCollection b k v c) = map_variable c"
  "isCaseSensitive (evaluateTxCollection b k v c) = isCaseSensitive c"
  by (auto simp: evaluateTxCollection_def Let_def split: prod.splits option.splits)

lemma evaluateTxCollection_ok: "map_ok c \<Longrightarrow> map_ok (evaluateTxCollection b k v c)"
  by (auto simp: evaluateTxCollection_def Let_def map_ok_preserved split: prod.splits option.splits)

lemma Collection_CMap: "Collection tx v = Some (CMap c) \<Longrightarrow> c = map_of_var (alias_of v) tx"
  by (auto simp: Collection_def Let_def map_of_var_def alias_of_def map_vars_def split: if_splits)

lemma setvar_put_cases:
  "setvar_put col b key val tx = tx \<or> setvar_put col b key val tx =
     map_put (alias_of col) (evaluateTxCollection b key val (map_of_var (alias_of col) tx)) tx"
proof (cases "\<exists>c. Collection tx col = Some (CMap c)")
  case True
  then show ?thesis by (auto simp: setvar_put_def dest: Collection_CMap)
next
  case False
  then show ?thesis by (auto simp: setvar_put_def split: option.splits collection.splits)
qed

lemma same_core_setvar_put: "same_core tx (setvar_put col b key val tx)"
  using setvar_put_cases [of col b key val tx]
  by (auto simp: same_core_def vars_ok_var evaluateTxCollection_config evaluateTxCollection_ok
      intro!: vars_ok_map_put)

lemma setvar_frame: "setvar_Evaluate k v col b tx = Some tx' \<Longrightarrow> same_core tx tx'"
  by (auto simp: setvar_Evaluate_def bind_eq_Some_conv same_core_setvar_put)

lemma setenv_frame: "setenv_Evaluate k m tx = Some tx' \<Longrightarrow> same_core tx tx'"
  by (auto simp: setenv_Evaluate_def same_core_def bind_eq_Some_conv vars_ok_updates)

text \<open>An update that leaves the flow of the rules alone.\<close>

definition quiet :: "Transaction \<Rightarrow> Transaction \<Rightarrow> bool" where
  "quiet tx tx' = (same_core tx tx' \<and> tx_interruption tx' = tx_interruption tx \<and>
     tx_AllowType tx' = tx_AllowType tx \<and> tx_Skip tx' = tx_Skip tx \<and> tx_SkipAfter tx' = tx_SkipAfter tx)"

lemma quiet_updates [simp]:
  "quiet tx tx" "quiet tx (tx\<lparr>tx_AuditEngine := ae\<rparr>)" "quiet tx (tx\<lparr>tx_AuditLogParts := ps\<rparr>)"
  "quiet tx (tx\<lparr>tx_ForceRequestBodyVariable := b\<rparr>)" "quiet tx (tx\<lparr>tx_RequestBodyAccess := b\<rparr>)"
  "quiet tx (tx\<lparr>tx_RequestBodyLimit := n\<rparr>)" "quiet tx (tx\<lparr>tx_ForceResponseBodyVariable := b\<rparr>)"
  "quiet tx (tx\<lparr>tx_ResponseBodyAccess := b\<rparr>)" "quiet tx (tx\<lparr>tx_ResponseBodyLimit := n\<rparr>)"
  "quiet tx (tx\<lparr>tx_RuleEngine := re\<rparr>)" "quiet tx (single_Set v s tx)"
  "quiet tx (RemoveRuleByID i tx)" "quiet tx (fold RemoveRuleByID is tx)"
  "quiet tx (fold (\<lambda>i. RemoveRuleTargetByID i col key) is tx)"
  by (simp_all add: quiet_def same_core_def fold_RemoveRuleByID fold_RemoveRuleTargetByID RemoveRuleByID_def)

lemma quiet_on_off: "(\<And>b. quiet tx (f b tx)) \<Longrightarrow> quiet tx (on_off s f tx)"
  by (simp add: on_off_def split: option.splits)

lemma ctl_quiet: "ctl_Evaluate rules a s col key tx = Some tx' \<Longrightarrow> quiet tx tx'"
proof (cases a)
  case ctlAuditLogParts
  assume "ctl_Evaluate rules a s col key tx = Some tx'"
  with ctlAuditLogParts show ?thesis
    by (cases "ParseAuditLogParts s") (auto split: sum.splits)
qed (auto simp: quiet_on_off split: if_splits option.splits prod.splits sum.splits)

lemma ctl_engine:
  "ctl_Evaluate rules a s col key tx = Some tx' \<Longrightarrow> a \<noteq> ctlRuleEngine \<Longrightarrow> tx_RuleEngine tx' = tx_RuleEngine tx"
proof (cases a)
  case ctlAuditLogParts
  assume "ctl_Evaluate rules a s col key tx = Some tx'"
  with ctlAuditLogParts show ?thesis
    by (cases "ParseAuditLogParts s") (auto split: sum.splits)
qed (auto simp: on_off_def fold_RemoveRuleByID fold_RemoveRuleTargetByID RemoveRuleByID_def
    split: if_splits option.splits prod.splits sum.splits)

lemma ctl_total: "ctl_Evaluate rules a s col key tx \<noteq> None"
  using ParseAuditLogParts_total [of s] by (cases a) auto

lemma same_core_updates [simp]:
  "same_core tx (Interrupt i tx)" "same_core tx (tx\<lparr>tx_AllowType := al\<rparr>)" "same_core tx (tx\<lparr>tx_Skip := n\<rparr>)"
  "same_core tx (tx\<lparr>tx_SkipAfter := s\<rparr>)"
  by (simp_all add: same_core_def Interrupt_def)

lemma action_frame: "action_Evaluate rules r a tx = Some tx' \<Longrightarrow> same_core tx tx'"
proof (cases a)
  case (ctlFn c s col key)
  assume "action_Evaluate rules r a tx = Some tx'"
  with ctlFn show ?thesis by (simp add: ctl_quiet [unfolded quiet_def])
qed (auto simp: setvar_frame setenv_frame deny_Evaluate_def drop_Evaluate_def redirect_Evaluate_def)

lemma setvar_fields:
  assumes "setvar_Evaluate k v col b tx = Some tx'"
  shows "tx_interruption tx' = tx_interruption tx" "tx_RuleEngine tx' = tx_RuleEngine tx"
proof -
  from assms obtain key val where "tx' = setvar_put col b key val tx"
    by (auto simp: setvar_Evaluate_def bind_eq_Some_conv)
  then show "tx_interruption tx' = tx_interruption tx" "tx_RuleEngine tx' = tx_RuleEngine tx"
    using setvar_put_cases [of col b key val tx] by auto
qed

lemma setenv_fields:
  "setenv_Evaluate k m tx = Some tx' \<Longrightarrow> tx_interruption tx' = tx_interruption tx \<and> tx_RuleEngine tx' = tx_RuleEngine tx"
  by (auto simp: setenv_Evaluate_def bind_eq_Some_conv)

lemma action_interruption:
  assumes "action_Evaluate rules r a tx = Some tx'" "tx_interruption tx' \<noteq> tx_interruption tx"
  shows "action_Type a = ActionTypeDisruptive \<and> tx_RuleEngine tx = RuleEngineOn"
  using assms
proof (cases a)
  case (ctlFn c s col key)
  with assms show ?thesis using ctl_quiet [of rules c s col key tx tx'] by (simp add: quiet_def)
qed (auto simp: setvar_fields setenv_fields deny_Evaluate_def drop_Evaluate_def redirect_Evaluate_def
    Interrupt_def split: if_splits)

definition is_ctl_engine :: "actionFn \<Rightarrow> bool" where
  "is_ctl_engine a = (case a of ctlFn c s col key \<Rightarrow> c = ctlRuleEngine | _ \<Rightarrow> False)"

lemma action_engine:
  assumes "action_Evaluate rules r a tx = Some tx'" "\<not> is_ctl_engine a"
  shows "tx_RuleEngine tx' = tx_RuleEngine tx"
  using assms
proof (cases a)
  case (ctlFn c s col key)
  with assms show ?thesis using ctl_engine [of rules c s col key tx tx'] by (simp add: is_ctl_engine_def)
qed (auto simp: setvar_fields setenv_fields deny_Evaluate_def drop_Evaluate_def redirect_Evaluate_def Interrupt_def)

text \<open>
  (C16) An action that changes the interruption of a transaction is a disruptive one, and it does so
  only while the rule engine is on; the engine's status itself is changed by \<open>ctl:ruleEngine\<close> alone.
\<close>

theorem only_disruptive_actions_interrupt:
  assumes "action_Evaluate rules r a tx = Some tx'"
  shows "(tx_interruption tx' = tx_interruption tx \<or>
      action_Type a = ActionTypeDisruptive \<and> tx_RuleEngine tx = RuleEngineOn \<and> tx_interruption tx' \<noteq> None) \<and>
    (tx_RuleEngine tx' = tx_RuleEngine tx \<or> is_ctl_engine a)"
proof -
  have "tx_interruption tx' \<noteq> None" if "tx_interruption tx' \<noteq> tx_interruption tx"
    using assms that action_interruption [OF assms that]
    by (cases a) (auto simp: deny_Evaluate_def drop_Evaluate_def redirect_Evaluate_def Interrupt_def split: if_splits)
  with action_interruption [OF assms] action_engine [OF assms] show ?thesis by blast
qed

theorem only_disruptive_actions_interrupt_witness:
  "action_Evaluate [] NewRule denyFn (fresh_Transaction example_settings) =
     Some (deny_Evaluate NewRule (fresh_Transaction example_settings)) \<and>
   (tx_interruption (deny_Evaluate NewRule (fresh_Transaction example_settings)) =
      tx_interruption (fresh_Transaction example_settings) \<or>
    action_Type denyFn = ActionTypeDisruptive)"
  using only_disruptive_actions_interrupt [of "[]" NewRule denyFn "fresh_Transaction example_settings"
      "deny_Evaluate NewRule (fresh_Transaction example_settings)"] by auto

subsection \<open>The arithmetic of setvar\<close>

definition int64 :: "int \<Rightarrow> bool" where
  "int64 n = (min_int64 \<le> n \<and> n \<le> max_int64)"

lemma itoa_ne [simp]: "itoa n \<noteq> []"
  by (simp add: itoa_def)

text \<open>The value that arithmetic reads: an unset or empty variable counts as zero.\<close>

definition reads_as :: "Map \<Rightarrow> string \<Rightarrow> int \<Rightarrow> bool" where
  "reads_as col key n = (case map_Get col key of [] \<Rightarrow> n = 0 | x # _ \<Rightarrow> x = itoa n \<or> x = [] \<and> n = 0)"

lemma setvar_add_step:
  assumes "reads_as col key c" "int64 c" "int64 n" "int64 (c + n)"
  shows "evaluateTxCollection False key (CHR ''+'' # itoa n) col = map_Set key [itoa (c + n)] col"
proof -
  let ?cur = "case map_Get col key of x # _ \<Rightarrow> x | [] \<Rightarrow> []"
  have "(if ?cur \<noteq> [] then atoi ?cur else (0, None)) = (c, None)"
    using assms by (auto simp: reads_as_def int64_def atoi_itoa split: list.splits)
  moreover have "atoi (itoa n) = (n, None)" "wrap64 (c + n) = c + n"
    using assms by (simp_all add: int64_def atoi_itoa wrap64_id)
  ultimately show ?thesis
    by (simp add: evaluateTxCollection_def Let_def)
qed

lemma map_Set_reads_as: "reads_as (map_Set key [itoa n] col) key n"
  by (simp add: reads_as_def coll.set_then_get)

text \<open>
  (C17) Adding to a counter: from an unset transaction variable, a sequence of \<open>setvar:tx.key=+n\<close> leaves
  the decimal sum of the increments in the variable, as long as no partial sum leaves the range of
  a 64-bit integer, and other keys are left alone.
\<close>

theorem anomaly_score:
  assumes "ns \<noteq> []" "map_Get col key = []" "list_all int64 ns" "\<forall>k\<le>length ns. int64 (sum_list (take k ns))"
  shows "map_Get (fold (\<lambda>n. evaluateTxCollection False key (CHR ''+'' # itoa n)) ns col) key = [itoa (sum_list ns)] \<and>
    (\<not> map_same col key key' \<longrightarrow>
      map_Get (fold (\<lambda>n. evaluateTxCollection False key (CHR ''+'' # itoa n)) ns col) key' = map_Get col key')"
proof -
  have gen: "map_Get (fold (\<lambda>n. evaluateTxCollection False key (CHR ''+'' # itoa n)) ns col) key = [itoa (c + sum_list ns)] \<and>
    (\<not> map_same col key key' \<longrightarrow>
      map_Get (fold (\<lambda>n. evaluateTxCollection False key (CHR ''+'' # itoa n)) ns col) key' = map_Get col key')"
    if "reads_as col key c" "ns \<noteq> [] \<or> map_Get col key = [itoa c]" "list_all int64 ns"
      "\<forall>k\<le>length ns. int64 (c + sum_list (take k ns))" for ns col c
    using that
  proof (induction ns arbitrary: col c)
    case (Cons n ns)
    have "int64 (c + sum_list (take 0 (n # ns)))" "int64 (c + sum_list (take 1 (n # ns)))"
      using Cons.prems(4) [rule_format, of 0] Cons.prems(4) [rule_format, of 1] by simp_all
    with Cons.prems have step: "evaluateTxCollection False key (CHR ''+'' # itoa n) col = map_Set key [itoa (c + n)] col"
      by (intro setvar_add_step) simp_all
    have "int64 (c + n + sum_list (take k ns))" if "k \<le> length ns" for k
      using Cons.prems(4) [rule_format, of "Suc k"] that by (simp add: ac_simps)
    with Cons.IH [of "map_Set key [itoa (c + n)] col" "c + n"] Cons.prems(3) show ?case
      by (simp add: step map_Set_reads_as coll.set_then_get coll.same_set coll.get_set ac_simps)
  qed simp
  show ?thesis
    using gen [of col 0 ns] assms by (simp add: reads_as_def)
qed

theorem anomaly_score_witness:
  "map_Get (fold (\<lambda>n. evaluateTxCollection False ''score'' (CHR ''+'' # itoa n)) [5, 3, -1] (NewMap VTX)) ''score'' = [itoa 7]"
proof -
  have "int64 (sum_list (take k [5, 3, -1]))" if "k \<le> 3" for k
  proof -
    from that consider "k = 0" | "k = 1" | "k = 2" | "k = 3" by linarith
    then show ?thesis by cases (simp_all add: int64_def min_int64_def max_int64_def)
  qed
  then show ?thesis
    using anomaly_score [of "[5, 3, -1]" "NewMap VTX" "''score''"]
    by (simp add: int64_def min_int64_def max_int64_def NewMap_def map_Get_def)
qed

text \<open>Removing a variable with \<open>setvar:!tx.key\<close> is accepted and panics when it is evaluated.\<close>

lemma setvar_remove_panics:
  "\<exists>a r. setvar_Init ''!tx.score'' NewRule = Inr (a, r) \<and> action_Evaluate [] r a tx = None"
proof -
  have "case setvar_Init ''!tx.score'' NewRule of
      Inr (a, r) \<Rightarrow> a = setvarFn \<lparr>original = ''score'', tokens = [text_token ''score'']\<rparr> None VTX True
    | Inl err \<Rightarrow> False"
    by code_simp
  then show ?thesis
    by (auto simp: setvar_Evaluate_def Expand_def expandToken_def text_token_def split: sum.splits prod.splits)
qed

end
