(* ===== verification/Engine.thy ===== *)
theory Engine
  imports Actions
begin

text \<open>
  The rule engine: the evaluation of a rule with its chain (\<open>Rule.doEvaluate\<close>), the bookkeeping of a
  match (\<open>Transaction.MatchRule\<close>), the rule group (\<open>rulegroup.go\<close>) and the evaluation of a phase
  (\<open>RuleGroup.Eval\<close>). Everything is in the option monad, \<open>None\<close> being a panic. The runtime's choice of
  addresses enters the transformation cache through the argument \<open>addr\<close>.
\<close>

subsection \<open>Transformations and their cache\<close>

fun executeTransformations :: "transformation list \<Rightarrow> string \<Rightarrow> go_error list \<Rightarrow> (string \<times> go_error list) option" where
  "executeTransformations [] s errs = Some (s, errs)"
| "executeTransformations (t # ts) s errs = Option.bind (t s) (\<lambda>(v, changed, err).
     case err of
       Some e \<Rightarrow> executeTransformations ts s (errs @ [e])
     | None \<Rightarrow> executeTransformations ts v errs)"

fun executeTransformationsMultimatch ::
  "transformation list \<Rightarrow> string \<Rightarrow> string list \<Rightarrow> go_error list \<Rightarrow> (string list \<times> go_error list) option" where
  "executeTransformationsMultimatch [] s res errs = Some (res, errs)"
| "executeTransformationsMultimatch (t # ts) s res errs = Option.bind (t s) (\<lambda>(v, changed, err).
     case err of
       Some e \<Rightarrow> executeTransformationsMultimatch ts s res (errs @ [e])
     | None \<Rightarrow>
         if changed then executeTransformationsMultimatch ts v (res @ [v]) errs
         else executeTransformationsMultimatch ts s res errs)"

definition transformMultiMatchArg :: "Rule \<Rightarrow> MatchData \<Rightarrow> (string list \<times> go_error list) option" where
  "transformMultiMatchArg r arg = executeTransformationsMultimatch (r_transformations r) (md_Value arg) [md_Value arg] []"

definition transformArg ::
  "(MatchData \<Rightarrow> nat) \<Rightarrow> Rule \<Rightarrow> MatchData \<Rightarrow> nat \<Rightarrow> Transaction \<Rightarrow> ((string \<times> go_error list) \<times> Transaction) option" where
  "transformArg addr r arg argIdx tx =
     (if r_transformations r = [] then Some ((md_Value arg, []), tx)
      else if Name (md_Variable arg) = ''TX'' then
        map_option (\<lambda>res. (res, tx)) (executeTransformations (r_transformations r) (md_Value arg) [])
      else let key = (addr arg, argIdx, md_Variable arg, r_transformationsID r) in
        case tx_transformationCache tx key of
          Some cached \<Rightarrow> Some (cached, tx)
        | None \<Rightarrow> map_option
            (\<lambda>res. (res, tx\<lparr>tx_transformationCache := (tx_transformationCache tx)(key \<mapsto> res)\<rparr>))
            (executeTransformations (r_transformations r) (md_Value arg) []))"

subsection \<open>Evaluating a rule\<close>

text \<open>The actions that satisfy \<open>sel\<close> are run in order; the test sees the state before each action.\<close>

definition run_actions ::
  "(actionFn \<Rightarrow> Transaction \<Rightarrow> bool) \<Rightarrow> RuleNode list \<Rightarrow> Rule \<Rightarrow> Transaction \<Rightarrow> Transaction option" where
  "run_actions sel rules r tx = ofold (\<lambda>a tx.
     if sel (act_Function a) tx then action_Evaluate rules r (act_Function a) tx else Some tx) (r_actions r) tx"

definition rule_matchVariable :: "RuleNode list \<Rightarrow> Rule \<Rightarrow> MatchData \<Rightarrow> Transaction \<Rightarrow> Transaction option" where
  "rule_matchVariable rules r m tx =
     run_actions (\<lambda>a tx. action_Type a = ActionTypeNondisruptive) rules r (tx_matchVariable m tx)"

definition executeOperator :: "ruleOperatorParams \<Rightarrow> string \<Rightarrow> Transaction \<Rightarrow> (bool \<times> Transaction) option" where
  "executeOperator op d tx = map_option (\<lambda>(result, tx). (if op_Negation op then \<not> result else result, tx)) (op_Operator op tx d)"

text \<open>Expansion of the message and of the log data into a match.\<close>

definition expand_into :: "Rule \<Rightarrow> Transaction \<Rightarrow> MatchData \<Rightarrow> MatchData option" where
  "expand_into r tx md = do {
     md \<leftarrow> (case r_Msg r of
       None \<Rightarrow> Some md
     | Some m \<Rightarrow> map_option (\<lambda>s. md\<lparr>md_Message := s\<rparr>) (Expand (Collection tx) m));
     case r_LogData r of
       None \<Rightarrow> Some md
     | Some m \<Rightarrow> map_option (\<lambda>s. md\<lparr>md_Data := s\<rparr>) (Expand (Collection tx) m)
   }"

type_synonym eval_state = "Transaction \<times> MatchData list"

definition eval_carg ::
  "RuleNode list \<Rightarrow> Rule \<Rightarrow> ruleOperatorParams \<Rightarrow> nat \<Rightarrow> MatchData \<Rightarrow> string \<Rightarrow> eval_state \<Rightarrow> eval_state option" where
  "eval_carg rules r op chainLevel arg carg st = do {
     let (tx, mvs) = st;
     (match, tx) \<leftarrow> executeOperator op carg tx;
     if match then do {
       let mr = (match_data (md_Variable arg) (md_Key arg) carg)\<lparr>md_ChainLevel := chainLevel\<rparr>;
       tx \<leftarrow> rule_matchVariable rules r mr tx;
       mr \<leftarrow> (if ParentID r \<noteq> noID \<or> \<not> r_HasChain r then expand_into r tx mr else Some mr);
       Some (tx, mvs @ [mr])
     } else Some (tx, mvs)
   }"

definition eval_value ::
  "(MatchData \<Rightarrow> nat) \<Rightarrow> RuleNode list \<Rightarrow> Rule \<Rightarrow> ruleOperatorParams \<Rightarrow> nat \<Rightarrow> nat \<times> MatchData \<Rightarrow> eval_state \<Rightarrow> eval_state option" where
  "eval_value addr rules r op chainLevel iarg st = do {
     let (i, arg) = iarg;
     let (tx, mvs) = st;
     (args, tx) \<leftarrow> (if r_MultiMatch r then map_option (\<lambda>(args, errs). (args, tx)) (transformMultiMatchArg r arg)
                     else map_option (\<lambda>((s, errs), tx). ([s], tx)) (transformArg addr r arg i tx));
     ofold (eval_carg rules r op chainLevel arg) args (tx, mvs)
   }"

definition add_exceptions :: "ruleVariableParams list \<Rightarrow> ruleVariableParams \<Rightarrow> ruleVariableParams" where
  "add_exceptions ecol v = v\<lparr>rv_Exceptions := rv_Exceptions v @
     map (\<lambda>c. \<lparr>ex_KeyStr = rv_KeyStr c, ex_KeyRx = None\<rparr>) (filter (\<lambda>c. rv_Variable c = rv_Variable v) ecol)\<rparr>"

definition eval_variable ::
  "(MatchData \<Rightarrow> nat) \<Rightarrow> RuleNode list \<Rightarrow> Rule \<Rightarrow> ruleOperatorParams \<Rightarrow> nat \<Rightarrow> ruleVariableParams list \<Rightarrow>
   ruleVariableParams \<Rightarrow> eval_state \<Rightarrow> eval_state option" where
  "eval_variable addr rules r op chainLevel ecol v st =
     ofold (eval_value addr rules r op chainLevel) (enumerate 0 (GetField (fst st) (add_exceptions ecol v))) st"

definition rule_variables :: "Rule \<Rightarrow> (string \<times> string) list" where
  "rule_variables r = [(''id'', LogID r)] @
     (case r_Msg r of Some m \<Rightarrow> [(''msg'', macro_String m)] | None \<Rightarrow> []) @
     [(''rev'', Rev r)] @
     (case r_LogData r of Some m \<Rightarrow> [(''logdata'', macro_String m)] | None \<Rightarrow> []) @
     [(''severity'', severity_String (Severity r))]"

definition set_rule_variables :: "Rule \<Rightarrow> Transaction \<Rightarrow> Transaction option" where
  "set_rule_variables r tx = ofold (\<lambda>(key, s). map_SetIndex_var VRule key 0 s) (rule_variables r) tx"

definition empty_match :: MatchData where
  "empty_match = match_data VUnknown [] []"

text \<open>The first half of \<open>doEvaluate\<close>: the state and the matched values of the rule's own targets.\<close>

definition eval_targets ::
  "(MatchData \<Rightarrow> nat) \<Rightarrow> RuleNode list \<Rightarrow> Rule \<Rightarrow> nat \<Rightarrow> Transaction \<Rightarrow> eval_state option" where
  "eval_targets addr rules r chainLevel tx = do {
     let tx = tx\<lparr>tx_Capture := r_Capture r\<rparr>;
     tx \<leftarrow> set_rule_variables r tx;
     case r_operator r of
       None \<Rightarrow> do {
         md \<leftarrow> (if ParentID r \<noteq> noID \<or> r_MultiMatch r then expand_into r tx empty_match else Some empty_match);
         tx \<leftarrow> rule_matchVariable rules r md tx;
         Some (tx, [md])
       }
     | Some op \<Rightarrow>
         ofold (eval_variable addr rules r op chainLevel (tx_ruleRemoveTargetByID tx (ID r))) (r_variables r) (tx, [])
   }"

definition disruptive_fields :: "Rule \<Rightarrow> Transaction \<Rightarrow> bool \<times> DisruptiveAction" where
  "disruptive_fields r tx =
     (if tx_RuleEngine tx = RuleEngineOn then
        (case find (\<lambda>a. action_Type (act_Function a) = ActionTypeDisruptive) (r_actions r) of
           None \<Rightarrow> (False, DisruptiveActionUnknown)
         | Some a \<Rightarrow> (True, case map_of DisruptiveActionMap (act_Name a) of
             Some d \<Rightarrow> d
           | None \<Rightarrow> DisruptiveActionUnknown))
      else (False, DisruptiveActionUnknown))"

definition MatchRule :: "Rule \<Rightarrow> MatchData list \<Rightarrow> Transaction \<Rightarrow> Transaction" where
  "MatchRule r mds tx =
     (let tx = (if r_Audit r then tx\<lparr>tx_audit := True\<rparr> else tx);
          maxSeverity = fst (ParseRuleSeverity (single_Get VHighestSeverity tx));
          tx = (if Severity r > maxSeverity then single_Set VHighestSeverity (itoa (Severity r)) tx else tx);
          md = find (\<lambda>md. md_Message md \<noteq> []) mds;
          mr = \<lparr>mr_Message = (case md of Some md \<Rightarrow> md_Message md | None \<Rightarrow> []),
                mr_Data = (case md of Some md \<Rightarrow> md_Data md | None \<Rightarrow> []),
                mr_URI = single_Get VRequestURI tx, mr_TransactionID = tx_id tx,
                mr_Disruptive = fst (disruptive_fields r tx),
                mr_DisruptiveAction = snd (disruptive_fields r tx), mr_Log = r_Log r,
                mr_ServerIPAddress = single_Get VServerAddr tx, mr_ClientIPAddress = single_Get VRemoteAddr tx,
                mr_MatchedDatas = mds, mr_Rule = RuleMetadata.truncate r\<rparr> in
      tx\<lparr>tx_matchedRules := tx_matchedRules tx @ [mr]\<rparr>)"

text \<open>The end of \<open>doEvaluate\<close> for a rule that is not part of a chain, once everything has matched.\<close>

definition finish_match :: "RuleNode list \<Rightarrow> Rule \<Rightarrow> Transaction \<Rightarrow> MatchData list \<Rightarrow> eval_state option" where
  "finish_match rules r tx mvs = do {
     mvs \<leftarrow> (if r_HasChain r \<or> r_operator r = None
              then map_option (\<lambda>md. md # tl mvs) (expand_into r tx (hd mvs)) else Some mvs);
     tx \<leftarrow> run_actions (\<lambda>a tx. action_Type a = ActionTypeFlow \<or>
              action_Type a = ActionTypeDisruptive \<and> tx_RuleEngine tx = RuleEngineOn) rules r tx;
     Some (if ID r \<noteq> noID then MatchRule r mvs tx else tx, mvs)
   }"

text \<open>
  \<open>eval_chain\<close> is the loop over the chain; its second component is \<open>None\<close> when a rule of the chain
  did not match.
\<close>

function (sequential) doEvaluate ::
  "(MatchData \<Rightarrow> nat) \<Rightarrow> RuleNode list \<Rightarrow> Rule \<Rightarrow> Rule list \<Rightarrow> nat \<Rightarrow> Transaction \<Rightarrow> eval_state option"
and eval_chain ::
  "(MatchData \<Rightarrow> nat) \<Rightarrow> RuleNode list \<Rightarrow> Rule list \<Rightarrow> nat \<Rightarrow> Transaction \<Rightarrow> MatchData list \<Rightarrow>
   (Transaction \<times> MatchData list option) option" where
  "doEvaluate addr rules r ch chainLevel tx = do {
     (tx, mvs) \<leftarrow> eval_targets addr rules r chainLevel tx;
     if mvs = [] then Some (tx, [])
     else if ParentID r = noID then do {
       (tx, res) \<leftarrow> eval_chain addr rules ch chainLevel tx mvs;
       case res of
         None \<Rightarrow> Some (tx, [])
       | Some mvs \<Rightarrow> finish_match rules r tx mvs
     } else Some (tx, mvs)
   }"
| "eval_chain addr rules [] chainLevel tx mvs = Some (tx, Some mvs)"
| "eval_chain addr rules (nr # ch) chainLevel tx mvs = do {
     (tx, mcv) \<leftarrow> doEvaluate addr rules nr ch (chainLevel + 1) tx;
     if mcv = [] then Some (tx, None)
     else eval_chain addr rules ch (chainLevel + 1) tx (mvs @ mcv)
   }"
  by pat_completeness auto
termination
  by (relation "measure (\<lambda>x. case x of Inl (_, _, _, ch, _) \<Rightarrow> 2 * length ch + 1 | Inr (_, _, ch, _) \<Rightarrow> 2 * length ch)") auto

declare doEvaluate.simps [simp del] eval_chain.simps [simp del]

definition Evaluate :: "(MatchData \<Rightarrow> nat) \<Rightarrow> RuleNode list \<Rightarrow> RuleNode \<Rightarrow> Transaction \<Rightarrow> Transaction option" where
  "Evaluate addr rules n tx = map_option fst (doEvaluate addr rules (fst n) (snd n) 0 tx)"

subsection \<open>The rule group\<close>

definition FindByID :: "int \<Rightarrow> RuleNode list \<Rightarrow> RuleNode option" where
  "FindByID i rules = find (\<lambda>n. ID (fst n) = i) rules"

text \<open>A nil rule is \<open>None\<close>: the rules of a chain are not added.\<close>

definition RuleGroup_Add :: "RuleNode option \<Rightarrow> RuleNode list \<Rightarrow> go_error + RuleNode list" where
  "RuleGroup_Add rule rules = (case rule of
     None \<Rightarrow> Inr rules
   | Some n \<Rightarrow>
       if ID (fst n) \<noteq> 0 \<and> FindByID (ID (fst n)) rules \<noteq> None
       then Inl (''duplicated rule id '' @ itoa (ID (fst n)))
       else Inr (rules @ [n]))"

fun DeleteByID :: "int \<Rightarrow> RuleNode list \<Rightarrow> RuleNode list" where
  "DeleteByID i [] = []"
| "DeleteByID i (n # rules) = (if ID (fst n) = i then rules else n # DeleteByID i rules)"

definition DeleteByRange :: "int \<Rightarrow> int \<Rightarrow> RuleNode list \<Rightarrow> RuleNode list" where
  "DeleteByRange start end rules = filter (\<lambda>n. ID (fst n) < start \<or> ID (fst n) > end) rules"

text \<open>The message of a rule without \<open>msg\<close> is a nil interface, on which \<open>String\<close> panics.\<close>

definition DeleteByMsg :: "string \<Rightarrow> RuleNode list \<Rightarrow> RuleNode list option" where
  "DeleteByMsg msg rules = ofold (\<lambda>n kept. case r_Msg (fst n) of
     None \<Rightarrow> None
   | Some m \<Rightarrow> Some (if macro_String m \<noteq> msg then kept @ [n] else kept)) rules []"

definition DeleteByTag :: "string \<Rightarrow> RuleNode list \<Rightarrow> RuleNode list" where
  "DeleteByTag tag rules = filter (\<lambda>n. \<not> InSlice tag (Tags (fst n))) rules"

definition Count :: "RuleNode list \<Rightarrow> int" where
  "Count rules = int (length rules)"

subsection \<open>Evaluating a phase\<close>

text \<open>The switch on \<open>AllowType\<close>: \<open>Some\<close> is a break with the state after it.\<close>

definition allow_stop :: "RulePhase \<Rightarrow> Transaction \<Rightarrow> Transaction option" where
  "allow_stop phase tx = (case tx_AllowType tx of
     AllowTypeUnset \<Rightarrow> None
   | AllowTypePhase \<Rightarrow> Some tx
   | AllowTypeRequest \<Rightarrow>
       if phase = PhaseRequestHeaders then Some tx
       else if phase = PhaseRequestBody then Some (tx\<lparr>tx_AllowType := AllowTypeUnset\<rparr>)
       else None
   | AllowTypeAll \<Rightarrow> Some tx)"

fun eval_loop ::
  "(MatchData \<Rightarrow> nat) \<Rightarrow> RuleNode list \<Rightarrow> RulePhase \<Rightarrow> RuleNode list \<Rightarrow> Transaction \<Rightarrow> Transaction option" where
  "eval_loop addr rules phase [] tx = Some tx"
| "eval_loop addr rules phase (n # ns) tx =
     (if tx_interruption tx \<noteq> None \<and> phase \<noteq> PhaseLogging then Some tx
      else if Phase (fst n) \<noteq> 0 \<and> Phase (fst n) \<noteq> phase then eval_loop addr rules phase ns tx
      else if ID (fst n) \<in> set (tx_ruleRemoveByID tx) then eval_loop addr rules phase ns tx
      else if tx_SkipAfter tx \<noteq> [] then
        eval_loop addr rules phase ns (if SecMark (fst n) = tx_SkipAfter tx then tx\<lparr>tx_SkipAfter := []\<rparr> else tx)
      else if tx_Skip tx > 0 then eval_loop addr rules phase ns (tx\<lparr>tx_Skip := tx_Skip tx - 1\<rparr>)
      else case allow_stop phase tx of
        Some tx \<Rightarrow> Some tx
      | None \<Rightarrow> do {
          tx \<leftarrow> Evaluate addr rules n (map_put VMatchedVars (map_Reset (map_of_var VMatchedVars tx)) tx);
          eval_loop addr rules phase ns (tx\<lparr>tx_Capture := False\<rparr>)
        })"

definition Eval :: "(MatchData \<Rightarrow> nat) \<Rightarrow> RuleNode list \<Rightarrow> RulePhase \<Rightarrow> Transaction \<Rightarrow> (bool \<times> Transaction) option" where
  "Eval addr rules phase tx = do {
     tx \<leftarrow> eval_loop addr rules phase rules (tx\<lparr>tx_lastPhase := phase, tx_transformationCache := Map.empty\<rparr>);
     let tx = (if tx_AllowType tx = AllowTypePhase then tx\<lparr>tx_AllowType := AllowTypeUnset\<rparr> else tx);
     let tx = tx\<lparr>tx_Skip := 0\<rparr>;
     Some (tx_interruption tx \<noteq> None, tx)
   }"

end
