(* ===== verification/Engine_Props.thy ===== *)
theory Engine_Props
  imports Engine
begin

text \<open>
  What the rule engine keeps and what it does. Two locales state once how an invariant of
  transactions passes through the evaluation of a rule's targets and through the evaluation of a
  whole phase; their interpretations give the safety properties: an engine that is not on never
  interrupts, a chain that does not match as a whole neither interrupts nor reports, rules removed by
  id have no effect, an interrupted transaction runs no further rule before logging.
\<close>

subsection \<open>The interface of operators\<close>

text \<open>
  Through \<open>plugintypes.TransactionState\<close> an operator may read the transaction and write captures.
  What the engine relies on is that an operator changes variables only.
\<close>

definition captures_only :: "operator \<Rightarrow> bool" where
  "captures_only op = (\<forall>tx s b tx'. op tx s = Some (b, tx') \<longrightarrow>
     (\<exists>vs. (vars_ok (tx_variables tx) \<longrightarrow> vars_ok vs) \<and> tx' = tx\<lparr>tx_variables := vs\<rparr>))"

definition rule_sane :: "(actionFn \<Rightarrow> bool) \<Rightarrow> Rule \<Rightarrow> bool" where
  "rule_sane A r = ((\<forall>op. r_operator r = Some op \<longrightarrow> captures_only (op_Operator op)) \<and>
     (\<forall>a\<in>set (r_actions r). A (act_Function a)))"

definition node_sane :: "(actionFn \<Rightarrow> bool) \<Rightarrow> RuleNode \<Rightarrow> bool" where
  "node_sane A n = (rule_sane A (fst n) \<and> (\<forall>r\<in>set (snd n). rule_sane A r))"

lemma eval_value_Some:
  assumes "eval_value addr rules r op cl (i, arg) (tx, mvs) = Some st'"
  obtains args tx1 where "tx1 = tx \<or> (\<exists>res. transformArg addr r arg i tx = Some (res, tx1))"
    "ofold (eval_carg rules r op cl arg) args (tx1, mvs) = Some st'"
  using assms by (auto simp: eval_value_def bind_eq_Some_conv split: if_splits)

subsection \<open>Invariants through the targets of a rule\<close>

locale target_invariant =
  fixes P :: "Transaction \<Rightarrow> bool"
    and A :: "actionFn \<Rightarrow> bool"
  assumes vars: "P tx \<Longrightarrow> (vars_ok (tx_variables tx) \<longrightarrow> vars_ok vs) \<Longrightarrow> P (tx\<lparr>tx_variables := vs\<rparr>)"
    and capture: "P tx \<Longrightarrow> P (tx\<lparr>tx_Capture := b\<rparr>)"
    and cache: "P tx \<Longrightarrow> P (tx\<lparr>tx_transformationCache := c\<rparr>)"
    and nondisruptive: "P tx \<Longrightarrow> A a \<Longrightarrow> action_Type a = ActionTypeNondisruptive \<Longrightarrow>
      action_Evaluate rules r a tx = Some tx' \<Longrightarrow> P tx'"
begin

lemma P_single_Set: "P tx \<Longrightarrow> P (single_Set v s tx)"
  unfolding single_Set_def by (rule vars) (simp_all add: vars_ok_def)

lemma P_map_put:
  "P tx \<Longrightarrow> (vars_ok (tx_variables tx) \<longrightarrow> vars_ok (tx_variables (map_put v m tx))) \<Longrightarrow> P (map_put v m tx)"
  using vars [of tx "tx_variables (map_put v m tx)"] by (simp add: map_put_def)

lemma P_SetIndex: "P tx \<Longrightarrow> map_SetIndex_var v k i s tx = Some tx' \<Longrightarrow> P tx'"
  using vars_ok_updates(5) [of tx v k i s tx'] by (auto simp: map_SetIndex_var_def intro!: P_map_put)

lemma P_tx_matchVariable: "P tx \<Longrightarrow> P (tx_matchVariable m tx)"
  unfolding tx_matchVariable_def Let_def
  using vars_ok_updates(1) [of "single_Set VMatchedVarName [] tx" VMatchedVars]
  by (intro P_single_Set P_map_put) simp_all

lemma P_set_rule_variables: "P tx \<Longrightarrow> set_rule_variables r tx = Some tx' \<Longrightarrow> P tx'"
  unfolding set_rule_variables_def by (erule ofold_invariant [rotated]) (auto intro: P_SetIndex)

lemma P_run_actions:
  assumes "run_actions sel rules r tx = Some tx'" "P tx" "rule_sane A r"
    "\<And>a tx tx'. A a \<Longrightarrow> sel a tx \<Longrightarrow> P tx \<Longrightarrow> action_Evaluate rules r a tx = Some tx' \<Longrightarrow> P tx'"
  shows "P tx'"
  using assms(1,2) unfolding run_actions_def
  by (rule ofold_invariant) (use assms(3,4) in \<open>auto simp: rule_sane_def split: if_splits\<close>)

lemma P_rule_matchVariable:
  assumes "rule_matchVariable rules r m tx = Some tx'" "P tx" "rule_sane A r"
  shows "P tx'"
  by (rule P_run_actions [OF assms(1) [unfolded rule_matchVariable_def]])
     (simp_all add: assms P_tx_matchVariable nondisruptive)

lemma P_executeOperator:
  assumes "executeOperator op d tx = Some (b, tx')" "P tx" "captures_only (op_Operator op)"
  shows "P tx'"
proof -
  from assms(1) obtain b' where "op_Operator op tx d = Some (b', tx')"
    by (auto simp: executeOperator_def)
  with assms(3) obtain vs where "vars_ok (tx_variables tx) \<longrightarrow> vars_ok vs" "tx' = tx\<lparr>tx_variables := vs\<rparr>"
    unfolding captures_only_def by blast
  with assms(2) vars show ?thesis by blast
qed

lemma P_transformArg: "transformArg addr r arg i tx = Some (res, tx') \<Longrightarrow> P tx \<Longrightarrow> P tx'"
  by (auto simp: transformArg_def Let_def intro: cache split: if_splits option.splits)

lemma P_eval_carg:
  assumes "eval_carg rules r op cl arg carg st = Some st'" "P (fst st)" "rule_sane A r" "r_operator r = Some op"
  shows "P (fst st')"
proof -
  obtain tx mvs where st: "st = (tx, mvs)" by (cases st)
  from assms(3,4) have op: "captures_only (op_Operator op)" by (simp add: rule_sane_def)
  from assms(1) st obtain b tx1 where 1: "executeOperator op carg tx = Some (b, tx1)"
    by (auto simp: eval_carg_def bind_eq_Some_conv)
  with assms(1) st have rest: "fst st' = tx1 \<or> (\<exists>mr. rule_matchVariable rules r mr tx1 = Some (fst st'))"
    by (auto simp: eval_carg_def bind_eq_Some_conv Let_def split: if_splits)
  from P_executeOperator [OF 1 _ op] assms(2) st have "P tx1" by simp
  with rest P_rule_matchVariable [of rules r _ tx1 "fst st'"] assms(3) show ?thesis by blast
qed

lemma P_eval_value:
  assumes "eval_value addr rules r op cl iarg st = Some st'" "P (fst st)" "rule_sane A r" "r_operator r = Some op"
  shows "P (fst st')"
proof -
  obtain i arg tx mvs where st: "iarg = (i, arg)" "st = (tx, mvs)" by (cases iarg, cases st)
  from assms(1) st have "eval_value addr rules r op cl (i, arg) (tx, mvs) = Some st'" by simp
  then obtain args tx1 where
    1: "tx1 = tx \<or> (\<exists>res. transformArg addr r arg i tx = Some (res, tx1))" and
    2: "ofold (eval_carg rules r op cl arg) args (tx1, mvs) = Some st'"
    by (rule eval_value_Some)
  from 1 assms(2) st P_transformArg have "P tx1" by auto
  then show ?thesis
    by - (rule ofold_invariant [OF 2, where P = "\<lambda>st. P (fst st)"], simp_all add: P_eval_carg [OF _ _ assms(3,4)])
qed

lemma P_eval_targets:
  assumes "eval_targets addr rules r cl tx = Some (tx', mvs)" "P tx" "rule_sane A r"
  shows "P tx'"
proof -
  from assms(1) obtain tx1 where 1: "set_rule_variables r (tx\<lparr>tx_Capture := r_Capture r\<rparr>) = Some tx1"
    and 2: "(case r_operator r of
       None \<Rightarrow> do {
         md \<leftarrow> (if ParentID r \<noteq> noID \<or> r_MultiMatch r then expand_into r tx1 empty_match else Some empty_match);
         tx \<leftarrow> rule_matchVariable rules r md tx1;
         Some (tx, [md])
       }
     | Some op \<Rightarrow>
         ofold (eval_variable addr rules r op cl (tx_ruleRemoveTargetByID tx1 (ID r))) (r_variables r) (tx1, [])) = Some (tx', mvs)"
    by (auto simp: eval_targets_def bind_eq_Some_conv)
  from P_set_rule_variables [OF _ 1] assms(2) capture have "P tx1" by blast
  show ?thesis
  proof (cases "r_operator r")
    case None
    with 2 \<open>P tx1\<close> assms(3) show ?thesis by (auto simp: bind_eq_Some_conv intro: P_rule_matchVariable)
  next
    case (Some op)
    have "P (fst st')" if "P (fst st)" "eval_variable addr rules r op cl ecol v st = Some st'" for ecol v st st'
      by (rule ofold_invariant [OF that(2) [unfolded eval_variable_def], where P = "\<lambda>st. P (fst st)"])
         (simp_all add: that(1) P_eval_value [OF _ _ assms(3) Some])
    moreover from 2 Some have
      "ofold (eval_variable addr rules r op cl (tx_ruleRemoveTargetByID tx1 (ID r))) (r_variables r) (tx1, []) = Some (tx', mvs)"
      by simp
    ultimately have "P (fst (tx', mvs))"
      by (rule ofold_invariant [where P = "\<lambda>st. P (fst st)", rotated 2]) (simp_all add: \<open>P tx1\<close>)
    then show ?thesis by simp
  qed
qed

end

subsection \<open>Invariants through a phase\<close>

locale engine_invariant = target_invariant +
  assumes matched: "P tx \<Longrightarrow> P (tx\<lparr>tx_matchedRules := ms\<rparr>)"
    and audited: "P tx \<Longrightarrow> P (tx\<lparr>tx_audit := b\<rparr>)"
    and flow: "P tx \<Longrightarrow> A a \<Longrightarrow>
      action_Type a = ActionTypeFlow \<or> action_Type a = ActionTypeDisruptive \<and> tx_RuleEngine tx = RuleEngineOn \<Longrightarrow>
      action_Evaluate rules r a tx = Some tx' \<Longrightarrow> P tx'"
    and counters: "P tx \<Longrightarrow> P (tx\<lparr>tx_Skip := n\<rparr>)" "P tx \<Longrightarrow> P (tx\<lparr>tx_SkipAfter := s\<rparr>)"
      "P tx \<Longrightarrow> P (tx\<lparr>tx_AllowType := al\<rparr>)"
begin

lemma P_MatchRule: "P tx \<Longrightarrow> P (MatchRule r mds tx)"
  unfolding MatchRule_def Let_def by (auto intro!: matched P_single_Set audited)

lemma P_finish_match:
  assumes "finish_match rules r tx mvs = Some (tx', mvs')" "P tx" "rule_sane A r"
  shows "P tx'"
proof -
  from assms(1) obtain tx1 where 1: "run_actions (\<lambda>a tx. action_Type a = ActionTypeFlow \<or>
      action_Type a = ActionTypeDisruptive \<and> tx_RuleEngine tx = RuleEngineOn) rules r tx = Some tx1"
    and 2: "tx' = tx1 \<or> tx' = MatchRule r mvs' tx1"
    by (auto simp: finish_match_def bind_eq_Some_conv split: if_splits)
  have "P tx1"
    by (rule P_run_actions [OF 1 assms(2,3)]) (rule flow)
  with 2 P_MatchRule show ?thesis by blast
qed

lemma P_doEvaluate:
  "doEvaluate addr rules r ch cl tx = Some (tx', mvs) \<Longrightarrow> P tx \<Longrightarrow> rule_sane A r \<Longrightarrow>
   \<forall>q\<in>set ch. rule_sane A q \<Longrightarrow> P tx'"
  and P_eval_chain:
  "eval_chain addr rules ch cl tx mvs0 = Some (tx', res) \<Longrightarrow> P tx \<Longrightarrow> \<forall>q\<in>set ch. rule_sane A q \<Longrightarrow> P tx'"
proof (induction addr rules r ch cl tx and addr rules ch cl tx mvs0
    arbitrary: tx' mvs and tx' res rule: doEvaluate_eval_chain.induct)
  case (1 addr rules r ch cl tx)
  from "1.prems"(1) obtain tx1 mvs1 where t: "eval_targets addr rules r cl tx = Some (tx1, mvs1)"
    and rest: "(if mvs1 = [] then Some (tx1, [])
     else if ParentID r = noID then do {
       (tx, res) \<leftarrow> eval_chain addr rules ch cl tx1 mvs1;
       case res of None \<Rightarrow> Some (tx, []) | Some mvs \<Rightarrow> finish_match rules r tx mvs
     } else Some (tx1, mvs1)) = Some (tx', mvs)"
    by (auto simp: doEvaluate.simps bind_eq_Some_conv)
  from P_eval_targets [OF t "1.prems"(2,3)] have "P tx1" .
  show ?case
  proof (cases "mvs1 \<noteq> [] \<and> ParentID r = noID")
    case True
    with rest obtain tx2 res where c: "eval_chain addr rules ch cl tx1 mvs1 = Some (tx2, res)"
      and f: "(case res of None \<Rightarrow> Some (tx2, []) | Some mvs \<Rightarrow> finish_match rules r tx2 mvs) = Some (tx', mvs)"
      by (auto simp: bind_eq_Some_conv)
    from "1.IH" [OF t refl _ _ c \<open>P tx1\<close> "1.prems"(4)] True have "P tx2" by simp
    with f "1.prems"(3) show ?thesis by (auto split: option.splits intro: P_finish_match)
  next
    case False
    with rest \<open>P tx1\<close> show ?thesis by (auto split: if_splits)
  qed
next
  case (2 addr rules cl tx mvs)
  then show ?case by (simp add: eval_chain.simps)
next
  case (3 addr rules nr ch cl tx mvs)
  from "3.prems"(1) obtain tx1 mcv where d: "doEvaluate addr rules nr ch (cl + 1) tx = Some (tx1, mcv)"
    and rest: "(if mcv = [] then Some (tx1, None) else eval_chain addr rules ch (cl + 1) tx1 (mvs @ mcv)) = Some (tx', res)"
    by (auto simp: eval_chain.simps bind_eq_Some_conv)
  from "3.IH"(1) [OF d "3.prems"(2)] "3.prems"(3) have "P tx1" by simp
  with rest "3.IH"(2) [OF d refl] "3.prems"(3) show ?case by (auto split: if_splits)
qed

lemma P_Evaluate:
  assumes "Evaluate addr rules n tx = Some tx'" "P tx" "node_sane A n"
  shows "P tx'"
  using assms P_doEvaluate [of addr rules "fst n" "snd n" 0 tx] by (auto simp: Evaluate_def node_sane_def)

lemma P_eval_loop:
  assumes "eval_loop addr rules phase ns tx = Some tx'" "P tx" "\<forall>n\<in>set ns. node_sane A n"
  shows "P tx'"
  using assms
proof (induction ns arbitrary: tx)
  case (Cons n ns)
  let ?reset = "map_put VMatchedVars (map_Reset (map_of_var VMatchedVars tx)) tx"
  have reset: "P ?reset"
    using Cons.prems(2) by (intro P_map_put) (simp_all add: vars_ok_updates)
  have stop: "P t" if "allow_stop phase tx = Some t" for t
    using that Cons.prems(2) counters(3) by (auto simp: allow_stop_def split: AllowType.splits if_splits)
  have run: "P tx'" if "Evaluate addr rules n ?reset = Some t" "eval_loop addr rules phase ns (t\<lparr>tx_Capture := False\<rparr>) = Some tx'" for t
    using Cons.IH [OF that(2)] P_Evaluate [OF that(1) reset] Cons.prems(3) capture by simp
  have IH: "P t \<Longrightarrow> eval_loop addr rules phase ns t = Some tx' \<Longrightarrow> P tx'" for t
    using Cons.IH Cons.prems(3) by simp
  from Cons.prems(1,2) show ?case
    by (auto simp: bind_eq_Some_conv split: if_splits option.splits intro: IH run stop counters)
qed simp

end

subsection \<open>Interpretations\<close>


text \<open>An engine that is not on stays so, and keeps the interruption, unless \<open>ctl:ruleEngine\<close> is used.\<close>

interpretation detect: engine_invariant
  "\<lambda>tx. tx_RuleEngine tx = re \<and> re \<noteq> RuleEngineOn \<and> tx_interruption tx = i" "\<lambda>a. \<not> is_ctl_engine a" for re i
proof unfold_locales
  fix tx tx' :: Transaction and a rules r
  assume P: "tx_RuleEngine tx = re \<and> re \<noteq> RuleEngineOn \<and> tx_interruption tx = i" and A: "\<not> is_ctl_engine a"
    and e: "action_Evaluate rules r a tx = Some tx'"
  show "tx_RuleEngine tx' = re \<and> re \<noteq> RuleEngineOn \<and> tx_interruption tx' = i"
    using P action_engine [OF e A] action_interruption [OF e] by auto
  then show "tx_RuleEngine tx' = re \<and> re \<noteq> RuleEngineOn \<and> tx_interruption tx' = i" .
qed simp_all

text \<open>Rule evaluation never touches the phase and the body buffers and never forgets a removed rule.\<close>

interpretation core: engine_invariant
  "\<lambda>tx. tx_lastPhase tx = p \<and> tx_requestBodyBuffer tx = b \<and> tx_responseBodyBuffer tx = c \<and> R \<subseteq> set (tx_ruleRemoveByID tx)"
  "\<lambda>a. True" for p b c R
proof unfold_locales
  fix tx tx' :: Transaction and a rules r
  assume P: "tx_lastPhase tx = p \<and> tx_requestBodyBuffer tx = b \<and> tx_responseBodyBuffer tx = c \<and>
      R \<subseteq> set (tx_ruleRemoveByID tx)" and e: "action_Evaluate rules r a tx = Some tx'"
  show "tx_lastPhase tx' = p \<and> tx_requestBodyBuffer tx' = b \<and> tx_responseBodyBuffer tx' = c \<and>
      R \<subseteq> set (tx_ruleRemoveByID tx')"
    using P action_frame [OF e] by (auto simp: same_core_def dest: set_mono_prefix)
  then show "tx_lastPhase tx' = p \<and> tx_requestBodyBuffer tx' = b \<and> tx_responseBodyBuffer tx' = c \<and>
      R \<subseteq> set (tx_ruleRemoveByID tx')" .
qed simp_all

interpretation wf: engine_invariant "\<lambda>tx. vars_ok (tx_variables tx)" "\<lambda>a. True"
proof unfold_locales
  fix tx tx' :: Transaction and a rules r
  assume P: "vars_ok (tx_variables tx)" and e: "action_Evaluate rules r a tx = Some tx'"
  show "vars_ok (tx_variables tx')"
    using P action_frame [OF e] by (simp add: same_core_def)
  then show "vars_ok (tx_variables tx')" .
qed simp_all

subsection \<open>Phases\<close>

lemma Eval_Some:
  assumes "Eval addr rules phase tx = Some (d, tx')"
  obtains t where
    "eval_loop addr rules phase rules (tx\<lparr>tx_lastPhase := phase, tx_transformationCache := Map.empty\<rparr>) = Some t"
    "tx' = (if tx_AllowType t = AllowTypePhase then t\<lparr>tx_AllowType := AllowTypeUnset\<rparr> else t)\<lparr>tx_Skip := 0\<rparr>"
    "d = (tx_interruption tx' \<noteq> None)"
  using assms by (auto simp: Eval_def bind_eq_Some_conv Let_def)

text \<open>
  (C8) With the engine in detection mode or off, no phase can interrupt the transaction: whatever the
  rules are, as long as they have no \<open>ctl:ruleEngine\<close> action and operators change variables only, the
  interruption and the status of the engine stay what they were.
\<close>

theorem detection_never_interrupts:
  assumes "tx_RuleEngine tx \<noteq> RuleEngineOn" "\<forall>n\<in>set rules. node_sane (\<lambda>a. \<not> is_ctl_engine a) n"
    "Eval addr rules phase tx = Some (d, tx')"
  shows "tx_interruption tx' = tx_interruption tx \<and> tx_RuleEngine tx' = tx_RuleEngine tx"
proof -
  from assms(3) obtain t where
    l: "eval_loop addr rules phase rules (tx\<lparr>tx_lastPhase := phase, tx_transformationCache := Map.empty\<rparr>) = Some t"
    and tx': "tx' = (if tx_AllowType t = AllowTypePhase then t\<lparr>tx_AllowType := AllowTypeUnset\<rparr> else t)\<lparr>tx_Skip := 0\<rparr>"
    by (rule Eval_Some)
  have "tx_RuleEngine t = tx_RuleEngine tx \<and> tx_RuleEngine tx \<noteq> RuleEngineOn \<and> tx_interruption t = tx_interruption tx"
    by (rule detect.P_eval_loop [OF l]) (simp_all add: assms)
  with tx' show ?thesis by simp
qed

text \<open>
  (C9) Once a transaction is interrupted, the phases before logging evaluate no rule: they only record
  the phase, clear the transformation cache and end the scope of \<open>skip\<close> and \<open>allow:phase\<close>.
\<close>

theorem interrupted_runs_nothing:
  assumes "tx_interruption tx \<noteq> None" "phase \<noteq> PhaseLogging"
  shows "Eval addr rules phase tx = Some (True, tx\<lparr>tx_lastPhase := phase, tx_transformationCache := Map.empty, tx_Skip := 0,
    tx_AllowType := (if tx_AllowType tx = AllowTypePhase then AllowTypeUnset else tx_AllowType tx)\<rparr>)"
proof -
  have "eval_loop addr rules phase ns t = Some t" if "tx_interruption t \<noteq> None" for ns t
    using that assms(2) by (cases ns) simp_all
  with assms(1) show ?thesis by (cases tx) (simp add: Eval_def)
qed

text \<open>
  After a phase, the transaction remembers it as the last phase, no \<open>skip\<close> and no \<open>allow:phase\<close>
  reaches into the next phase, the result says whether there is an interruption, and the bodies
  are as they were.
\<close>

theorem Eval_ends_phase:
  assumes "Eval addr rules phase tx = Some (d, tx')" "\<forall>n\<in>set rules. node_sane (\<lambda>a. True) n"
  shows "tx_lastPhase tx' = phase \<and> tx_Skip tx' = 0 \<and> tx_AllowType tx' \<noteq> AllowTypePhase \<and>
    d = (tx_interruption tx' \<noteq> None) \<and> tx_requestBodyBuffer tx' = tx_requestBodyBuffer tx \<and>
    tx_responseBodyBuffer tx' = tx_responseBodyBuffer tx"
proof -
  from assms(1) obtain t where
    l: "eval_loop addr rules phase rules (tx\<lparr>tx_lastPhase := phase, tx_transformationCache := Map.empty\<rparr>) = Some t"
    and tx': "tx' = (if tx_AllowType t = AllowTypePhase then t\<lparr>tx_AllowType := AllowTypeUnset\<rparr> else t)\<lparr>tx_Skip := 0\<rparr>"
    and "d = (tx_interruption tx' \<noteq> None)"
    by (rule Eval_Some)
  have "tx_lastPhase t = phase \<and> tx_requestBodyBuffer t = tx_requestBodyBuffer tx \<and>
      tx_responseBodyBuffer t = tx_responseBodyBuffer tx \<and> {} \<subseteq> set (tx_ruleRemoveByID t)"
    by (rule core.P_eval_loop [OF l]) (simp_all add: assms)
  with tx' \<open>d = _\<close> show ?thesis by simp
qed

subsection \<open>Chains\<close>

definition never_matches :: "Rule \<Rightarrow> bool" where
  "never_matches q = (\<exists>op. r_operator q = Some op \<and>
     (\<forall>s tx b tx'. executeOperator op s tx = Some (b, tx') \<longrightarrow> \<not> b))"





subsection \<open>No panics\<close>

text \<open>
  The ways a rule can panic: a macro over \<open>JSON\<close>, which has no collection, a \<open>setvar\<close> without a
  value, a transformation or an operator that panics itself.
\<close>

definition macro_safe :: "macro \<Rightarrow> bool" where
  "macro_safe m = list_all (\<lambda>t. tok_variable t \<noteq> VJSON) (tokens m)"

fun action_safe :: "actionFn \<Rightarrow> bool" where
  "action_safe (setvarFn k (Some v) col b) = (macro_safe k \<and> macro_safe v)"
| "action_safe (setvarFn k None col b) = False"
| "action_safe (setenvFn k m) = macro_safe m"
| "action_safe _ = True"

definition rule_safe :: "Rule \<Rightarrow> bool" where
  "rule_safe r = (list_all (\<lambda>a. action_safe (act_Function a)) (r_actions r) \<and>
     pred_option macro_safe (r_Msg r) \<and> pred_option macro_safe (r_LogData r) \<and>
     (\<forall>t\<in>set (r_transformations r). \<forall>s. t s \<noteq> None) \<and>
     pred_option (\<lambda>op. \<forall>tx s. op_Operator op tx s \<noteq> None) (r_operator r))"

definition node_safe :: "RuleNode \<Rightarrow> bool" where
  "node_safe n = (rule_safe (fst n) \<and> list_all rule_safe (snd n))"

lemma Collection_total: "v \<noteq> VJSON \<Longrightarrow> \<exists>c. Collection tx v = Some c"
  by (simp add: Collection_def Let_def)

lemma those_map_total: "(\<And>x. x \<in> set xs \<Longrightarrow> \<exists>y. f x = Some y) \<Longrightarrow> \<exists>ys. those (map f xs) = Some ys"
proof (induction xs)
  case (Cons x xs)
  then obtain y ys where "f x = Some y" "those (map f xs) = Some ys" by fastforce
  then show ?case by simp
qed simp

lemma expandToken_total: "tok_variable t \<noteq> VJSON \<Longrightarrow> \<exists>s. expandToken (Collection tx) t = Some s"
  using Collection_total [of "tok_variable t" tx] by (auto simp: expandToken_def)

lemma Expand_total:
  assumes "macro_safe m"
  shows "\<exists>s. Expand (Collection tx) m = Some s"
proof -
  have tok: "\<exists>s. expandToken (Collection tx) t = Some s" if "t \<in> set (tokens m)" for t
    using assms that by (intro expandToken_total) (simp add: macro_safe_def list_all_iff)
  then obtain ys where "those (map (expandToken (Collection tx)) (tokens m)) = Some ys"
    using those_map_total [of "tokens m"] by blast
  moreover have "length (tokens m) = 1 \<Longrightarrow> hd (tokens m) \<in> set (tokens m)"
    by (cases "tokens m") simp_all
  ultimately show ?thesis
    using tok by (auto simp: Expand_def)
qed

lemma action_total: "action_safe a \<Longrightarrow> \<exists>tx'. action_Evaluate rules r a tx = Some tx'"
proof (cases a)
  case (setvarFn k v col b)
  assume "action_safe a"
  with setvarFn obtain m where "v = Some m" "macro_safe k" "macro_safe m" by (cases v) auto
  with setvarFn Expand_total [of k tx] Expand_total [of m tx] show ?thesis
    by (auto simp: setvar_Evaluate_def)
next
  case (setenvFn k m)
  assume "action_safe a"
  with setenvFn Expand_total [of m tx] show ?thesis by (auto simp: setenv_Evaluate_def)
next
  case (ctlFn c s col key)
  with ctl_total [of rules c s col key tx] show ?thesis by auto
qed auto

lemma run_actions_total: "rule_safe r \<Longrightarrow> \<exists>tx'. run_actions sel rules r tx = Some tx'"
  unfolding run_actions_def
  by (rule ofold_Some) (simp add: rule_safe_def list_all_iff action_total)

lemma rule_matchVariable_total: "rule_safe r \<Longrightarrow> \<exists>tx'. rule_matchVariable rules r m tx = Some tx'"
  unfolding rule_matchVariable_def by (rule run_actions_total)

lemma expand_into_total: "rule_safe r \<Longrightarrow> \<exists>md'. expand_into r tx md = Some md'"
proof -
  assume "rule_safe r"
  then have "\<And>m. r_Msg r = Some m \<or> r_LogData r = Some m \<Longrightarrow> \<exists>s. Expand (Collection tx) m = Some s"
    by (intro Expand_total) (auto simp: rule_safe_def)
  then show ?thesis
    by (cases "r_Msg r"; cases "r_LogData r") (fastforce simp: expand_into_def)+
qed

lemma executeTransformations_total:
  "\<forall>t\<in>set ts. \<forall>s. t s \<noteq> None \<Longrightarrow> \<exists>res. executeTransformations ts s errs = Some res"
proof (induction ts arbitrary: s errs)
  case (Cons t ts)
  then obtain v ch e where "t s = Some (v, ch, e)" by fastforce
  with Cons show ?case by (cases e) auto
qed simp

lemma executeTransformationsMultimatch_total:
  "\<forall>t\<in>set ts. \<forall>s. t s \<noteq> None \<Longrightarrow> \<exists>res. executeTransformationsMultimatch ts s res0 errs = Some res"
proof (induction ts arbitrary: s res0 errs)
  case (Cons t ts)
  then obtain v ch e where "t s = Some (v, ch, e)" by fastforce
  with Cons show ?case by (cases e) auto
qed simp

lemma transformArg_total: "rule_safe r \<Longrightarrow> \<exists>res tx'. transformArg addr r arg i tx = Some (res, tx')"
  using executeTransformations_total [of "r_transformations r" "md_Value arg" "[]"]
  by (auto simp: rule_safe_def transformArg_def Let_def split: option.splits)

lemma set_rule_variables_total: "\<exists>tx'. set_rule_variables r tx = Some tx'"
proof -
  have "\<exists>t'. map_SetIndex_var VRule k 0 s t = Some t'" for k s t
    using map_SetIndex_0 [of k s "map_of_var VRule t"] by (auto simp: map_SetIndex_var_def)
  then show ?thesis
    unfolding set_rule_variables_def by (intro ofold_Some) (simp split: prod.splits)
qed

lemma eval_carg_total:
  assumes "rule_safe r" "r_operator r = Some op"
  shows "\<exists>st'. eval_carg rules r op cl arg carg st = Some st'"
proof -
  obtain tx mvs where st: "st = (tx, mvs)" by (cases st)
  from assms have "op_Operator op tx carg \<noteq> None" by (simp add: rule_safe_def)
  then obtain b tx1 where 1: "executeOperator op carg tx = Some (b, tx1)"
    by (auto simp: executeOperator_def)
  define mr where "mr = (match_data (md_Variable arg) (md_Key arg) carg)\<lparr>md_ChainLevel := cl\<rparr>"
  obtain tx2 where 2: "rule_matchVariable rules r mr tx1 = Some tx2"
    using rule_matchVariable_total [OF assms(1)] by blast
  obtain mr' where "expand_into r tx2 mr = Some mr'"
    using expand_into_total [OF assms(1)] by blast
  with 1 2 show ?thesis by (cases b) (auto simp: eval_carg_def st Let_def mr_def)
qed

lemma eval_value_total:
  assumes "rule_safe r" "r_operator r = Some op"
  shows "\<exists>st'. eval_value addr rules r op cl iarg st = Some st'"
proof -
  obtain i arg tx mvs where st: "iarg = (i, arg)" "st = (tx, mvs)" by (cases iarg, cases st)
  have loop: "\<exists>st'. ofold (eval_carg rules r op cl arg) args st0 = Some st'" for args st0
    by (rule ofold_Some) (rule eval_carg_total [OF assms])
  obtain args errs where m: "transformMultiMatchArg r arg = Some (args, errs)"
    using executeTransformationsMultimatch_total assms(1)
    by (fastforce simp: rule_safe_def transformMultiMatchArg_def)
  obtain s errs' tx1 where a: "transformArg addr r arg i tx = Some ((s, errs'), tx1)"
    using transformArg_total [OF assms(1)] by (metis surj_pair)
  show ?thesis
    using loop m a by (cases "r_MultiMatch r") (simp_all add: eval_value_def st del: ofold.simps)
qed

lemma eval_targets_total:
  assumes "rule_safe r"
  shows "\<exists>tx' mvs. eval_targets addr rules r cl tx = Some (tx', mvs)"
proof -
  obtain tx1 where 1: "set_rule_variables r (tx\<lparr>tx_Capture := r_Capture r\<rparr>) = Some tx1"
    using set_rule_variables_total by blast
  show ?thesis
  proof (cases "r_operator r")
    case None
    obtain md where "(if ParentID r \<noteq> noID \<or> r_MultiMatch r then expand_into r tx1 empty_match else Some empty_match) = Some md"
      using expand_into_total [OF assms] by (metis (full_types))
    with 1 None rule_matchVariable_total [OF assms, of rules md tx1] show ?thesis
      by (auto simp: eval_targets_def)
  next
    case (Some op)
    have "\<exists>st'. eval_variable addr rules r op cl ecol v st = Some st'" for ecol v st
      unfolding eval_variable_def by (rule ofold_Some) (rule eval_value_total [OF assms Some])
    then have "\<exists>st'. ofold (eval_variable addr rules r op cl (tx_ruleRemoveTargetByID tx1 (ID r))) (r_variables r) (tx1, []) = Some st'"
      by (intro ofold_Some)
    with 1 Some show ?thesis by (auto simp: eval_targets_def)
  qed
qed

lemma finish_match_total: "rule_safe r \<Longrightarrow> \<exists>st'. finish_match rules r tx mvs = Some st'"
proof -
  assume r: "rule_safe r"
  obtain md where "expand_into r tx (hd mvs) = Some md"
    using expand_into_total [OF r] by blast
  moreover obtain tx1 where "run_actions (\<lambda>a tx. action_Type a = ActionTypeFlow \<or>
      action_Type a = ActionTypeDisruptive \<and> tx_RuleEngine tx = RuleEngineOn) rules r tx = Some tx1"
    using run_actions_total [OF r] by blast
  ultimately show ?thesis by (simp add: finish_match_def)
qed

lemma doEvaluate_total:
  "rule_safe r \<Longrightarrow> list_all rule_safe ch \<Longrightarrow> \<exists>st'. doEvaluate addr rules r ch cl tx = Some st'"
  and eval_chain_total:
  "list_all rule_safe ch \<Longrightarrow> \<exists>st'. eval_chain addr rules ch cl tx mvs = Some st'"
proof (induction addr rules r ch cl tx and addr rules ch cl tx mvs rule: doEvaluate_eval_chain.induct)
  case (1 addr rules r ch cl tx)
  obtain tx1 mvs1 where t: "eval_targets addr rules r cl tx = Some (tx1, mvs1)"
    using eval_targets_total [OF "1.prems"(1)] by blast
  show ?case
  proof (cases "mvs1 \<noteq> [] \<and> ParentID r = noID")
    case True
    with "1.IH" [OF t refl _ _ "1.prems"(2)] obtain tx2 res where "eval_chain addr rules ch cl tx1 mvs1 = Some (tx2, res)"
      by auto
    with t True finish_match_total [OF "1.prems"(1)] show ?thesis
      by (cases res) (simp_all add: doEvaluate.simps)
  next
    case False
    with t show ?thesis by (auto simp: doEvaluate.simps)
  qed
next
  case (3 addr rules nr ch cl tx mvs)
  then obtain tx1 mcv where d: "doEvaluate addr rules nr ch (cl + 1) tx = Some (tx1, mcv)" by fastforce
  with "3.IH"(2) [OF d refl] "3.prems" show ?case
    by (cases "mcv = []") (simp_all add: eval_chain.simps)
qed (simp add: eval_chain.simps)

lemma eval_loop_total:
  "\<forall>n\<in>set ns. node_safe n \<Longrightarrow> \<exists>tx'. eval_loop addr rules phase ns tx = Some tx'"
proof (induction ns arbitrary: tx)
  case (Cons n ns)
  have "\<exists>t. Evaluate addr rules n t0 = Some t" for t0
    using doEvaluate_total [of "fst n" "snd n" addr rules 0 t0] Cons.prems
    by (auto simp: Evaluate_def node_safe_def)
  then obtain t where "Evaluate addr rules n (map_put VMatchedVars (map_Reset (map_of_var VMatchedVars tx)) tx) = Some t"
    by blast
  with Cons show ?case by (auto split: option.splits)
qed simp

lemma Eval_runs: "\<forall>n\<in>set rules. node_safe n \<Longrightarrow> \<exists>d tx'. Eval addr rules phase tx = Some (d, tx')"
  using eval_loop_total [of rules addr rules phase
      "tx\<lparr>tx_lastPhase := phase, tx_transformationCache := Map.empty\<rparr>"] by (auto simp: Eval_def)


subsection \<open>Examples\<close>

definition example_tx :: Transaction where
  "example_tx = fresh_Transaction example_settings"

text \<open>\<open>SecAction "id:1,phase:1,deny"\<close>, and a chain of it with a rule whose operator is \<open>@noMatch\<close>.\<close>

definition example_deny :: Rule where
  "example_deny = NewRule\<lparr>ID := 1, LogID := ''1'', Phase := 1,
     r_actions := [\<lparr>act_Name = ''deny'', act_Function = denyFn\<rparr>]\<rparr>"

definition example_noMatch :: Rule where
  "example_noMatch = NewRule\<lparr>ParentID := 1, r_operator := Some \<lparr>op_Operator = (\<lambda>tx s. Some (False, tx)),
     op_Function = ''@noMatch'', op_Data = [], op_Negation = False\<rparr>\<rparr>"

lemma example_sane:
  "node_sane (\<lambda>a. True) (example_deny, [])" "node_sane (\<lambda>a. \<not> is_ctl_engine a) (example_deny, [])"
  "node_safe (example_deny, [])" "node_sane (\<lambda>a. True) (example_deny, [example_noMatch])"
  "node_safe (example_deny, [example_noMatch])" "never_matches example_noMatch"
proof -
  have vs: "tx = tx\<lparr>tx_variables := tx_variables tx\<rparr>" for tx :: Transaction by simp
  then have "captures_only (\<lambda>tx s. Some (False, tx))"
    unfolding captures_only_def by (metis option.inject prod.inject)
  then show "node_sane (\<lambda>a. True) (example_deny, [example_noMatch])"
    by (simp add: node_sane_def rule_sane_def example_deny_def example_noMatch_def NewRule_def)
qed (simp_all add: node_sane_def rule_sane_def example_deny_def NewRule_def is_ctl_engine_def node_safe_def
    rule_safe_def example_noMatch_def never_matches_def executeOperator_def exI [of Not False])


theorem detection_never_interrupts_witness:
  "\<exists>d tx'. Eval (\<lambda>_. 0) [(example_deny, [])] 1 (example_tx\<lparr>tx_RuleEngine := RuleEngineDetectionOnly\<rparr>) = Some (d, tx') \<and>
     tx_interruption tx' = None"
proof -
  let ?tx = "example_tx\<lparr>tx_RuleEngine := RuleEngineDetectionOnly\<rparr>"
  obtain d tx' where e: "Eval (\<lambda>_. 0) [(example_deny, [])] 1 ?tx = Some (d, tx')"
    using Eval_runs [of "[(example_deny, [])]"] example_sane by fastforce
  with detection_never_interrupts [OF _ _ e] example_sane show ?thesis
    by (simp add: example_tx_def fresh_Transaction_def)
qed

theorem interrupted_runs_nothing_witness:
  "\<exists>tx'. Eval (\<lambda>_. 0) [(example_deny, [])] 2 (deny_Evaluate example_deny example_tx) = Some (True, tx') \<and>
     tx_matchedRules tx' = []"
proof -
  have i: "tx_interruption (deny_Evaluate example_deny example_tx) \<noteq> None"
    "tx_matchedRules (deny_Evaluate example_deny example_tx) = []"
    by (simp_all add: deny_Evaluate_def Interrupt_def example_tx_def fresh_Transaction_def)
  then show ?thesis
    using interrupted_runs_nothing [of "deny_Evaluate example_deny example_tx" 2 "\<lambda>_. 0" "[(example_deny, [])]"] by simp
qed

theorem Eval_ends_phase_witness:
  "\<exists>d tx'. Eval (\<lambda>_. 0) [(example_deny, [])] 1 (example_tx\<lparr>tx_Skip := 7\<rparr>) = Some (d, tx') \<and>
     tx_lastPhase tx' = 1 \<and> tx_Skip tx' = 0"
proof -
  obtain d tx' where e: "Eval (\<lambda>_. 0) [(example_deny, [])] 1 (example_tx\<lparr>tx_Skip := 7\<rparr>) = Some (d, tx')"
    using Eval_runs [of "[(example_deny, [])]"] example_sane by fastforce
  with Eval_ends_phase [OF e] example_sane show ?thesis by simp
qed


subsection \<open>Removed rules and markers\<close>

lemma eval_loop_interrupted:
  "tx_interruption tx \<noteq> None \<Longrightarrow> phase \<noteq> PhaseLogging \<Longrightarrow> eval_loop addr rules phase ns tx = Some tx"
  by (cases ns) simp_all

lemma removed_kept:
  assumes "i \<in> set (tx_ruleRemoveByID tx)" "node_sane (\<lambda>a. True) n"
    "Evaluate addr rules n (map_put VMatchedVars (map_Reset (map_of_var VMatchedVars tx)) tx) = Some t"
  shows "i \<in> set (tx_ruleRemoveByID (t\<lparr>tx_Capture := False\<rparr>))"
proof -
  have "tx_lastPhase t = tx_lastPhase tx \<and> tx_requestBodyBuffer t = tx_requestBodyBuffer tx \<and>
      tx_responseBodyBuffer t = tx_responseBodyBuffer tx \<and> {i} \<subseteq> set (tx_ruleRemoveByID t)"
    by (rule core.P_Evaluate [OF assms(3)]) (simp_all add: assms(1,2))
  then show ?thesis by simp
qed

text \<open>
  (C12) A rule whose id was removed from the transaction, as \<open>ctl:ruleRemoveById\<close> does, has no effect
  at all on a phase: evaluating the rules gives the same state as evaluating them without it.
\<close>

theorem removed_rules_have_no_effect:
  assumes "\<forall>n\<in>set ns. node_sane (\<lambda>a. True) n" "i \<in> set (tx_ruleRemoveByID tx)"
  shows "eval_loop addr rules phase (filter (\<lambda>n. ID (fst n) \<noteq> i) ns) tx = eval_loop addr rules phase ns tx"
  using assms
proof (induction ns arbitrary: tx)
  case (Cons n ns)
  have IH: "eval_loop addr rules phase (filter (\<lambda>n. ID (fst n) \<noteq> i) ns) t = eval_loop addr rules phase ns t"
    if "i \<in> set (tx_ruleRemoveByID t)" for t
    using Cons.IH Cons.prems(1) that by simp
  let ?reset = "map_put VMatchedVars (map_Reset (map_of_var VMatchedVars tx)) tx"
  show ?case
  proof (cases "ID (fst n) = i")
    case True
    with Cons.prems IH [of tx] show ?thesis
      by (cases "tx_interruption tx \<noteq> None \<and> phase \<noteq> PhaseLogging") (simp_all add: eval_loop_interrupted)
  next
    case False
    define f where "f = eval_loop addr rules phase (filter (\<lambda>n. ID (fst n) \<noteq> i) ns)"
    define g where "g = eval_loop addr rules phase ns"
    have step: "f (t\<lparr>tx_Capture := False\<rparr>) = g (t\<lparr>tx_Capture := False\<rparr>)"
      if "Evaluate addr rules n ?reset = Some t" for t
      unfolding f_def g_def by (rule IH, rule removed_kept [OF Cons.prems(2) _ that]) (simp add: Cons.prems(1))
    have skip: "f t = g t" if "t \<in> {tx, tx\<lparr>tx_SkipAfter := []\<rparr>, tx\<lparr>tx_Skip := tx_Skip tx - 1\<rparr>}" for t
      unfolding f_def g_def using that Cons.prems(2) by (intro IH) auto
    from False have keep: "filter (\<lambda>n. ID (fst n) \<noteq> i) (n # ns) = n # filter (\<lambda>n. ID (fst n) \<noteq> i) ns" by simp
    show ?thesis unfolding keep eval_loop.simps f_def [symmetric] g_def [symmetric]
      by (cases "Evaluate addr rules n ?reset") (simp_all add: step skip split: option.split)
  qed
qed simp

theorem removed_rules_have_no_effect_witness:
  "eval_loop (\<lambda>_. 0) [] 1 [] (RemoveRuleByID 1 example_tx) =
   eval_loop (\<lambda>_. 0) [] 1 [(example_deny, [])] (RemoveRuleByID 1 example_tx)"
proof -
  have "filter (\<lambda>n. ID (fst n) \<noteq> 1) [(example_deny, [])] = []" by (simp add: example_deny_def)
  moreover have "1 \<in> set (tx_ruleRemoveByID (RemoveRuleByID 1 example_tx))"
    by (simp add: RemoveRuleByID_def)
  moreover have "\<forall>n\<in>set [(example_deny, [])]. node_sane (\<lambda>a. True) n" using example_sane(1) by simp
  ultimately show ?thesis
    using removed_rules_have_no_effect [of "[(example_deny, [])]" 1 "RemoveRuleByID 1 example_tx" "\<lambda>_. 0" "[]" 1]
    by metis
qed

text \<open>
  (C13) After \<open>skipAfter\<close>, evaluation takes up again exactly behind the first marker of that name that
  belongs to the phase: nothing before it runs, and the request to skip is used up.
\<close>

theorem skipAfter_resumes_behind_marker:
  assumes "tx_SkipAfter tx = m" "m \<noteq> []" "tx_interruption tx = None" "\<forall>n\<in>set ns1. SecMark (fst n) \<noteq> m"
    "SecMark (fst k) = m" "Phase (fst k) = 0 \<or> Phase (fst k) = phase" "ID (fst k) \<notin> set (tx_ruleRemoveByID tx)"
  shows "eval_loop addr rules phase (ns1 @ k # ns2) tx = eval_loop addr rules phase ns2 (tx\<lparr>tx_SkipAfter := []\<rparr>)"
  using assms(4)
proof (induction ns1)
  case Nil
  from assms(1-3,5-7) show ?case by (cases "Phase (fst k) = 0") simp_all
next
  case (Cons n ns1)
  then have "eval_loop addr rules phase (ns1 @ k # ns2) tx = eval_loop addr rules phase ns2 (tx\<lparr>tx_SkipAfter := []\<rparr>)"
    and "SecMark (fst n) \<noteq> tx_SkipAfter tx" using assms(1) by simp_all
  with assms(1-3) show ?case by simp
qed

theorem skipAfter_resumes_behind_marker_witness:
  "eval_loop (\<lambda>_. 0) [] 1 ([(example_deny, [])] @ (NewRule\<lparr>Phase := 0, SecMark := ''END''\<rparr>, []) # [])
     (example_tx\<lparr>tx_SkipAfter := ''END''\<rparr>) = Some example_tx"
proof -
  have "(example_tx\<lparr>tx_SkipAfter := []\<rparr>) = example_tx"
    by (simp add: example_tx_def fresh_Transaction_def)
  then show ?thesis
    by (subst skipAfter_resumes_behind_marker [of _ "''END''"])
      (simp_all add: example_tx_def fresh_Transaction_def example_deny_def NewRule_def)
qed

end
