(* ===== verification/Body_Processors.thy ===== *)
theory Body_Processors
  imports Tx_State Go_Text
begin

text \<open>
  The body processors of \<open>internal/bodyprocessors\<close>: URL-encoded, raw, JSON, multipart and XML, and their
  registry. A processor gets the bytes its reader returns, the \<open>Content-Type\<close> of the options and the
  transaction whose variables it fills; \<open>None\<close> is a panic.

  What the processors read from outside this code is an argument: the tree of \<open>gjson\<close>, the parts of
  \<open>mime/multipart\<close>, the media types of \<open>mime\<close> and the tokens of \<open>encoding/xml\<close>. Go iterates its maps
  in an order of the runtime's choice, which is an argument too.
\<close>

type_synonym ProcessFn = "string \<Rightarrow> string \<Rightarrow> Transaction \<Rightarrow> (go_error option \<times> Transaction) option"

record BodyProcessor =
  bp_ProcessRequest :: ProcessFn
  bp_ProcessResponse :: ProcessFn

subsection \<open>URL-encoded and raw bodies\<close>

definition store_body :: "string \<Rightarrow> Transaction \<Rightarrow> Transaction" where
  "store_body b tx = single_Set VRequestBodyLength (itoa (int (length b))) (single_Set VRequestBody b tx)"

definition urlencoded_ProcessRequest :: "(multimap \<Rightarrow> multimap) \<Rightarrow> ProcessFn" where
  "urlencoded_ProcessRequest iter b mime tx =
     (let values = ParseQuery b CHR ''&'';
          tx = fold (\<lambda>(k, vs) tx. map_put VArgsPost (map_Set k vs (map_of_var VArgsPost tx)) tx) (iter values) tx in
      Some (None, store_body b tx))"

definition raw_ProcessRequest :: ProcessFn where
  "raw_ProcessRequest b mime tx = Some (None, store_body b tx)"

definition no_ProcessResponse :: ProcessFn where
  "no_ProcessResponse b mime tx = Some (None, tx)"

subsection \<open>JSON bodies\<close>

text \<open>
  A \<open>gjson.Result\<close> as \<open>readItems\<close> reads it. \<open>ForEach\<close> passes a string key for the members of an object
  and a numeric key for the elements of an array.
\<close>

datatype gjson_key = StrKey string | NumKey int

datatype gjson =
    GString string
  | GNull
  | GRaw string
  | GJSON "(gjson_key \<times> gjson) list"

text \<open>The map that \<open>readItems\<close> fills, in the order of the first assignments.\<close>

type_synonym items = "(string \<times> string) list"

fun append_key :: "string \<Rightarrow> gjson_key \<Rightarrow> string" where
  "append_key objKey (StrKey s) = objKey @ ''.'' @ s"
| "append_key objKey (NumKey n) = objKey @ ''.'' @ itoa n"

fun is_NumKey :: "gjson_key \<Rightarrow> bool" where
  "is_NumKey (NumKey n) = True"
| "is_NumKey (StrKey s) = False"

fun readItems :: "(gjson_key \<times> gjson) list \<Rightarrow> string \<Rightarrow> nat \<Rightarrow> items \<Rightarrow> items" where
  "readItems [] objKey arrayLen res =
     (if arrayLen > 0 then AList.update objKey (itoa (int arrayLen)) res else res)"
| "readItems ((key, value) # rest) objKey arrayLen res =
     (let k = append_key objKey key;
          arrayLen = (if is_NumKey key then Suc arrayLen else arrayLen) in
      readItems rest objKey arrayLen (case value of
          GJSON children \<Rightarrow> readItems children k 0 res
        | GString s \<Rightarrow> AList.update k s res
        | GNull \<Rightarrow> AList.update k [] res
        | GRaw raw \<Rightarrow> AList.update k raw res))"

definition readJSON :: "(string \<Rightarrow> (gjson_key \<times> gjson) list) \<Rightarrow> string \<Rightarrow> items" where
  "readJSON parse s = readItems (parse s) ''json'' 0 []"

definition set_items :: "RuleVariable \<Rightarrow> items \<Rightarrow> Transaction \<Rightarrow> Transaction option" where
  "set_items v kvs tx = ofold (\<lambda>(key, value) tx. map_SetIndex_var v key 0 value tx) kvs tx"

definition json_Process ::
  "RuleVariable \<Rightarrow> string \<Rightarrow> (items \<Rightarrow> items) \<Rightarrow> (string \<Rightarrow> (gjson_key \<times> gjson) list) \<Rightarrow> ProcessFn" where
  "json_Process col name iter parse b mime tx = do {
     tx \<leftarrow> set_items col (iter (readJSON parse b)) tx;
     Some (None, map_put VTX (map_Set name [b] (map_of_var VTX tx)) tx)
   }"

definition json_ProcessRequest :: "(items \<Rightarrow> items) \<Rightarrow> (string \<Rightarrow> (gjson_key \<times> gjson) list) \<Rightarrow> ProcessFn" where
  "json_ProcessRequest = json_Process VArgsPost ''json_request_body''"

definition json_ProcessResponse :: "(items \<Rightarrow> items) \<Rightarrow> (string \<Rightarrow> (gjson_key \<times> gjson) list) \<Rightarrow> ProcessFn" where
  "json_ProcessResponse = json_Process VResponseArgs ''json_response_body''"

subsection \<open>Multipart bodies\<close>

text \<open>
  A part, with the outcomes of reading its data and of creating a temporary file for it; the
  sequence of \<open>NextPart\<close> ends at \<open>io.EOF\<close>.
\<close>

record part =
  p_FormName :: string
  p_Header :: multimap
  p_data :: "go_error + string"
  p_temp :: "go_error + string"

type_synonym media_parser = "string \<Rightarrow> go_error + (string \<times> (string \<rightharpoonup> string))"

definition header_first :: "multimap \<Rightarrow> string \<Rightarrow> string" where
  "header_first h k = (case multi_get h k of v # _ \<Rightarrow> v | [] \<Rightarrow> [])"

definition originFileName :: "media_parser \<Rightarrow> part \<Rightarrow> string" where
  "originFileName media p = (case media (header_first (p_Header p) ''Content-Disposition'') of
     Inl _ \<Rightarrow> []
   | Inr (_, params) \<Rightarrow> (case params ''filename'' of Some f \<Rightarrow> f | None \<Rightarrow> []))"

definition strict_error :: "go_error \<Rightarrow> Transaction \<Rightarrow> go_error option \<times> Transaction" where
  "strict_error err tx = (Some err, single_Set VMultipartStrictError ''1'' tx)"

definition add_var :: "RuleVariable \<Rightarrow> string \<Rightarrow> string \<Rightarrow> Transaction \<Rightarrow> Transaction" where
  "add_var v k s tx = map_put v (map_Add k s (map_of_var v tx)) tx"

definition add_part_headers :: "part \<Rightarrow> Transaction \<Rightarrow> Transaction" where
  "add_part_headers p tx = fold (\<lambda>(key, values) tx. fold (\<lambda>value tx.
     add_var VMultipartPartHeaders (p_FormName p) (key @ '': '' @ value) tx) values tx) (p_Header p) tx"

definition store_part ::
  "media_parser \<Rightarrow> part \<Rightarrow> Transaction \<Rightarrow> (go_error + int) \<times> Transaction option" where
  "store_part media p tx =
     (let filename = originFileName media p in
      if filename \<noteq> [] then
        (case p_temp p of
           Inl err \<Rightarrow> (Inl err, Some tx)
         | Inr name \<Rightarrow> (case p_data p of
             Inl err \<Rightarrow> (Inl err, Some tx)
           | Inr d \<Rightarrow> (Inr (int (length d)), do {
               let tx = add_var VFilesTmpNames [] name tx;
               let tx = add_var VFiles [] filename tx;
               tx \<leftarrow> map_SetIndex_var VFilesSizes filename 0 (itoa (int (length d))) tx;
               Some (add_var VFilesNames [] (p_FormName p) tx) })))
      else (case p_data p of
          Inl err \<Rightarrow> (Inl err, Some tx)
        | Inr d \<Rightarrow> (Inr (int (length d)), Some (add_var VArgsPost (p_FormName p) d tx))))"

fun read_parts ::
  "media_parser \<Rightarrow> (go_error + part) list \<Rightarrow> int \<Rightarrow> Transaction \<Rightarrow> (go_error option \<times> Transaction) option" where
  "read_parts media [] totalSize tx = Some (None, tx)"
| "read_parts media (Inl err # ps) totalSize tx = Some (strict_error err tx)"
| "read_parts media (Inr p # ps) totalSize tx =
     (case store_part media p (add_part_headers p tx) of
        (Inl err, res) \<Rightarrow> map_option (strict_error err) res
      | (Inr sz, res) \<Rightarrow> Option.bind res (\<lambda>tx.
          read_parts media ps (totalSize + sz) (single_Set VFilesCombinedSize (itoa (totalSize + sz)) tx)))"

definition multipart_ProcessRequest ::
  "media_parser \<Rightarrow> (string \<Rightarrow> string \<Rightarrow> (go_error + part) list) \<Rightarrow> ProcessFn" where
  "multipart_ProcessRequest media parts b mime tx = (case media mime of
     Inl err \<Rightarrow> Some (strict_error err tx)
   | Inr (mediaType, params) \<Rightarrow>
       if \<not> has_prefix mediaType ''multipart/'' then Some (Some ''not a multipart body'', tx)
       else read_parts media (parts b (case params ''boundary'' of Some x \<Rightarrow> x | None \<Rightarrow> [])) 0 tx)"

subsection \<open>XML bodies\<close>

datatype xml_token = StartElement "string list" | CharData string | OtherToken

text \<open>How the token stream ends: the end of the input, a syntax error for an early end, another error.\<close>

datatype xml_end = XmlEOF | XmlUnexpectedEOF | XmlError go_error

fun xml_tokens :: "xml_token list \<Rightarrow> string list \<Rightarrow> string list \<Rightarrow> string list \<times> string list" where
  "xml_tokens [] attrs content = (attrs, content)"
| "xml_tokens (StartElement avs # ts) attrs content = xml_tokens ts (attrs @ avs) content"
| "xml_tokens (CharData s # ts) attrs content =
     (let c = TrimSpace s in xml_tokens ts attrs (if c \<noteq> [] then content @ [c] else content))"
| "xml_tokens (OtherToken # ts) attrs content = xml_tokens ts attrs content"

definition readXML ::
  "(string \<Rightarrow> xml_token list \<times> xml_end) \<Rightarrow> string \<Rightarrow> go_error + (string list \<times> string list)" where
  "readXML decode b = (case decode b of (toks, fin) \<Rightarrow>
     (case fin of XmlError err \<Rightarrow> Inl err | _ \<Rightarrow> Inr (xml_tokens toks [] [])))"

definition xml_ProcessRequest :: "(string \<Rightarrow> xml_token list \<times> xml_end) \<Rightarrow> ProcessFn" where
  "xml_ProcessRequest decode b mime tx = (case readXML decode b of
     Inl err \<Rightarrow> Some (Some err, tx)
   | Inr (values, contents) \<Rightarrow>
       Some (None, map_put VRequestXML (map_Set ''/*'' contents (map_Set ''//@*'' values (map_of_var VRequestXML tx))) tx))"

subsection \<open>The registry\<close>

record bp_world =
  bw_iter :: "multimap \<Rightarrow> multimap"
  bw_iter_items :: "items \<Rightarrow> items"
  bw_gjson :: "string \<Rightarrow> (gjson_key \<times> gjson) list"
  bw_media :: media_parser
  bw_parts :: "string \<Rightarrow> string \<Rightarrow> (go_error + part) list"
  bw_xml :: "string \<Rightarrow> xml_token list \<times> xml_end"

type_synonym processors = "(string \<times> BodyProcessor) list"

definition RegisterBodyProcessor :: "string \<Rightarrow> BodyProcessor \<Rightarrow> processors \<Rightarrow> processors" where
  "RegisterBodyProcessor name fn ps = AList.update name fn ps"

definition GetBodyProcessor :: "processors \<Rightarrow> string \<Rightarrow> BodyProcessor option" where
  "GetBodyProcessor ps name = map_of ps (to_lower name)"

definition init_processors :: "bp_world \<Rightarrow> processors" where
  "init_processors w = fold (\<lambda>(name, fn). RegisterBodyProcessor name fn)
     [(''json'', \<lparr>bp_ProcessRequest = json_ProcessRequest (bw_iter_items w) (bw_gjson w),
                  bp_ProcessResponse = json_ProcessResponse (bw_iter_items w) (bw_gjson w)\<rparr>),
      (''multipart'', \<lparr>bp_ProcessRequest = multipart_ProcessRequest (bw_media w) (bw_parts w),
                       bp_ProcessResponse = no_ProcessResponse\<rparr>),
      (''raw'', \<lparr>bp_ProcessRequest = raw_ProcessRequest, bp_ProcessResponse = no_ProcessResponse\<rparr>),
      (''urlencoded'', \<lparr>bp_ProcessRequest = urlencoded_ProcessRequest (bw_iter w),
                        bp_ProcessResponse = no_ProcessResponse\<rparr>),
      (''xml'', \<lparr>bp_ProcessRequest = xml_ProcessRequest (bw_xml w), bp_ProcessResponse = no_ProcessResponse\<rparr>)] []"

subsection \<open>Processors touch only the variables and never panic\<close>

definition only_variables :: "ProcessFn \<Rightarrow> bool" where
  "only_variables f = (\<forall>b mime tx. \<exists>err vs. f b mime tx = Some (err, tx\<lparr>tx_variables := vs\<rparr>))"

text \<open>A state that differs from \<open>tx\<close> in the variables only.\<close>

definition vars_of :: "Transaction \<Rightarrow> Transaction \<Rightarrow> bool" where
  "vars_of tx tx' = (\<exists>vs. tx' = tx\<lparr>tx_variables := vs\<rparr>)"

lemma vars_of_refl [simp]: "vars_of tx tx"
  by (auto simp: vars_of_def intro: exI [of _ "tx_variables tx"])

lemma vars_of_updates [simp]:
  "vars_of tx tx' \<Longrightarrow> vars_of tx (single_Set v s tx')"
  "vars_of tx tx' \<Longrightarrow> vars_of tx (map_put v m tx')"
  "vars_of tx tx' \<Longrightarrow> vars_of tx (add_var v k s tx')"
  by (auto simp: vars_of_def single_Set_def map_put_def add_var_def)

lemma vars_of_fold: "(\<And>x t. vars_of tx t \<Longrightarrow> vars_of tx (f x t)) \<Longrightarrow> vars_of tx t \<Longrightarrow> vars_of tx (fold f xs t)"
  by (induction xs arbitrary: t) simp_all

lemma SetIndex_0: "\<exists>tx'. map_SetIndex_var v k 0 s tx = Some tx' \<and> vars_of tx tx'"
  by (auto simp: map_SetIndex_var_def map_SetIndex_def Let_def)

lemma vars_of_trans: "vars_of a b \<Longrightarrow> vars_of b c \<Longrightarrow> vars_of a c"
  by (auto simp: vars_of_def)

lemma only_variablesI:
  "(\<And>b mime tx. \<exists>err tx'. f b mime tx = Some (err, tx') \<and> vars_of tx tx') \<Longrightarrow> only_variables f"
  unfolding only_variables_def vars_of_def by blast

lemma set_items_vars: "\<exists>tx'. set_items v kvs tx = Some tx' \<and> vars_of tx tx'"
proof (induction kvs arbitrary: tx)
  case (Cons kv kvs)
  obtain k s where kv: "kv = (k, s)" by (cases kv)
  from SetIndex_0 [of v k s tx] obtain t where t: "map_SetIndex_var v k 0 s tx = Some t" "vars_of tx t" by blast
  from Cons [of t] obtain t' where "set_items v kvs t = Some t'" "vars_of t t'" by blast
  with t kv show ?case by (auto simp: set_items_def intro: vars_of_trans)
qed (simp add: set_items_def)

lemma json_only_variables: "only_variables (json_Process col name iter parse)"
proof (rule only_variablesI)
  fix b mime tx
  from set_items_vars [of col "iter (readJSON parse b)" tx] obtain t
    where "set_items col (iter (readJSON parse b)) tx = Some t" "vars_of tx t" by blast
  then show "\<exists>err tx'. json_Process col name iter parse b mime tx = Some (err, tx') \<and> vars_of tx tx'"
    by (simp add: json_Process_def)
qed

lemma store_part_vars:
  assumes "vars_of tx t"
  shows "\<exists>t'. snd (store_part media p t) = Some t' \<and> vars_of tx t'"
proof -
  from SetIndex_0 obtain g where g: "\<And>v k s t. map_SetIndex_var v k 0 s t = Some (g v k s t) \<and> vars_of t (g v k s t)"
    by metis
  then have "vars_of tx (g v k s t)" if "vars_of tx t" for v k s t
    using that vars_of_trans by blast
  with g assms show ?thesis
    by (simp add: store_part_def Let_def split: sum.split)
qed

lemma read_parts_vars: "vars_of tx t \<Longrightarrow> \<exists>err t'. read_parts media ps n t = Some (err, t') \<and> vars_of tx t'"
proof (induction media ps n t rule: read_parts.induct)
  case (3 media p ps n t)
  have "vars_of tx (add_part_headers p t)"
    unfolding add_part_headers_def using 3(2) by (auto intro!: vars_of_fold)
  from store_part_vars [OF this, of media p] obtain r t'
    where r: "store_part media p (add_part_headers p t) = (r, Some t')" "vars_of tx t'"
    by (metis prod.collapse)
  show ?case
  proof (cases r)
    case (Inr sz)
    with r 3(1) [of _ _ sz t'] show ?thesis by fastforce
  qed (use r in \<open>simp add: strict_error_def\<close>)
qed (simp_all add: strict_error_def)

lemma processors_only_variables:
  "only_variables (urlencoded_ProcessRequest iter)" "only_variables raw_ProcessRequest"
  "only_variables no_ProcessResponse" "only_variables (multipart_ProcessRequest media parts)"
  "only_variables (xml_ProcessRequest decode)"
proof -
  show "only_variables (urlencoded_ProcessRequest iter)"
    by (rule only_variablesI)
      (auto simp: urlencoded_ProcessRequest_def store_body_def Let_def intro!: vars_of_updates vars_of_fold)
  show "only_variables (multipart_ProcessRequest media parts)"
    by (rule only_variablesI)
      (auto simp: multipart_ProcessRequest_def strict_error_def read_parts_vars split: sum.split)
qed (rule only_variablesI, auto simp: raw_ProcessRequest_def no_ProcessResponse_def xml_ProcessRequest_def
    store_body_def split: sum.split)+

definition processors_ok :: "processors \<Rightarrow> bool" where
  "processors_ok ps = (\<forall>(name, p)\<in>set ps. only_variables (bp_ProcessRequest p) \<and> only_variables (bp_ProcessResponse p))"

lemma init_processors_ok: "processors_ok (init_processors w)"
  by (simp add: init_processors_def RegisterBodyProcessor_def processors_ok_def processors_only_variables
      json_ProcessRequest_def json_ProcessResponse_def json_only_variables)

lemma GetBodyProcessor_ok:
  "processors_ok ps \<Longrightarrow> GetBodyProcessor ps name = Some p \<Longrightarrow>
   only_variables (bp_ProcessRequest p) \<and> only_variables (bp_ProcessResponse p)"
  by (auto simp: processors_ok_def GetBodyProcessor_def dest!: map_of_SomeD)

subsection \<open>Arguments of a URL-encoded body\<close>

lemma map_Set_case [simp]: "isCaseSensitive (map_Set k vs c) = isCaseSensitive c"
  by (simp add: map_Set_def)

lemma Get_Set_others:
  "\<forall>(k, vs)\<in>set kvs. to_lower k \<noteq> to_lower key \<Longrightarrow> \<not> isCaseSensitive c \<Longrightarrow>
   map_Get (fold (\<lambda>(k, vs). map_Set k vs) kvs c) key = map_Get c key"
  by (induction kvs arbitrary: c) (auto simp: coll.get_set map_same_def map_key_def)

lemma Get_Set_all:
  assumes "distinct (map (to_lower \<circ> fst) kvs)" "(key, values) \<in> set kvs" "\<not> isCaseSensitive c"
  shows "map_Get (fold (\<lambda>(k, vs). map_Set k vs) kvs c) key = values"
  using assms
proof (induction kvs arbitrary: c)
  case (Cons kv kvs)
  obtain k vs where kv: "kv = (k, vs)" by (cases kv)
  show ?case
  proof (cases "kv = (key, values)")
    case True
    with Cons.prems have "\<forall>(k, vs)\<in>set kvs. to_lower k \<noteq> to_lower key" by force
    with True Cons.prems(3) show ?thesis by (simp add: Get_Set_others coll.set_then_get)
  next
    case False
    with Cons.prems have "(key, values) \<in> set kvs" by auto
    with Cons kv show ?thesis by simp
  qed
qed simp

lemma fold_map_put:
  "map_of_var v (fold (\<lambda>(k, vs) tx. map_put v (map_Set k vs (map_of_var v tx)) tx) kvs tx) =
   fold (\<lambda>(k, vs). map_Set k vs) kvs (map_of_var v tx)"
  by (induction kvs arbitrary: tx) auto

lemma distinct_perm:
  assumes "mset xs = mset ys"
  shows "distinct (map f xs) = distinct (map f ys)" "set xs = set ys"
proof -
  have "mset (map f xs) = mset (map f ys)" using assms by simp
  then show "distinct (map f xs) = distinct (map f ys)" by (rule mset_eq_imp_distinct_iff)
  show "set xs = set ys" using assms by (rule mset_eq_setD)
qed

text \<open>
  (C24) After a URL-encoded body, \<open>ARGS_POST\<close> has for every parameter of the body exactly its values in
  their order, \<open>REQUEST_BODY\<close> the body and \<open>REQUEST_BODY_LENGTH\<close> its length, whatever order the runtime
  iterates the parsed map in, provided no two parameter names differ in case only.
\<close>

theorem urlencoded_arguments:
  assumes "mset (iter (ParseQuery b CHR ''&'')) = mset (ParseQuery b CHR ''&'')"
    and "distinct (map (to_lower \<circ> fst) (ParseQuery b CHR ''&''))"
    and "\<not> isCaseSensitive (map_of_var VArgsPost tx)"
    and "urlencoded_ProcessRequest iter b mime tx = Some (err, tx')"
    and "(key, values) \<in> set (ParseQuery b CHR ''&'')"
  shows "err = None \<and> map_Get (map_of_var VArgsPost tx') key = values \<and>
    single_Get VRequestBody tx' = b \<and> single_Get VRequestBodyLength tx' = itoa (int (length b))"
proof -
  have "distinct (map (to_lower \<circ> fst) (iter (ParseQuery b CHR ''&'')))"
    "(key, values) \<in> set (iter (ParseQuery b CHR ''&''))"
    using assms(2,5) distinct_perm [OF assms(1)] by auto
  from Get_Set_all [OF this assms(3)] assms(4) show ?thesis
    by (auto simp: urlencoded_ProcessRequest_def store_body_def fold_map_put)
qed

theorem urlencoded_arguments_witness:
  "\<exists>err tx'. urlencoded_ProcessRequest rev ''a=1&b=2&a=3'' [] (fresh_Transaction example_settings) = Some (err, tx') \<and>
     map_Get (map_of_var VArgsPost tx') ''a'' = [''1'', ''3'']"
proof -
  let ?tx = "fresh_Transaction example_settings"
  have q: "ParseQuery ''a=1&b=2&a=3'' CHR ''&'' = [(''a'', [''1'', ''3'']), (''b'', [''2''])]" by code_simp
  then have "distinct (map (to_lower \<circ> fst) (ParseQuery ''a=1&b=2&a=3'' CHR ''&''))"
    by (simp add: to_lower_def lower_char_def)
  moreover have "\<not> isCaseSensitive (map_of_var VArgsPost ?tx)"
    by (simp add: fresh_Transaction_def NewTransactionVariables_def map_of_var_def NewMap_def)
  moreover obtain err tx' where e: "urlencoded_ProcessRequest rev ''a=1&b=2&a=3'' [] ?tx = Some (err, tx')"
    by (simp add: urlencoded_ProcessRequest_def Let_def)
  ultimately show ?thesis
    using urlencoded_arguments [of rev "''a=1&b=2&a=3''" ?tx "[]" err tx' "''a''" "[''1'', ''3'']"] e q by simp
qed

text \<open>
  Without that proviso a parameter is lost: the values of a name replace those of the same name in
  another case, and which of them survive is the runtime's choice.
\<close>

lemma urlencoded_case_loses_argument:
  "map_option (\<lambda>(err, tx). map_Get (map_of_var VArgsPost tx) ''a'')
     (urlencoded_ProcessRequest id ''a=attack&A=x'' [] (fresh_Transaction example_settings)) = Some [''x'']"
  by code_simp

text \<open>The registry is searched by the name in lower case, so no other registered name is ever found.\<close>

lemma upper_case_processor_unreachable:
  "to_lower name \<noteq> name \<Longrightarrow> GetBodyProcessor (RegisterBodyProcessor name p ps) n = GetBodyProcessor ps n"
  by (auto simp: GetBodyProcessor_def RegisterBodyProcessor_def update_conv')

subsection \<open>Flattening of JSON\<close>





end
