(* ===== verification/Phases.thy ===== *)
theory Phases
  imports Engine_Props Body_Processors
begin

text \<open>
  The phases of a transaction as a connector drives them (\<open>internal/corazawaf/transaction.go\<close>): request
  headers, writing and processing the request body, response headers, writing and processing the
  response body. \<open>None\<close> is a panic. The properties say in which order the phases run, what the
  body limits do, and what happens when a body cannot be parsed.
\<close>

text \<open>
  What the operations take from the runtime: the addresses in the cache keys, the registered body
  processors, and the outcomes of the system calls of the \<open>n\<close>-th write to a body buffer.
\<close>

record runtime =
  rt_addr :: "MatchData \<Rightarrow> nat"
  rt_processors :: processors
  rt_os :: "nat \<Rightarrow> os_outcome"

definition run_phase :: "runtime \<Rightarrow> WAF \<Rightarrow> RulePhase \<Rightarrow> Transaction \<Rightarrow> Transaction option" where
  "run_phase rt w phase tx = map_option snd (Eval (rt_addr rt) (w_Rules w) phase tx)"

text \<open>\<open>io.Copy\<close> of a fresh reader of the buffer, with the chunk size of package \<open>io\<close>.\<close>

definition body_content :: "BodyBuffer \<Rightarrow> string option" where
  "body_content br = read_all (Suc (length (bb_bytes br))) br 32768 bb_Reader"

subsection \<open>Request\<close>

definition ProcessRequestHeaders :: "runtime \<Rightarrow> WAF \<Rightarrow> Transaction \<Rightarrow> (Interruption option \<times> Transaction) option" where
  "ProcessRequestHeaders rt w tx =
     (if tx_RuleEngine tx = RuleEngineOff then Some (None, tx)
      else if tx_lastPhase tx \<ge> PhaseRequestHeaders then Some (tx_interruption tx, tx)
      else if tx_interruption tx \<noteq> None then Some (tx_interruption tx, tx)
      else do {
        tx \<leftarrow> run_phase rt w PhaseRequestHeaders tx;
        Some (tx_interruption tx, tx)
      })"

definition generateRequestBodyError :: "go_error \<Rightarrow> Transaction \<Rightarrow> Transaction" where
  "generateRequestBodyError err tx =
     (let tx = single_Set VReqbodyError ''1'' tx;
          tx = single_Set VReqbodyErrorMsg (single_Get VReqbodyProcessor tx @ '': '' @ err) tx;
          tx = single_Set VReqbodyProcessorError ''1'' tx in
      single_Set VReqbodyProcessorErrorMsg err tx)"

text \<open>The processor of the request body: \<open>URLENCODED\<close> is forced for \<open>ctl:forceRequestBodyVariable\<close>.\<close>

definition select_processor :: "Transaction \<Rightarrow> string \<times> Transaction" where
  "select_processor tx =
     (let rbp = single_Get VReqbodyProcessor tx in
      if tx_ForceRequestBodyVariable tx then
        (let rbp = (if rbp = [] then ''URLENCODED'' else rbp) in (to_lower rbp, single_Set VReqbodyProcessor rbp tx))
      else (to_lower rbp, tx))"

definition use_processor :: "runtime \<Rightarrow> string \<Rightarrow> string \<Rightarrow> Transaction \<Rightarrow> Transaction option" where
  "use_processor rt rbp mime tx =
     (if rbp = [] then Some tx
      else case GetBodyProcessor (rt_processors rt) rbp of
        None \<Rightarrow> Some (generateRequestBodyError ''invalid body processor'' tx)
      | Some bp \<Rightarrow> do {
          b \<leftarrow> body_content (tx_requestBodyBuffer tx);
          (err, tx) \<leftarrow> bp_ProcessRequest bp b mime tx;
          Some (case err of Some e \<Rightarrow> generateRequestBodyError e tx | None \<Rightarrow> tx)
        })"

text \<open>What \<open>ProcessRequestBody\<close> does with a body before it evaluates the rules of the phase.\<close>

definition parse_request_body :: "runtime \<Rightarrow> Transaction \<Rightarrow> Transaction option" where
  "parse_request_body rt tx =
     (if \<not> tx_RequestBodyAccess tx \<or> bb_length (tx_requestBodyBuffer tx) = 0 then Some tx
      else
        let mime = (case map_Get (map_of_var VRequestHeaders tx) ''content-type'' of m # _ \<Rightarrow> m | [] \<Rightarrow> []) in
        case select_processor tx of (rbp, tx) \<Rightarrow> use_processor rt rbp mime tx)"

definition ProcessRequestBody ::
  "runtime \<Rightarrow> WAF \<Rightarrow> Transaction \<Rightarrow> ((Interruption option \<times> go_error option) \<times> Transaction) option" where
  "ProcessRequestBody rt w tx =
     (if tx_RuleEngine tx = RuleEngineOff then Some ((None, None), tx)
      else if tx_interruption tx \<noteq> None then Some ((tx_interruption tx, None), tx)
      else if tx_lastPhase tx \<noteq> PhaseRequestHeaders then Some ((None, None), tx)
      else do {
        tx \<leftarrow> parse_request_body rt tx;
        tx \<leftarrow> run_phase rt w PhaseRequestBody tx;
        Some ((tx_interruption tx, None), tx)
      })"

definition setAndReturnBodyLimitInterruption ::
  "int \<Rightarrow> Transaction \<Rightarrow> (Interruption option \<times> int \<times> go_error option) \<times> Transaction" where
  "setAndReturnBodyLimitInterruption status tx =
     (let tx = tx\<lparr>tx_interruption := Some \<lparr>int_RuleID = 0, int_Action = ''deny'', int_Status = status, int_Data = []\<rparr>\<rparr> in
      ((tx_interruption tx, 0, None), tx))"

text \<open>The slice \<open>b[:n]\<close>.\<close>

definition slice_to :: "string \<Rightarrow> int \<Rightarrow> string option" where
  "slice_to b n = (if n < 0 then None else slice b 0 (nat n))"

type_synonym write_result = "((Interruption option \<times> int \<times> go_error option) \<times> Transaction) option"

definition finish_request_write ::
  "runtime \<Rightarrow> WAF \<Rightarrow> bool \<Rightarrow> int \<Rightarrow> Transaction \<Rightarrow> write_result" where
  "finish_request_write rt w run n tx =
     (if run then do {
        ((_, err), tx) \<leftarrow> ProcessRequestBody rt w tx;
        Some ((tx_interruption tx, n, err), tx)
      }
      else Some ((tx_interruption tx, n, None), tx))"

definition store_request :: "runtime \<Rightarrow> WAF \<Rightarrow> bool \<Rightarrow> string \<Rightarrow> Transaction \<Rightarrow> write_result" where
  "store_request rt w run d tx = (case bb_Write (rt_os rt 0) d (tx_requestBodyBuffer tx) of
     (k, Some err, br) \<Rightarrow> Some ((None, 0, Some err), tx\<lparr>tx_requestBodyBuffer := br\<rparr>)
   | (k, None, br) \<Rightarrow> finish_request_write rt w run k (tx\<lparr>tx_requestBodyBuffer := br\<rparr>))"

definition WriteRequestBody :: "runtime \<Rightarrow> WAF \<Rightarrow> string \<Rightarrow> Transaction \<Rightarrow> write_result" where
  "WriteRequestBody rt w b tx =
     (let len = bb_length (tx_requestBodyBuffer tx); limit = tx_RequestBodyLimit tx;
          act = w_RequestBodyLimitAction w; n = int (length b) in
      if tx_RuleEngine tx = RuleEngineOff then Some ((None, 0, None), tx)
      else if \<not> tx_RequestBodyAccess tx then Some ((None, 0, None), tx)
      else if limit = len then
        Some ((if act = BodyLimitActionReject then tx_interruption tx else None, 0, None), tx)
      else if len \<ge> max_int64 - n then Some ((None, 0, Some ''overflow reached while writing request body''), tx)
      else
        let over = len + n \<ge> limit;
            tx = (if over then single_Set VInboundDataError ''1'' tx else tx) in
        if over \<and> act = BodyLimitActionReject then Some (setAndReturnBodyLimitInterruption 413 tx)
        else do {
          d \<leftarrow> slice_to b (if over then limit - len else n);
          store_request rt w over d tx
        })"

text \<open>
  A reader: its length, when it tells one (\<open>ByteLenger\<close>), what its calls of \<open>Read\<close> return one after
  the other, and the error that ends it, \<open>None\<close> being the end of file.
\<close>

record io_reader =
  rd_Len :: "int option"
  rd_chunks :: "string list"
  rd_err :: "go_error option"

text \<open>
  \<open>io.CopyN(br, r, n)\<close>: the bytes copied, the error other than the end of file, and the buffer. A read
  is cut at what is left of \<open>n\<close>; \<open>i\<close> counts the writes.
\<close>

fun CopyN ::
  "(nat \<Rightarrow> os_outcome) \<Rightarrow> nat \<Rightarrow> string list \<Rightarrow> go_error option \<Rightarrow> int \<Rightarrow> int \<Rightarrow> BodyBuffer \<Rightarrow> int \<times> go_error option \<times> BodyBuffer" where
  "CopyN os i [] rerr n done br = (done, if done \<ge> n then None else rerr, br)"
| "CopyN os i (c # cs) rerr n done br =
     (if n - done \<le> 0 then (done, None, br)
      else case bb_Write (os i) (take (nat (n - done)) c) br of
        (k, Some err, br) \<Rightarrow> (done + k, Some err, br)
      | (k, None, br) \<Rightarrow> CopyN os (Suc i) cs rerr n (done + k) br)"

definition copy_request :: "runtime \<Rightarrow> WAF \<Rightarrow> io_reader \<Rightarrow> int \<Rightarrow> bool \<Rightarrow> Transaction \<Rightarrow> write_result" where
  "copy_request rt w r n run tx =
     (case CopyN (rt_os rt) 0 (rd_chunks r) (rd_err r) n 0 (tx_requestBodyBuffer tx) of
        (k, Some err, br) \<Rightarrow> Some ((None, k, Some err), tx\<lparr>tx_requestBodyBuffer := br\<rparr>)
      | (k, None, br) \<Rightarrow>
          let full = bb_length br = tx_RequestBodyLimit tx; tx = tx\<lparr>tx_requestBodyBuffer := br\<rparr>;
              tx = (if full then single_Set VInboundDataError ''1'' tx else tx) in
          if full \<and> w_RequestBodyLimitAction w = BodyLimitActionReject
          then Some (setAndReturnBodyLimitInterruption 413 tx)
          else finish_request_write rt w (run \<or> full) k tx)"

definition ReadRequestBodyFrom :: "runtime \<Rightarrow> WAF \<Rightarrow> io_reader \<Rightarrow> Transaction \<Rightarrow> write_result" where
  "ReadRequestBodyFrom rt w r tx =
     (let len = bb_length (tx_requestBodyBuffer tx); limit = tx_RequestBodyLimit tx;
          act = w_RequestBodyLimitAction w in
      if tx_RuleEngine tx = RuleEngineOff then Some ((None, 0, None), tx)
      else if \<not> tx_RequestBodyAccess tx then Some ((None, 0, None), tx)
      else if limit = len then
        Some ((if act = BodyLimitActionReject then tx_interruption tx else None, 0, None), tx)
      else case rd_Len r of
        None \<Rightarrow> copy_request rt w r (limit - len) False tx
      | Some n \<Rightarrow>
          if len \<ge> max_int64 - n then Some ((None, 0, Some ''overflow reached while writing request body''), tx)
          else
            let over = len + n \<ge> limit;
                tx = (if over then single_Set VInboundDataError ''1'' tx else tx) in
            if over \<and> act = BodyLimitActionReject then Some (setAndReturnBodyLimitInterruption 413 tx)
            else copy_request rt w r (if over then limit - len else n) over tx)"

subsection \<open>Response\<close>

definition ProcessResponseHeaders ::
  "runtime \<Rightarrow> WAF \<Rightarrow> int \<Rightarrow> string \<Rightarrow> Transaction \<Rightarrow> (Interruption option \<times> Transaction) option" where
  "ProcessResponseHeaders rt w code proto tx =
     (if tx_RuleEngine tx = RuleEngineOff then Some (None, tx)
      else if tx_lastPhase tx \<ge> PhaseResponseHeaders then Some (tx_interruption tx, tx)
      else if tx_interruption tx \<noteq> None then Some (tx_interruption tx, tx)
      else do {
        tx \<leftarrow> run_phase rt w PhaseResponseHeaders
          (single_Set VResponseProtocol proto (single_Set VResponseStatus (itoa code) tx));
        Some (tx_interruption tx, tx)
      })"

definition IsResponseBodyProcessable :: "WAF \<Rightarrow> Transaction \<Rightarrow> bool" where
  "IsResponseBodyProcessable w tx =
     (tx_ForceResponseBodyVariable tx \<or> InSlice (single_Get VResponseContentType tx) (w_ResponseBodyMimeTypes w))"

definition generateResponseBodyError :: "go_error \<Rightarrow> Transaction \<Rightarrow> Transaction" where
  "generateResponseBodyError err tx =
     (let tx = single_Set VResBodyError ''1'' tx;
          tx = single_Set VResBodyErrorMsg (single_Get VResBodyProcessor tx @ '': '' @ err) tx;
          tx = single_Set VResBodyProcessorError ''1'' tx in
      single_Set VResBodyProcessorErrorMsg err tx)"

text \<open>
  What \<open>ProcessResponseBody\<close> does with a body before it evaluates the rules; the error is returned at
  the end. The message of a missing processor is without the quoted name.
\<close>

definition parse_response_body :: "runtime \<Rightarrow> WAF \<Rightarrow> Transaction \<Rightarrow> (go_error option \<times> Transaction) option" where
  "parse_response_body rt w tx =
     (if \<not> tx_ResponseBodyAccess tx \<or> \<not> IsResponseBodyProcessable w tx then Some (None, tx)
      else do {
        b \<leftarrow> body_content (tx_responseBodyBuffer tx);
        let bp = single_Get VResBodyProcessor tx;
        if bp \<noteq> [] then (case GetBodyProcessor (rt_processors rt) bp of
            None \<Rightarrow> Some (Some ''invalid bodyprocessor'', generateResponseBodyError ''invalid body processor'' tx)
          | Some p \<Rightarrow> do {
              (err, tx) \<leftarrow> bp_ProcessResponse p b [] tx;
              Some (None, case err of Some e \<Rightarrow> generateResponseBodyError e tx | None \<Rightarrow> tx)
            })
        else Some (None, single_Set VResponseBody b (single_Set VResponseContentLength (itoa (int (length b))) tx))
      })"

definition ProcessResponseBody ::
  "runtime \<Rightarrow> WAF \<Rightarrow> Transaction \<Rightarrow> ((Interruption option \<times> go_error option) \<times> Transaction) option" where
  "ProcessResponseBody rt w tx =
     (if tx_RuleEngine tx = RuleEngineOff then Some ((None, None), tx)
      else if tx_interruption tx \<noteq> None then Some ((tx_interruption tx, None), tx)
      else if tx_lastPhase tx \<noteq> PhaseResponseHeaders then Some ((None, None), tx)
      else do {
        (err, tx) \<leftarrow> parse_response_body rt w tx;
        tx \<leftarrow> run_phase rt w PhaseResponseBody tx;
        Some ((tx_interruption tx, err), tx)
      })"

definition finish_response_write ::
  "runtime \<Rightarrow> WAF \<Rightarrow> bool \<Rightarrow> int \<Rightarrow> Transaction \<Rightarrow> write_result" where
  "finish_response_write rt w run n tx =
     (if run then do {
        ((_, err), tx) \<leftarrow> ProcessResponseBody rt w tx;
        Some ((tx_interruption tx, n, err), tx)
      }
      else Some ((tx_interruption tx, n, None), tx))"

definition store_response :: "runtime \<Rightarrow> WAF \<Rightarrow> bool \<Rightarrow> string \<Rightarrow> Transaction \<Rightarrow> write_result" where
  "store_response rt w run d tx = (case bb_Write (rt_os rt 0) d (tx_responseBodyBuffer tx) of
     (k, Some err, br) \<Rightarrow> Some ((None, 0, Some err), tx\<lparr>tx_responseBodyBuffer := br\<rparr>)
   | (k, None, br) \<Rightarrow> finish_response_write rt w run k (tx\<lparr>tx_responseBodyBuffer := br\<rparr>))"

definition WriteResponseBody :: "runtime \<Rightarrow> WAF \<Rightarrow> string \<Rightarrow> Transaction \<Rightarrow> write_result" where
  "WriteResponseBody rt w b tx =
     (let len = bb_length (tx_responseBodyBuffer tx); limit = tx_ResponseBodyLimit tx;
          act = w_ResponseBodyLimitAction w; n = int (length b) in
      if tx_RuleEngine tx = RuleEngineOff then Some ((None, 0, None), tx)
      else if \<not> tx_ResponseBodyAccess tx then Some ((None, 0, None), tx)
      else if limit = len then
        Some ((if act = BodyLimitActionReject then tx_interruption tx else None, 0, None), tx)
      else
        let over = wrap64 (len + n) \<ge> limit;
            tx = (if over then single_Set VOutboundDataError ''1'' tx else tx) in
        if over \<and> act = BodyLimitActionReject then Some (setAndReturnBodyLimitInterruption 500 tx)
        else do {
          d \<leftarrow> slice_to b (if over then limit - len else n);
          store_response rt w over d tx
        })"

definition copy_response :: "runtime \<Rightarrow> WAF \<Rightarrow> io_reader \<Rightarrow> int \<Rightarrow> bool \<Rightarrow> Transaction \<Rightarrow> write_result" where
  "copy_response rt w r n run tx =
     (case CopyN (rt_os rt) 0 (rd_chunks r) (rd_err r) n 0 (tx_responseBodyBuffer tx) of
        (k, Some err, br) \<Rightarrow> Some ((None, k, Some err), tx\<lparr>tx_responseBodyBuffer := br\<rparr>)
      | (k, None, br) \<Rightarrow>
          let full = bb_length br = tx_ResponseBodyLimit tx; tx = tx\<lparr>tx_responseBodyBuffer := br\<rparr>;
              tx = (if full then single_Set VOutboundDataError ''1'' tx else tx) in
          if full \<and> w_ResponseBodyLimitAction w = BodyLimitActionReject
          then Some (setAndReturnBodyLimitInterruption 500 tx)
          else finish_response_write rt w (run \<or> full) k tx)"

definition ReadResponseBodyFrom :: "runtime \<Rightarrow> WAF \<Rightarrow> io_reader \<Rightarrow> Transaction \<Rightarrow> write_result" where
  "ReadResponseBodyFrom rt w r tx =
     (let len = bb_length (tx_responseBodyBuffer tx); limit = tx_ResponseBodyLimit tx;
          act = w_ResponseBodyLimitAction w in
      if tx_RuleEngine tx = RuleEngineOff then Some ((None, 0, None), tx)
      else if \<not> tx_ResponseBodyAccess tx then Some ((None, 0, None), tx)
      else if limit = len then
        Some ((if act = BodyLimitActionReject then tx_interruption tx else None, 0, None), tx)
      else case rd_Len r of
        None \<Rightarrow> copy_response rt w r (limit - len) False tx
      | Some n \<Rightarrow>
            let over = wrap64 (len + n) \<ge> limit;
                tx = (if over then single_Set VOutboundDataError ''1'' tx else tx) in
            if over \<and> act = BodyLimitActionReject then Some (setAndReturnBodyLimitInterruption 500 tx)
            else copy_response rt w r (if over then limit - len else n) over tx)"

subsection \<open>Logging\<close>

definition marked_for_audit :: "WAF \<Rightarrow> Transaction \<Rightarrow> bool" where
  "marked_for_audit w tx = (case tx_AuditEngine tx of
     AuditEngineOff \<Rightarrow> False
   | AuditEngineOn \<Rightarrow> True
   | AuditEngineRelevantOnly \<Rightarrow> tx_audit tx \<and>
       (let status = (case tx_interruption tx of
                        Some i \<Rightarrow> itoa (int_Status i) | None \<Rightarrow> single_Get VResponseStatus tx) in
        case w_AuditLogRelevantStatus w of Some re \<Rightarrow> re status | None \<Rightarrow> True))"

text \<open>The result says whether an audit log is written.\<close>

definition ProcessLogging :: "runtime \<Rightarrow> WAF \<Rightarrow> Transaction \<Rightarrow> (bool \<times> Transaction) option" where
  "ProcessLogging rt w tx = do {
     tx \<leftarrow> (if tx_RuleEngine tx \<noteq> RuleEngineOff then run_phase rt w PhaseLogging tx else Some tx);
     Some (marked_for_audit w tx, tx)
   }"

subsection \<open>The connector's view\<close>

text \<open>
  One call of a connector. The runtime may behave differently in every call; the registered body
  processors are fixed.
\<close>

inductive tx_step :: "processors \<Rightarrow> WAF \<Rightarrow> Transaction \<Rightarrow> Transaction \<Rightarrow> bool" for ps w where
  connection: "tx_step ps w tx (ProcessConnection client cPort server sPort tx)"
| uri: "tx_step ps w tx (ProcessURI parse w u method version tx)"
| server_name: "tx_step ps w tx (SetServerName name tx)"
| request_header: "tx_step ps w tx (AddRequestHeader key value tx)"
| response_header: "tx_step ps w tx (AddResponseHeader key value tx)"
| argument: "v \<in> {VArgsGet, VArgsPost, VArgsPath} \<Longrightarrow> tx_step ps w tx (add_argument w v key value tx)"
| request_headers: "rt_processors rt = ps \<Longrightarrow> ProcessRequestHeaders rt w tx = Some (i, tx') \<Longrightarrow> tx_step ps w tx tx'"
| write_request: "rt_processors rt = ps \<Longrightarrow> WriteRequestBody rt w b tx = Some (r, tx') \<Longrightarrow> tx_step ps w tx tx'"
| read_request: "rt_processors rt = ps \<Longrightarrow> ReadRequestBodyFrom rt w rd tx = Some (r, tx') \<Longrightarrow> tx_step ps w tx tx'"
| request_body: "rt_processors rt = ps \<Longrightarrow> ProcessRequestBody rt w tx = Some (r, tx') \<Longrightarrow> tx_step ps w tx tx'"
| response_headers: "rt_processors rt = ps \<Longrightarrow> ProcessResponseHeaders rt w code proto tx = Some (i, tx') \<Longrightarrow> tx_step ps w tx tx'"
| write_response: "rt_processors rt = ps \<Longrightarrow> WriteResponseBody rt w b tx = Some (r, tx') \<Longrightarrow> tx_step ps w tx tx'"
| read_response: "rt_processors rt = ps \<Longrightarrow> ReadResponseBodyFrom rt w rd tx = Some (r, tx') \<Longrightarrow> tx_step ps w tx tx'"
| response_body: "rt_processors rt = ps \<Longrightarrow> ProcessResponseBody rt w tx = Some (r, tx') \<Longrightarrow> tx_step ps w tx tx'"
| logging: "rt_processors rt = ps \<Longrightarrow> ProcessLogging rt w tx = Some (d, tx') \<Longrightarrow> tx_step ps w tx tx'"


subsection \<open>What a phase keeps\<close>

text \<open>The limits of the request body cannot change once its headers were processed.\<close>

lemma ctl_limits:
  "ctl_Evaluate rules a s col key tx = Some tx' \<Longrightarrow> PhaseRequestHeaders < tx_lastPhase tx \<Longrightarrow>
   tx_RequestBodyLimit tx' = tx_RequestBodyLimit tx \<and> tx_RequestBodyAccess tx' = tx_RequestBodyAccess tx"
proof (cases a)
  case ctlAuditLogParts
  assume "ctl_Evaluate rules a s col key tx = Some tx'"
  with ctlAuditLogParts show ?thesis
    by (cases "ParseAuditLogParts s") (auto split: sum.splits)
qed (auto simp: on_off_def fold_RemoveRuleByID fold_RemoveRuleTargetByID RemoveRuleByID_def
    split: if_splits option.splits prod.splits sum.splits)

lemma action_limits:
  assumes "action_Evaluate rules r a tx = Some tx'" "PhaseRequestHeaders < tx_lastPhase tx"
  shows "tx_RequestBodyLimit tx' = tx_RequestBodyLimit tx \<and> tx_RequestBodyAccess tx' = tx_RequestBodyAccess tx"
  using assms
proof (cases a)
  case (ctlFn c s col key)
  with assms show ?thesis using ctl_limits [of rules c s col key tx tx'] by simp
next
  case (setvarFn k v col b)
  with assms obtain key val where "tx' = setvar_put col b key val tx"
    by (auto simp: setvar_Evaluate_def bind_eq_Some_conv)
  then show ?thesis using setvar_put_cases [of col b key val tx] by auto
qed (auto simp: setenv_Evaluate_def bind_eq_Some_conv deny_Evaluate_def drop_Evaluate_def redirect_Evaluate_def
    Interrupt_def split: if_splits)

interpretation limits: engine_invariant
  "\<lambda>tx. tx_lastPhase tx = p \<and> PhaseRequestHeaders < p \<and> tx_RequestBodyLimit tx = l \<and> tx_RequestBodyAccess tx = b"
  "\<lambda>a. True" for p l b
proof unfold_locales
  fix tx tx' :: Transaction and a rules r
  assume P: "tx_lastPhase tx = p \<and> PhaseRequestHeaders < p \<and> tx_RequestBodyLimit tx = l \<and> tx_RequestBodyAccess tx = b"
    and e: "action_Evaluate rules r a tx = Some tx'"
  show "tx_lastPhase tx' = p \<and> PhaseRequestHeaders < p \<and> tx_RequestBodyLimit tx' = l \<and> tx_RequestBodyAccess tx' = b"
    using P action_frame [OF e] action_limits [OF e] by (simp add: same_core_def)
  then show "tx_lastPhase tx' = p \<and> PhaseRequestHeaders < p \<and> tx_RequestBodyLimit tx' = l \<and> tx_RequestBodyAccess tx' = b" .
qed simp_all

interpretation sticky: engine_invariant "\<lambda>tx. tx_interruption tx \<noteq> None" "\<lambda>a. True"
proof unfold_locales
  fix tx tx' :: Transaction and a rules r
  assume P: "tx_interruption tx \<noteq> None" and e: "action_Evaluate rules r a tx = Some tx'"
  have "tx_interruption tx' = tx_interruption tx" if "action_Type a \<noteq> ActionTypeDisruptive"
    using action_interruption [OF e] that by auto
  moreover have "tx_interruption tx' \<noteq> None" if "action_Type a = ActionTypeDisruptive"
    using P e that by (cases a) (auto simp: deny_Evaluate_def drop_Evaluate_def redirect_Evaluate_def Interrupt_def)
  ultimately show "tx_interruption tx' \<noteq> None" using P by (cases "action_Type a = ActionTypeDisruptive") auto
  then show "tx_interruption tx' \<noteq> None" .
qed simp_all

abbreviation sane :: "WAF \<Rightarrow> bool" where
  "sane w \<equiv> \<forall>n\<in>set (w_Rules w). node_sane (\<lambda>a. True) n"

lemma run_phase_Some:
  assumes "run_phase rt w phase tx = Some tx'"
  obtains t where "eval_loop (rt_addr rt) (w_Rules w) phase (w_Rules w)
      (tx\<lparr>tx_lastPhase := phase, tx_transformationCache := Map.empty\<rparr>) = Some t"
    "tx' = (if tx_AllowType t = AllowTypePhase then t\<lparr>tx_AllowType := AllowTypeUnset\<rparr> else t)\<lparr>tx_Skip := 0\<rparr>"
proof -
  from assms obtain d where "Eval (rt_addr rt) (w_Rules w) phase tx = Some (d, tx')"
    by (auto simp: run_phase_def)
  then show ?thesis by (rule Eval_Some) (rule that)
qed

lemma run_phase_frame:
  assumes "run_phase rt w phase tx = Some tx'" "sane w"
  shows "tx_lastPhase tx' = phase" "tx_requestBodyBuffer tx' = tx_requestBodyBuffer tx"
    "tx_responseBodyBuffer tx' = tx_responseBodyBuffer tx"
    "tx_interruption tx \<noteq> None \<Longrightarrow> tx_interruption tx' \<noteq> None"
    "PhaseRequestHeaders < phase \<Longrightarrow>
     tx_RequestBodyLimit tx' = tx_RequestBodyLimit tx \<and> tx_RequestBodyAccess tx' = tx_RequestBodyAccess tx"
proof -
  let ?tx = "tx\<lparr>tx_lastPhase := phase, tx_transformationCache := Map.empty\<rparr>"
  from assms(1) obtain t where
    l: "eval_loop (rt_addr rt) (w_Rules w) phase (w_Rules w) ?tx = Some t"
    and tx': "tx' = (if tx_AllowType t = AllowTypePhase then t\<lparr>tx_AllowType := AllowTypeUnset\<rparr> else t)\<lparr>tx_Skip := 0\<rparr>"
    by (rule run_phase_Some)
  have "tx_lastPhase t = phase \<and> tx_requestBodyBuffer t = tx_requestBodyBuffer tx \<and>
      tx_responseBodyBuffer t = tx_responseBodyBuffer tx \<and> {} \<subseteq> set (tx_ruleRemoveByID t)"
    by (rule core.P_eval_loop [OF l]) (simp_all add: assms(2))
  with tx' show "tx_lastPhase tx' = phase" "tx_requestBodyBuffer tx' = tx_requestBodyBuffer tx"
    "tx_responseBodyBuffer tx' = tx_responseBodyBuffer tx" by simp_all
  show "tx_interruption tx' \<noteq> None" if "tx_interruption tx \<noteq> None"
    using sticky.P_eval_loop [OF l] that assms(2) tx' by simp
  show "tx_RequestBodyLimit tx' = tx_RequestBodyLimit tx \<and> tx_RequestBodyAccess tx' = tx_RequestBodyAccess tx"
    if "PhaseRequestHeaders < phase"
    using limits.P_eval_loop [OF l, of phase "tx_RequestBodyLimit tx" "tx_RequestBodyAccess tx"] that assms(2) tx' by simp
qed

lemma body_content_bytes [simp]: "body_content br = Some (bb_bytes br)"
  using read_all_rest [of bb_Reader br 32768 "Suc (length (bb_bytes br))"]
  by (simp add: body_content_def bb_Reader_def)

lemma ProcessRequest_vars:
  assumes "processors_ok (rt_processors rt)" "GetBodyProcessor (rt_processors rt) n = Some p" "vars_of tx t"
  shows "\<exists>err t'. bp_ProcessRequest p b m t = Some (err, t') \<and> vars_of tx t'"
    "\<exists>err t'. bp_ProcessResponse p b m t = Some (err, t') \<and> vars_of tx t'"
  using GetBodyProcessor_ok [OF assms(1,2)] assms(3) unfolding only_variables_def vars_of_def by fastforce+

lemma vars_of_errors [simp]:
  "vars_of tx t \<Longrightarrow> vars_of tx (generateRequestBodyError e t)"
  "vars_of tx t \<Longrightarrow> vars_of tx (generateResponseBodyError e t)"
  by (simp_all add: generateRequestBodyError_def generateResponseBodyError_def Let_def)

lemma parse_request_body_vars:
  assumes "processors_ok (rt_processors rt)"
  shows "\<exists>t. parse_request_body rt tx = Some t \<and> vars_of tx t"
proof -
  have use: "\<exists>t'. use_processor rt n m t = Some t' \<and> vars_of tx t'" if t: "vars_of tx t" for n m t
  proof (cases "GetBodyProcessor (rt_processors rt) n")
    case (Some p)
    from ProcessRequest_vars(1) [OF assms Some t] obtain err t'
      where "bp_ProcessRequest p (bb_bytes (tx_requestBodyBuffer t)) m t = Some (err, t')" "vars_of tx t'" by blast
    with Some t show ?thesis by (cases err) (simp_all add: use_processor_def)
  qed (use t in \<open>simp add: use_processor_def\<close>)
  show ?thesis
    by (auto simp: parse_request_body_def select_processor_def Let_def intro!: use)
qed

lemma parse_response_body_vars:
  assumes "processors_ok (rt_processors rt)"
  shows "\<exists>err t. parse_response_body rt w tx = Some (err, t) \<and> vars_of tx t"
proof (cases "GetBodyProcessor (rt_processors rt) (single_Get VResBodyProcessor tx)")
  case (Some p)
  from ProcessRequest_vars(2) [OF assms Some vars_of_refl] obtain err t'
    where "bp_ProcessResponse p (bb_bytes (tx_responseBodyBuffer tx)) [] tx = Some (err, t')" "vars_of tx t'" by blast
  with Some show ?thesis by (cases err) (simp_all add: parse_response_body_def Let_def)
qed (simp add: parse_response_body_def Let_def)

lemma vars_of_fields:
  assumes "vars_of tx t"
  shows "tx_lastPhase t = tx_lastPhase tx" "tx_interruption t = tx_interruption tx"
    "tx_requestBodyBuffer t = tx_requestBodyBuffer tx" "tx_responseBodyBuffer t = tx_responseBodyBuffer tx"
    "tx_RequestBodyLimit t = tx_RequestBodyLimit tx" "tx_RequestBodyAccess t = tx_RequestBodyAccess tx"
    "tx_RuleEngine t = tx_RuleEngine tx"
  using assms by (auto simp: vars_of_def)

subsection \<open>Phases in order\<close>

text \<open>How one call may move a transaction.\<close>

definition advances :: "Transaction \<Rightarrow> Transaction \<Rightarrow> bool" where
  "advances tx tx' = ((tx_interruption tx \<noteq> None \<longrightarrow> tx_interruption tx' \<noteq> None) \<and>
     (tx_lastPhase tx' = tx_lastPhase tx \<or>
      tx_lastPhase tx < PhaseRequestHeaders \<and> tx_lastPhase tx' = PhaseRequestHeaders \<or>
      tx_lastPhase tx = PhaseRequestHeaders \<and> tx_lastPhase tx' = PhaseRequestBody \<or>
      tx_lastPhase tx < PhaseResponseHeaders \<and> tx_lastPhase tx' = PhaseResponseHeaders \<or>
      tx_lastPhase tx = PhaseResponseHeaders \<and> tx_lastPhase tx' = PhaseResponseBody \<or>
      tx_lastPhase tx' = PhaseLogging))"

lemma advances_same:
  "tx_lastPhase tx' = tx_lastPhase tx \<Longrightarrow> tx_interruption tx' = tx_interruption tx \<Longrightarrow> advances tx tx'"
  by (simp add: advances_def)

lemma advances_refl [simp]: "advances tx tx"
  by (simp add: advances_same)

lemma advances_updates [simp]:
  "advances (tx\<lparr>tx_requestBodyBuffer := br\<rparr>) tx' = advances tx tx'"
  "advances (tx\<lparr>tx_responseBodyBuffer := br\<rparr>) tx' = advances tx tx'"
  "advances (single_Set v s tx) tx' = advances tx tx'"
  "advances tx (tx'\<lparr>tx_requestBodyBuffer := br\<rparr>) = advances tx tx'"
  "advances tx (tx'\<lparr>tx_responseBodyBuffer := br\<rparr>) = advances tx tx'"
  "advances tx (single_Set v s tx') = advances tx tx'"
  by (simp_all add: advances_def)

lemma setAndReturn_advances: "setAndReturnBodyLimitInterruption st tx0 = (r, tx') \<Longrightarrow> advances tx tx0 \<Longrightarrow> advances tx tx'"
  by (auto simp: setAndReturnBodyLimitInterruption_def advances_def)

lemma ProcessRequestBody_advances:
  assumes "ProcessRequestBody rt w tx = Some (r, tx')" "sane w" "processors_ok (rt_processors rt)"
  shows "advances tx tx'"
proof -
  from parse_request_body_vars [OF assms(3), of tx] obtain t where t: "parse_request_body rt tx = Some t" "vars_of tx t" by blast
  have "advances tx t'" if "run_phase rt w PhaseRequestBody t = Some t'" "tx_lastPhase tx = PhaseRequestHeaders" for t'
    using run_phase_frame [OF that(1) assms(2)] that(2) vars_of_fields [OF t(2)] by (simp add: advances_def)
  with assms(1) t show ?thesis
    by (auto simp: ProcessRequestBody_def bind_eq_Some_conv split: if_splits)
qed

lemma ProcessResponseBody_advances:
  assumes "ProcessResponseBody rt w tx = Some (r, tx')" "sane w" "processors_ok (rt_processors rt)"
  shows "advances tx tx'"
proof -
  from parse_response_body_vars [OF assms(3), of w tx] obtain err t
    where t: "parse_response_body rt w tx = Some (err, t)" "vars_of tx t" by blast
  have "advances tx t'" if "run_phase rt w PhaseResponseBody t = Some t'" "tx_lastPhase tx = PhaseResponseHeaders" for t'
    using run_phase_frame [OF that(1) assms(2)] that(2) vars_of_fields [OF t(2)] by (simp add: advances_def)
  with assms(1) t show ?thesis
    by (auto simp: ProcessResponseBody_def bind_eq_Some_conv split: if_splits)
qed

lemma finish_advances:
  assumes "sane w" "processors_ok (rt_processors rt)"
  shows "finish_request_write rt w run n tx = Some (r, tx') \<Longrightarrow> advances tx tx'"
    "finish_response_write rt w run n tx = Some (r, tx') \<Longrightarrow> advances tx tx'"
  using ProcessRequestBody_advances [OF _ assms] ProcessResponseBody_advances [OF _ assms]
  by (auto simp: finish_request_write_def finish_response_write_def bind_eq_Some_conv split: if_splits)

lemma store_advances:
  assumes "sane w" "processors_ok (rt_processors rt)"
  shows "store_request rt w run d tx = Some (r, tx') \<Longrightarrow> advances tx tx'"
    "store_response rt w run d tx = Some (r, tx') \<Longrightarrow> advances tx tx'"
    "copy_request rt w rd n run tx = Some (r, tx') \<Longrightarrow> advances tx tx'"
    "copy_response rt w rd n run tx = Some (r, tx') \<Longrightarrow> advances tx tx'"
  by (auto simp: store_request_def store_response_def copy_request_def copy_response_def Let_def
      split: prod.splits option.splits if_splits dest!: finish_advances [OF assms] elim!: setAndReturn_advances)

lemma writes_advance:
  assumes "sane w" "processors_ok (rt_processors rt)"
  shows "WriteRequestBody rt w b tx = Some (r, tx') \<Longrightarrow> advances tx tx'"
    "WriteResponseBody rt w b tx = Some (r, tx') \<Longrightarrow> advances tx tx'"
    "ReadRequestBodyFrom rt w rd tx = Some (r, tx') \<Longrightarrow> advances tx tx'"
    "ReadResponseBodyFrom rt w rd tx = Some (r, tx') \<Longrightarrow> advances tx tx'"
  by (auto simp: WriteRequestBody_def WriteResponseBody_def ReadRequestBodyFrom_def ReadResponseBodyFrom_def
      Let_def bind_eq_Some_conv split: if_splits option.splits
      dest!: store_advances [OF assms] elim!: setAndReturn_advances)

lemma headers_advance:
  assumes "sane w"
  shows "ProcessRequestHeaders rt w tx = Some (i, tx') \<Longrightarrow> advances tx tx'"
    "ProcessResponseHeaders rt w code proto tx = Some (i, tx') \<Longrightarrow> advances tx tx'"
    "ProcessLogging rt w tx = Some (d, tx') \<Longrightarrow> advances tx tx'"
proof -
  have run: "advances tx t'" if "run_phase rt w p t = Some t'" "vars_of tx t"
    "p = PhaseRequestHeaders \<and> tx_lastPhase tx < p \<or> p = PhaseResponseHeaders \<and> tx_lastPhase tx < p \<or> p = PhaseLogging"
    for p t t'
    using run_phase_frame(1,4) [OF that(1) assms] vars_of_fields(1,2) [OF that(2)] that(3) by (auto simp: advances_def)
  show "ProcessRequestHeaders rt w tx = Some (i, tx') \<Longrightarrow> advances tx tx'"
    "ProcessLogging rt w tx = Some (d, tx') \<Longrightarrow> advances tx tx'"
    "ProcessResponseHeaders rt w code proto tx = Some (i, tx') \<Longrightarrow> advances tx tx'"
    unfolding ProcessRequestHeaders_def ProcessResponseHeaders_def ProcessLogging_def
    by (auto simp: bind_eq_Some_conv split: if_splits elim!: run)
qed

lemma vars_of_advances: "vars_of tx tx' \<Longrightarrow> advances tx tx'"
  by (simp add: advances_same vars_of_fields)

lemma vars_of_fold2:
  "(\<And>x y t. vars_of tx t \<Longrightarrow> vars_of tx (f x y t)) \<Longrightarrow> vars_of tx t \<Longrightarrow>
   vars_of tx (fold (\<lambda>(k, vs) t. fold (f k) vs t) kvs t)"
  by (rule vars_of_fold) (auto intro!: vars_of_fold)

lemma inputs_vars_of:
  "vars_of tx (ProcessConnection client cPort server sPort tx)"
  "vars_of tx (SetServerName name tx)" "vars_of tx (AddRequestHeader key value tx)"
  "vars_of tx (AddResponseHeader key value tx)"
  "vars_of tx t \<Longrightarrow> vars_of tx (add_argument w v key value t)"
  by (simp_all add: ProcessConnection_def SetServerName_def AddRequestHeader_def AddResponseHeader_def AddAll_def
      add_argument_def Let_def vars_of_fold2 split: prod.split)

lemma ProcessURI_vars_of: "vars_of tx (ProcessURI parse w u method version tx)"
proof -
  have "vars_of tx (ExtractGetArguments w q t)" if "vars_of tx t" for q t
    using that by (simp add: ExtractGetArguments_def AddGetRequestArgument_def vars_of_fold2 inputs_vars_of)
  then show ?thesis by (simp add: ProcessURI_def Let_def split: sum.split)
qed

lemmas tx_step_advances_facts =
  headers_advance writes_advance ProcessRequestBody_advances ProcessResponseBody_advances

lemma tx_step_advances:
  assumes "tx_step ps w tx tx'" "sane w" "processors_ok ps"
  shows "advances tx tx'"
  using assms by (induction rule: tx_step.induct)
    (auto intro: vars_of_advances inputs_vars_of(1-4) inputs_vars_of(5) [OF vars_of_refl] ProcessURI_vars_of tx_step_advances_facts)




text \<open>
  (C4) An interruption is never taken back: once a transaction is interrupted, it stays so through every
  sequence of calls.
\<close>

theorem interruption_stays:
  assumes "(tx_step ps w)\<^sup>*\<^sup>* tx tx'" "tx_interruption tx \<noteq> None" "sane w" "processors_ok ps"
  shows "tx_interruption tx' \<noteq> None"
  using assms(1,2)
proof (induction rule: rtranclp_induct)
  case (step t t')
  then show ?case using tx_step_advances [OF step.hyps(2) assms(3,4)] by (simp add: advances_def)
qed

subsection \<open>The request body under its limit\<close>

abbreviation safe :: "WAF \<Rightarrow> bool" where
  "safe w \<equiv> \<forall>n\<in>set (w_Rules w). node_safe n"

lemma run_phase_total: "safe w \<Longrightarrow> \<exists>tx'. run_phase rt w phase tx = Some tx'"
  using Eval_runs [of "w_Rules w" "rt_addr rt" phase tx] by (auto simp: run_phase_def)

lemma ProcessRequestBody_keeps:
  assumes "sane w" "safe w" "processors_ok (rt_processors rt)"
  shows "\<exists>r tx'. ProcessRequestBody rt w tx = Some (r, tx') \<and> tx_requestBodyBuffer tx' = tx_requestBodyBuffer tx \<and>
    tx_RequestBodyLimit tx' = tx_RequestBodyLimit tx \<and> tx_RequestBodyAccess tx' = tx_RequestBodyAccess tx"
proof -
  from parse_request_body_vars [OF assms(3), of tx] obtain t where t: "parse_request_body rt tx = Some t" "vars_of tx t" by blast
  from run_phase_total [OF assms(2)] obtain t' where r: "run_phase rt w PhaseRequestBody t = Some t'" by blast
  show ?thesis
    using t(1) r run_phase_frame(2,5) [OF r assms(1)] vars_of_fields [OF t(2)]
    by (auto simp: ProcessRequestBody_def)
qed

text \<open>The state of a transaction that takes a body under the limit \<open>l\<close>.\<close>

definition takes_body :: "int \<Rightarrow> Transaction \<Rightarrow> bool" where
  "takes_body l tx = (bb_ok (tx_requestBodyBuffer tx) \<and> bb_Limit (tx_requestBodyBuffer tx) = l \<and>
     tx_RequestBodyLimit tx = l \<and> tx_RequestBodyAccess tx \<and>
     (tx_RuleEngine tx = RuleEngineOff \<longrightarrow> bb_length (tx_requestBodyBuffer tx) = l))"

abbreviation body_of :: "Transaction \<Rightarrow> string" where
  "body_of tx \<equiv> bb_bytes (tx_requestBodyBuffer tx)"

lemma store_request_partial:
  assumes "sane w" "safe w" "processors_ok (rt_processors rt)" "rt_os rt 0 = os_fine"
    and "takes_body l tx" "tx_RuleEngine tx \<noteq> RuleEngineOff" "int (length (body_of tx)) + int (length d) \<le> l"
    and "int (length (body_of tx)) + int (length d) = l \<or> \<not> run"
  shows "\<exists>r tx'. store_request rt w run d tx = Some (r, tx') \<and> takes_body l tx' \<and> body_of tx' = body_of tx @ d"
proof -
  let ?br = "tx_requestBodyBuffer tx"
  have ok: "bb_ok ?br" "bb_Limit ?br = l" "bb_length ?br = int (length (body_of tx))"
    using assms(5) by (auto simp: takes_body_def bb_ok_def)
  obtain k br where wr: "bb_Write os_fine d ?br = (k, None, br)" "bb_bytes br = body_of tx @ d" "bb_ok br" "bb_Limit br = l"
    using assms(7) ok by (cases rule: bb_Write_cases [OF ok(1), of d]) auto
  then have len: "bb_length br = int (length (body_of tx @ d))" by (simp add: bb_ok_def)
  let ?t = "tx\<lparr>tx_requestBodyBuffer := br\<rparr>"
  show ?thesis
  proof (cases run)
    case True
    from ProcessRequestBody_keeps [OF assms(1-3), of ?t] obtain r tx' where p: "ProcessRequestBody rt w ?t = Some (r, tx')"
      "tx_requestBodyBuffer tx' = br" "tx_RequestBodyLimit tx' = tx_RequestBodyLimit tx"
      "tx_RequestBodyAccess tx' = tx_RequestBodyAccess tx" by auto
    obtain i e where r: "r = (i, e)" by (cases r)
    have "takes_body l tx'" using p wr len True assms(5,8) by (auto simp: takes_body_def)
    with p r wr assms(4) True show ?thesis by (simp add: store_request_def finish_request_write_def)
  next
    case False
    with wr assms(4-6) show ?thesis by (simp add: store_request_def finish_request_write_def takes_body_def)
  qed
qed

lemma WriteRequestBody_partial:
  assumes "sane w" "safe w" "processors_ok (rt_processors rt)" "rt_os rt 0 = os_fine"
    and "w_RequestBodyLimitAction w = BodyLimitActionProcessPartial" "takes_body l tx"
    and "l \<le> 2 ^ 30" "int (length b) < 2 ^ 62"
  shows "\<exists>r tx'. WriteRequestBody rt w b tx = Some (r, tx') \<and> takes_body l tx' \<and> body_of tx' = take (nat l) (body_of tx @ b)"
proof -
  have tx: "bb_length (tx_requestBodyBuffer tx) = int (length (body_of tx))" "int (length (body_of tx)) \<le> l"
    "tx_RequestBodyLimit tx = l" "tx_RequestBodyAccess tx"
    using assms(6) by (auto simp: takes_body_def bb_ok_def)
  show ?thesis
  proof (cases "tx_RuleEngine tx = RuleEngineOff \<or> int (length (body_of tx)) = l")
    case True
    with assms(6) have "int (length (body_of tx)) = l" by (auto simp: takes_body_def bb_ok_def)
    with tx assms(5,6) show ?thesis by (auto simp: WriteRequestBody_def Let_def)
  next
    case False
    let ?over = "int (length (body_of tx)) + int (length b) \<ge> l"
    let ?t = "if ?over then single_Set VInboundDataError ''1'' tx else tx"
    let ?d = "if ?over then take (nat l - length (body_of tx)) b else b"
    have no: "\<not> max_int64 - int (length b) \<le> int (length (body_of tx))"
      using assms(7,8) tx(2) by (simp add: max_int64_def)
    have d: "slice_to b (if ?over then l - int (length (body_of tx)) else int (length b)) = Some ?d"
      using tx(2) by (auto simp: slice_to_def slice_def nat_diff_distrib')
    have w: "WriteRequestBody rt w b tx = store_request rt w ?over ?d ?t"
      using False tx no d assms(5) by (simp add: WriteRequestBody_def Let_def)
    have t: "takes_body l ?t" "tx_RuleEngine ?t \<noteq> RuleEngineOff" "body_of ?t = body_of tx"
      using assms(6) False by (simp_all add: takes_body_def)
    have len: "int (length (body_of tx)) + int (length ?d) \<le> l" "int (length (body_of tx)) + int (length ?d) = l \<or> \<not> ?over"
      using tx(2) by (auto simp: min_def)
    have "body_of tx @ ?d = take (nat l) (body_of tx @ b)" using tx(2) by auto
    with store_request_partial [OF assms(1-4) t(1,2), of ?d ?over] t(3) len w show ?thesis by simp
  qed
qed

text \<open>
  (C2) With the limit action \<open>ProcessPartial\<close>, however a body is split into writes, no write panics and
  the stored body is the prefix of the whole body that the limit allows: nothing under the limit is
  lost, nothing over it is kept, and the rules that run when the limit is reached cannot change that.
\<close>

theorem partial_body_is_prefix:
  assumes "sane w" "safe w" "processors_ok (rt_processors rt)" "rt_os rt 0 = os_fine"
    and "w_RequestBodyLimitAction w = BodyLimitActionProcessPartial" "takes_body l tx"
    and "l \<le> 2 ^ 30" "\<forall>b\<in>set bs. int (length b) < 2 ^ 62"
  shows "\<exists>tx'. ofold (\<lambda>b tx. map_option snd (WriteRequestBody rt w b tx)) bs tx = Some tx' \<and>
    body_of tx' = take (nat l) (body_of tx @ concat bs)"
  using assms(6,8)
proof (induction bs arbitrary: tx)
  case Nil
  then have "length (body_of tx) \<le> nat l" by (auto simp: takes_body_def bb_ok_def)
  then show ?case by simp
next
  case (Cons b bs)
  from Cons.prems(2) have "int (length b) < 2 ^ 62" by simp
  from WriteRequestBody_partial [OF assms(1-5) Cons.prems(1) assms(7) this] obtain r t
    where t: "WriteRequestBody rt w b tx = Some (r, t)" "takes_body l t" "body_of t = take (nat l) (body_of tx @ b)"
    by blast
  with Cons.IH [OF t(2)] Cons.prems(2) obtain tx'
    where "ofold (\<lambda>b tx. map_option snd (WriteRequestBody rt w b tx)) bs t = Some tx'"
      "body_of tx' = take (nat l) (body_of t @ concat bs)" by auto
  moreover have "take m (take m (x @ y) @ z) = take m (x @ y @ z)" for m and x y z :: string
    by (simp add: take_append min_def)
  ultimately show ?case using t by simp
qed

subsection \<open>Bodies that cannot be parsed\<close>

text \<open>
  (C3) A request body that its processor rejects does not slip past the rules: the phase is evaluated
  all the same, on a state in which \<open>REQBODY_ERROR\<close> and \<open>REQBODY_PROCESSOR_ERROR\<close> are 1 and the
  messages name the processor and its error.
\<close>

theorem body_error_reaches_rules:
  assumes "tx_RuleEngine tx \<noteq> RuleEngineOff" "tx_interruption tx = None" "tx_lastPhase tx = PhaseRequestHeaders"
    and "tx_RequestBodyAccess tx" "bb_length (tx_requestBodyBuffer tx) \<noteq> 0" "\<not> tx_ForceRequestBodyVariable tx"
    and "single_Get VReqbodyProcessor tx = p" "p \<noteq> []" "GetBodyProcessor (rt_processors rt) p = Some bp"
    and "\<forall>mime. bp_ProcessRequest bp (body_of tx) mime tx = Some (Some e, t)"
  shows "ProcessRequestBody rt w tx =
      map_option (\<lambda>t. ((tx_interruption t, None), t)) (run_phase rt w PhaseRequestBody (generateRequestBodyError e t)) \<and>
    single_Get VReqbodyError (generateRequestBodyError e t) = ''1'' \<and>
    single_Get VReqbodyProcessorError (generateRequestBodyError e t) = ''1'' \<and>
    single_Get VReqbodyErrorMsg (generateRequestBodyError e t) = single_Get VReqbodyProcessor t @ '': '' @ e"
proof -
  have "GetBodyProcessor (rt_processors rt) (to_lower p) = Some bp" "to_lower p \<noteq> []"
    using assms(8,9) by (simp_all add: GetBodyProcessor_def)
  with assms have "parse_request_body rt tx = Some (generateRequestBodyError e t)"
    by (simp add: parse_request_body_def select_processor_def use_processor_def Let_def)
  with assms(1-3) show ?thesis
    by (cases "run_phase rt w PhaseRequestBody (generateRequestBodyError e t)")
      (simp_all add: ProcessRequestBody_def generateRequestBodyError_def Let_def)
qed

subsection \<open>Examples\<close>

definition example_waf :: WAF where
  "example_waf = WAFSettings.extend (example_settings\<lparr>w_RequestBodyLimitAction := BodyLimitActionProcessPartial\<rparr>)
     (WAF.fields [(example_deny, [])])"

definition example_world :: bp_world where
  "example_world = \<lparr>bw_iter = id, bw_iter_items = id, bw_gjson = (\<lambda>_. []), bw_media = (\<lambda>_. Inl ''mime: no media type''),
     bw_parts = (\<lambda>_ _. []), bw_xml = (\<lambda>_. ([], XmlEOF))\<rparr>"

definition example_runtime :: runtime where
  "example_runtime = \<lparr>rt_addr = (\<lambda>_. 0), rt_processors = init_processors example_world, rt_os = (\<lambda>_. os_fine)\<rparr>"

lemma example_waf_ok:
  "w_Rules example_waf = [(example_deny, [])]" "sane example_waf" "safe example_waf"
  "w_RequestBodyLimitAction example_waf = BodyLimitActionProcessPartial"
  "processors_ok (rt_processors example_runtime)" "rt_os example_runtime 0 = os_fine"
  using example_sane init_processors_ok
  by (simp_all add: example_waf_def WAFSettings.defs WAF.defs example_settings_def example_runtime_def)

definition example_headers :: Transaction where
  "example_headers = example_tx\<lparr>tx_lastPhase := 1, tx_RequestBodyAccess := True, tx_RequestBodyLimit := 100\<rparr>"

lemma example_takes_body: "takes_body 100 example_headers" "body_of example_headers = []"
  by (simp_all add: takes_body_def example_headers_def example_tx_def fresh_Transaction_def example_settings_def
      NewBodyBuffer_def bb_ok_def bb_bytes_def)

theorem partial_body_is_prefix_witness:
  "\<exists>tx'. ofold (\<lambda>b tx. map_option snd (WriteRequestBody example_runtime example_waf b tx)) [''a=1'', ''&b=2''] example_headers = Some tx' \<and>
     body_of tx' = ''a=1&b=2''"
  using partial_body_is_prefix [OF example_waf_ok(2,3,5,6,4) example_takes_body(1), of "[''a=1'', ''&b=2'']"] example_takes_body(2)
  by simp

text \<open>A multipart body whose media type cannot be parsed.\<close>

theorem body_error_reaches_rules_witness:
  "\<exists>t. single_Get VReqbodyError t = ''1'' \<and>
     ProcessRequestBody example_runtime example_waf
       (single_Set VReqbodyProcessor ''MULTIPART'' (example_headers\<lparr>tx_requestBodyBuffer := \<lparr>bb_Limit = 100, bb_MemoryLimit = 100,
          bb_buffer = ''x'', bb_writer = None, bb_length = 1\<rparr>\<rparr>)) =
       map_option (\<lambda>t. ((tx_interruption t, None), t)) (run_phase example_runtime example_waf PhaseRequestBody t)"
proof -
  let ?tx = "single_Set VReqbodyProcessor ''MULTIPART'' (example_headers\<lparr>tx_requestBodyBuffer := \<lparr>bb_Limit = 100,
      bb_MemoryLimit = 100, bb_buffer = ''x'', bb_writer = None, bb_length = 1\<rparr>\<rparr>)"
  let ?bp = "\<lparr>bp_ProcessRequest = multipart_ProcessRequest (bw_media example_world) (bw_parts example_world),
      bp_ProcessResponse = no_ProcessResponse\<rparr>"
  have "to_lower ''MULTIPART'' = ''multipart''" by code_simp
  then have bp: "GetBodyProcessor (rt_processors example_runtime) ''MULTIPART'' = Some ?bp"
    by (simp add: GetBodyProcessor_def example_runtime_def init_processors_def RegisterBodyProcessor_def)
  have err: "\<forall>mime. bp_ProcessRequest ?bp (body_of ?tx) mime ?tx =
      Some (Some ''mime: no media type'', single_Set VMultipartStrictError ''1'' ?tx)"
    by (simp add: multipart_ProcessRequest_def strict_error_def example_world_def)
  have tx: "tx_RuleEngine ?tx \<noteq> RuleEngineOff" "tx_interruption ?tx = None" "tx_lastPhase ?tx = PhaseRequestHeaders"
    "tx_RequestBodyAccess ?tx" "bb_length (tx_requestBodyBuffer ?tx) \<noteq> 0" "\<not> tx_ForceRequestBodyVariable ?tx"
    "single_Get VReqbodyProcessor ?tx = ''MULTIPART''"
    by (simp_all add: example_headers_def example_tx_def fresh_Transaction_def)
  show ?thesis
    by (rule exI, rule conjI [rotated], rule conjunct1 [OF body_error_reaches_rules [OF tx _ bp err]])
      (simp_all add: generateRequestBodyError_def Let_def)
qed



theorem interruption_stays_witness:
  "(tx_step (rt_processors example_runtime) example_waf)\<^sup>*\<^sup>* (deny_Evaluate example_deny example_tx)
     (AddRequestHeader ''Host'' ''a'' (deny_Evaluate example_deny example_tx)) \<and>
   tx_interruption (AddRequestHeader ''Host'' ''a'' (deny_Evaluate example_deny example_tx)) \<noteq> None"
proof -
  have i: "tx_interruption (deny_Evaluate example_deny example_tx) \<noteq> None"
    by (simp add: deny_Evaluate_def Interrupt_def example_tx_def fresh_Transaction_def)
  have s: "(tx_step (rt_processors example_runtime) example_waf)\<^sup>*\<^sup>* (deny_Evaluate example_deny example_tx)
     (AddRequestHeader ''Host'' ''a'' (deny_Evaluate example_deny example_tx))"
    by (rule r_into_rtranclp) (rule tx_step.request_header)
  from s interruption_stays [OF s i example_waf_ok(2,5)] show ?thesis by blast
qed

subsection \<open>Limits of the limits\<close>

text \<open>With the limit action \<open>Reject\<close> a body over the limit interrupts, even when the engine only detects.\<close>

lemma reject_interrupts_in_detection:
  assumes "tx_RuleEngine tx = RuleEngineDetectionOnly" "tx_RequestBodyAccess tx"
    and "w_RequestBodyLimitAction w = BodyLimitActionReject" "bb_length (tx_requestBodyBuffer tx) = 0"
    and "0 < tx_RequestBodyLimit tx" "tx_RequestBodyLimit tx \<le> int (length b)" "int (length b) < max_int64"
  shows "\<exists>tx'. WriteRequestBody rt w b tx = Some ((tx_interruption tx', 0, None), tx') \<and> tx_interruption tx' \<noteq> None"
  using assms by (simp add: WriteRequestBody_def setAndReturnBodyLimitInterruption_def Let_def)

text \<open>A limit lowered below what was already written makes the next write slice with a negative bound.\<close>

lemma lowered_limit_panics:
  assumes "tx_RuleEngine tx \<noteq> RuleEngineOff" "tx_RequestBodyAccess tx"
    and "w_RequestBodyLimitAction w = BodyLimitActionProcessPartial" "tx_RequestBodyLimit tx < bb_length (tx_requestBodyBuffer tx)"
    and "bb_length (tx_requestBodyBuffer tx) < max_int64 - int (length b)"
  shows "WriteRequestBody rt w b tx = None"
  using assms by (simp add: WriteRequestBody_def slice_to_def Let_def)

text \<open>A limit of 0 lets every body pass unread, without an interruption.\<close>

lemma zero_limit_ignores_body:
  assumes "tx_RuleEngine tx \<noteq> RuleEngineOff" "tx_RequestBodyAccess tx" "tx_RequestBodyLimit tx = 0"
    and "bb_length (tx_requestBodyBuffer tx) = 0" "tx_interruption tx = None"
  shows "WriteRequestBody rt w b tx = Some ((None, 0, None), tx)"
  using assms by (simp add: WriteRequestBody_def Let_def)

end
