(* ===== verification/Go_Net.thy ===== *)
theory Go_Net
  imports Go_Text
begin

unbundle bit_operations_syntax

text \<open>
  The part of Go's package \<open>net\<close> that the gateway and the operators call: \<open>ParseIP\<close>, \<open>ParseCIDR\<close>,
  \<open>IPNet.Contains\<close>, the printers of addresses and networks, \<open>IsLoopback\<close> and \<open>SplitHostPort\<close>. An address is
  a list of 4 or 16 bytes; the empty list stands for nil.

  The main fact is that a network contains an address exactly when the leading bits agree.
\<close>

type_synonym ip_bytes = "8 word list"

subsection \<open>Parsing addresses\<close>

definition parse_octet :: "string \<Rightarrow> 8 word option" where
  "parse_octet s =
     (if s \<noteq> [] \<and> list_all is_digit s \<and> (hd s \<noteq> CHR ''0'' \<or> length s = 1) \<and> dec_value s \<le> 255
      then Some (word_of_nat (dec_value s)) else None)"

definition parse_v4 :: "string \<Rightarrow> ip_bytes option" where
  "parse_v4 s = (let fs = split CHR ''.'' s in if length fs = 4 then those (map parse_octet fs) else None)"

definition hex_group :: "string \<Rightarrow> ip_bytes" where
  "hex_group ds = (let v = fold (\<lambda>c n. n * 16 + hex_val c) ds 0 in [word_of_nat (v div 256), word_of_nat (v mod 256)])"

text \<open>
  The loop of \<open>netip.parseIPv6\<close>: \<open>ip\<close> has the bytes read so far and \<open>ell\<close> the position of \<open>::\<close>. The result
  has the rest of the input as well.
\<close>

function parse_v6_loop :: "string \<Rightarrow> ip_bytes \<Rightarrow> nat option \<Rightarrow> (ip_bytes \<times> nat option \<times> string) option" where
  "parse_v6_loop s ip ell =
     (if length ip \<ge> 16 then Some (ip, ell, s)
      else let ds = takeWhile ValidHex s; rest = drop (length ds) s in
        if ds = [] \<or> length ds > 4 then None
        else if rest \<noteq> [] \<and> hd rest = CHR ''.'' then
          (if ell = None \<and> length ip \<noteq> 12 \<or> length ip + 4 > 16 then None
           else map_option (\<lambda>f. (ip @ f, ell, [])) (parse_v4 s))
        else if rest = [] then Some (ip @ hex_group ds, ell, [])
        else if hd rest \<noteq> CHR '':'' \<or> length rest = 1 then None
        else if hd (tl rest) = CHR '':'' then
          (if ell \<noteq> None then None
           else if tl (tl rest) = [] then Some (ip @ hex_group ds, Some (length ip + 2), [])
           else parse_v6_loop (tl (tl rest)) (ip @ hex_group ds) (Some (length ip + 2)))
        else parse_v6_loop (tl rest) (ip @ hex_group ds) ell)"
  by auto
termination
  by (relation "measure (\<lambda>(s, ip, ell). 16 - length ip)") (auto simp: hex_group_def Let_def)

declare parse_v6_loop.simps [simp del]

text \<open>Zones are refused by the callers.\<close>

definition parse_v6 :: "string \<Rightarrow> ip_bytes option" where
  "parse_v6 s =
     (if CHR ''%'' \<in> set s then None
      else if s = ''::'' then Some (replicate 16 0)
      else case (if prefix ''::'' s then parse_v6_loop (drop 2 s) [] (Some 0) else parse_v6_loop s [] None) of
        None \<Rightarrow> None
      | Some (ip, ell, rest) \<Rightarrow>
          if rest \<noteq> [] then None
          else if length ip < 16 then
            map_option (\<lambda>e. take e ip @ replicate (16 - length ip) 0 @ drop e ip) ell
          else if ell \<noteq> None then None else Some ip)"

definition parse_addr :: "string \<Rightarrow> ip_bytes option" where
  "parse_addr s = (case find (\<lambda>c. c \<in> {CHR ''.'', CHR '':'', CHR ''%''}) s of
     Some c \<Rightarrow> if c = CHR ''.'' then parse_v4 s else if c = CHR '':'' then parse_v6 s else None
   | None \<Rightarrow> None)"

definition v4InV6Prefix :: ip_bytes where
  "v4InV6Prefix = replicate 10 0 @ [0xFF, 0xFF]"

definition as16 :: "ip_bytes \<Rightarrow> ip_bytes" where
  "as16 a = (if length a = 4 then v4InV6Prefix @ a else a)"

definition ParseIP :: "string \<Rightarrow> ip_bytes option" where
  "ParseIP s = map_option as16 (parse_addr s)"

definition To4 :: "ip_bytes \<Rightarrow> ip_bytes option" where
  "To4 ip = (if length ip = 4 then Some ip
     else if length ip = 16 \<and> take 12 ip = v4InV6Prefix then Some (drop 12 ip) else None)"

definition shortest :: "ip_bytes \<Rightarrow> ip_bytes" where
  "shortest ip = (case To4 ip of Some x \<Rightarrow> x | None \<Rightarrow> ip)"

definition IsLoopback :: "ip_bytes \<Rightarrow> bool" where
  "IsLoopback ip = (case To4 ip of Some x \<Rightarrow> hd x = 127 | None \<Rightarrow> ip = replicate 15 0 @ [1])"

subsection \<open>Networks\<close>

record IPNet =
  net_IP :: ip_bytes
  net_Mask :: ip_bytes

definition top_bits :: "nat \<Rightarrow> 8 word" where
  "top_bits k = NOT (drop_bit k 0xFF)"

definition cidr_mask :: "nat \<Rightarrow> nat \<Rightarrow> ip_bytes" where
  "cidr_mask n len = map (\<lambda>i. top_bits (n - 8 * i)) [0..<len]"

definition ParseCIDR :: "string \<Rightarrow> IPNet option" where
  "ParseCIDR s = (case str_cut s CHR ''/'' of (addr, len, found) \<Rightarrow>
     if \<not> found then None
     else case parse_addr addr of
       None \<Rightarrow> None
     | Some a \<Rightarrow>
         if len = [] \<or> \<not> list_all is_digit len \<or> dec_value len > 8 * length a then None
         else let m = cidr_mask (dec_value len) (length a) in Some \<lparr>net_IP = map2 (AND) a m, net_Mask = m\<rparr>)"

definition net_number_mask :: "IPNet \<Rightarrow> ip_bytes \<times> ip_bytes" where
  "net_number_mask n =
     (let nn = shortest (net_IP n); m = net_Mask n in
      if length m = 4 then (if length nn = 4 then (nn, m) else ([], []))
      else if length m = 16 then (nn, if length nn = 4 then drop 12 m else m)
      else ([], []))"

definition Contains :: "IPNet \<Rightarrow> ip_bytes \<Rightarrow> bool" where
  "Contains n ip0 =
     (let (nn, m) = net_number_mask n; ip = shortest ip0 in
      length ip = length nn \<and> map2 (AND) nn m = map2 (AND) ip m)"

subsection \<open>Printing\<close>

definition v4_String :: "ip_bytes \<Rightarrow> string" where
  "v4_String a = join_with CHR ''.'' (map (\<lambda>b. dec_digits (unat b)) a)"

fun v6_groups :: "ip_bytes \<Rightarrow> nat list" where
  "v6_groups (a # b # ip) = (256 * unat a + unat b) # v6_groups ip"
| "v6_groups _ = []"

definition zero_run :: "nat list \<Rightarrow> nat \<Rightarrow> nat" where
  "zero_run gs i = length (takeWhile (\<lambda>g. g = 0) (drop i gs))"

text \<open>The first longest run of at least two zero groups: its start and its end.\<close>

definition zero_span :: "nat list \<Rightarrow> nat \<times> nat" where
  "zero_span gs = fold (\<lambda>i (s, e). let l = zero_run gs i in if l \<ge> 2 \<and> l > e - s then (i, i + l) else (s, e)) [0..<8] (255, 255)"

fun hex_nat :: "nat \<Rightarrow> string" where
  "hex_nat n = (if n < 16 then [hex_digits ! n] else hex_nat (n div 16) @ [hex_digits ! (n mod 16)])"

declare hex_nat.simps [simp del]

definition v6_String :: "ip_bytes \<Rightarrow> string" where
  "v6_String ip =
     (let gs = v6_groups ip; (s, e) = zero_span gs; j = join_with CHR '':'' in
      if s < 8 then j (map hex_nat (take s gs)) @ ''::'' @ j (map hex_nat (drop e gs)) else j (map hex_nat gs))"

definition ip_String :: "ip_bytes \<Rightarrow> string" where
  "ip_String ip = (if ip = [] then ''<nil>'' else case To4 ip of Some a \<Rightarrow> v4_String a | None \<Rightarrow> v6_String ip)"

text \<open>The length of a canonical mask is the number of its leading ones.\<close>

definition mask_length :: "ip_bytes \<Rightarrow> nat" where
  "mask_length m = length (takeWhile id (concat (map (\<lambda>b. map (bit b) [7, 6, 5, 4, 3, 2, 1, 0]) m)))"

definition net_String :: "IPNet \<Rightarrow> string" where
  "net_String n = (case net_number_mask n of (nn, m) \<Rightarrow>
     if nn = [] \<or> m = [] then ''<nil>'' else ip_String nn @ ''/'' @ itoa (int (mask_length m)))"

subsection \<open>Hosts and ports\<close>

definition last_index :: "string \<Rightarrow> char \<Rightarrow> nat option" where
  "last_index s c = map_option (\<lambda>i. length s - 1 - i) (index_byte (rev s) c)"

definition SplitHostPort :: "string \<Rightarrow> (string \<times> string) option" where
  "SplitHostPort hp = (case last_index hp CHR '':'' of
     None \<Rightarrow> None
   | Some i \<Rightarrow>
       if hd hp = CHR ''['' then
         (case index_byte hp CHR '']'' of
            None \<Rightarrow> None
          | Some e \<Rightarrow>
              if e + 1 \<noteq> i \<or> CHR ''['' \<in> set (drop 1 hp) \<or> CHR '']'' \<in> set (drop (e + 1) hp) then None
              else Some (drop 1 (take e hp), drop (i + 1) hp))
       else if CHR '':'' \<in> set (take i hp) \<or> CHR ''['' \<in> set hp \<or> CHR '']'' \<in> set hp then None
       else Some (take i hp, drop (i + 1) hp))"

subsection \<open>Lengths\<close>

lemma those_length: "those xs = Some ys \<Longrightarrow> length ys = length xs"
  by (induction xs arbitrary: ys) (auto split: option.splits)

lemma parse_v4_length: "parse_v4 s = Some a \<Longrightarrow> length a = 4"
  by (auto simp: parse_v4_def Let_def split: if_splits dest: those_length)

lemma parse_v6_loop_length:
  "parse_v6_loop s ip ell = Some (r, e, rest) \<Longrightarrow> even (length ip) \<Longrightarrow> length ip \<le> 16 \<Longrightarrow> length r \<le> 16"
proof (induction s ip ell rule: parse_v6_loop.induct)
  case (1 s ip ell)
  have two: "length ip < 16 \<Longrightarrow> length ip + 2 \<le> 16" using "1.prems"(2) by presburger
  have g: "length (hex_group ds) = 2" for ds by (simp add: hex_group_def Let_def)
  show ?case
    using "1.prems" "1.IH" two
    by (subst (asm) parse_v6_loop.simps) (auto simp: Let_def g split: if_splits dest: parse_v4_length)
qed

lemma parse_v6_length: "parse_v6 s = Some a \<Longrightarrow> length a = 16"
  using parse_v6_loop_length [of _ "[]"] by (force simp: parse_v6_def split: if_splits option.splits)

lemma parse_addr_length: "parse_addr s = Some a \<Longrightarrow> length a = 4 \<or> length a = 16"
  by (auto simp: parse_addr_def split: option.splits if_splits dest: parse_v4_length parse_v6_length)

lemma length_shortest: "length ip = 4 \<or> length ip = 16 \<Longrightarrow> length (shortest ip) = 4 \<or> length (shortest ip) = 16"
  by (auto simp: shortest_def To4_def split: option.split)

subsection \<open>Networks as prefixes\<close>

definition byte_bits :: "8 word \<Rightarrow> bool list" where
  "byte_bits b = map (bit b) [7, 6, 5, 4, 3, 2, 1, 0]"

definition ip_bits :: "ip_bytes \<Rightarrow> bool list" where
  "ip_bits ip = concat (map byte_bits ip)"

lemma ip_bits_simps [simp]: "ip_bits [] = []" "ip_bits (b # ip) = byte_bits b @ ip_bits ip"
  by (simp_all add: ip_bits_def)

lemma length_byte_bits [simp]: "length (byte_bits b) = 8"
  by (simp add: byte_bits_def)

lemma length_ip_bits [simp]: "length (ip_bits ip) = 8 * length ip"
  by (induction ip) simp_all

lemma bit_top_bits: "bit (top_bits k) i \<longleftrightarrow> i < 8 \<and> 8 - k \<le> i"
proof -
  have "bit (0xFF :: 8 word) j \<longleftrightarrow> j < 8" for j
    using bit_mask_iff [of 8 j, where 'a = "8 word"] by (simp add: mask_numeral possible_bit_def)
  then have "bit (top_bits k) i \<longleftrightarrow> i < 8 \<and> \<not> k + i < 8" by (simp add: top_bits_def bit_not_iff bit_drop_bit_eq possible_bit_def)
  then show ?thesis by auto
qed

lemma masked_eq_iff: "x AND m = y AND m \<longleftrightarrow> (\<forall>i<8. bit m i \<longrightarrow> bit x i = bit y i)" for x y m :: "8 word"
proof
  assume "x AND m = y AND m"
  then have "bit (x AND m) i = bit (y AND m) i" for i by simp
  then show "\<forall>i<8. bit m i \<longrightarrow> bit x i = bit y i" by (auto simp only: bit_and_iff)
next
  assume "\<forall>i<8. bit m i \<longrightarrow> bit x i = bit y i"
  then show "x AND m = y AND m" by (intro bit_word_eqI) (auto simp only: bit_and_iff len_num1 len_bit0 len_of_numeral_defs)
qed

lemma all_less_8: "(\<forall>i<8. P i) \<longleftrightarrow> P 0 \<and> P 1 \<and> P 2 \<and> P 3 \<and> P 4 \<and> P 5 \<and> P 6 \<and> P (7 :: nat)"
  by (simp add: eval_nat_numeral All_less_Suc conj_ac)

lemma top_bits_prefix: "x AND top_bits k = y AND top_bits k \<longleftrightarrow> take k (byte_bits x) = take k (byte_bits y)"
proof -
  have "k = 0 \<or> k = 1 \<or> k = 2 \<or> k = 3 \<or> k = 4 \<or> k = 5 \<or> k = 6 \<or> k = 7 \<or> 8 \<le> k" by arith
  then show ?thesis
    by (elim disjE) (auto simp: masked_eq_iff bit_top_bits all_less_8 byte_bits_def)
qed

lemma cidr_mask_Suc: "cidr_mask n (Suc k) = top_bits n # cidr_mask (n - 8) k"
  by (simp add: cidr_mask_def upt_conv_Cons map_Suc_upt [symmetric] o_def del: upt_Suc)

lemma length_cidr_mask [simp]: "length (cidr_mask n k) = k"
  by (simp add: cidr_mask_def)

lemma cidr_prefix:
  "length a = length b \<Longrightarrow>
   map2 (AND) a (cidr_mask n (length a)) = map2 (AND) b (cidr_mask n (length a)) \<longleftrightarrow> take n (ip_bits a) = take n (ip_bits b)"
proof (induction a b arbitrary: n rule: list_induct2)
  case (Cons x a y b)
  then show ?case
    using top_bits_prefix [of x n y] by (auto simp: cidr_mask_Suc)
qed simp

lemma mask_mask: "map2 (AND) (map2 (AND) a m) m = map2 (AND) a (m :: ip_bytes)"
  by (induction a arbitrary: m) (auto simp: and.assoc split: list.split, case_tac m, auto simp: and.assoc)

lemma ip_bits_inj: "length a = length b \<Longrightarrow> ip_bits a = ip_bits b \<longleftrightarrow> a = b"
proof (induction a b rule: list_induct2)
  case (Cons x a y b)
  have "byte_bits x = byte_bits y \<longleftrightarrow> x = y"
    using masked_eq_iff [of x "-1" y] by (auto simp: byte_bits_def all_less_8 bit_eq_iff [of x y] possible_bit_def)
  with Cons show ?case by auto
qed simp

lemma bit_255: "bit (0xFF :: 8 word) j \<longleftrightarrow> j < 8"
  using bit_mask_iff [of 8 j, where 'a = "8 word"] by (simp add: mask_numeral possible_bit_def)

lemma top_bits_all: "8 \<le> k \<Longrightarrow> top_bits k = 0xFF"
proof (rule bit_word_eqI)
  fix n assume "8 \<le> k" "n < LENGTH(8)"
  then have "bit (top_bits k) n" "bit (0xFF :: 8 word) n" unfolding bit_top_bits bit_255 by simp_all
  then show "bit (top_bits k) n = bit (0xFF :: 8 word) n" by blast
qed

lemma and_eq_255: "x AND top_bits k = 0xFF \<Longrightarrow> 8 \<le> k"
proof -
  assume "x AND top_bits k = 0xFF"
  moreover have "bit (0xFF :: 8 word) 0" unfolding bit_255 by simp
  ultimately have "bit (x AND top_bits k) 0" by metis
  then show ?thesis by (simp only: bit_and_iff bit_top_bits) simp
qed

lemma and_255: "x AND 0xFF = (x :: 8 word)"
proof (rule bit_word_eqI)
  fix n assume "n < LENGTH(8)"
  then have "bit (0xFF :: 8 word) n" unfolding bit_255 by simp
  then show "bit (x AND 0xFF) n = bit x n" unfolding bit_and_iff by blast
qed

lemma nth_masked: "i < length a \<Longrightarrow> map2 (AND) a (cidr_mask n (length a)) ! i = a ! i AND top_bits (n - 8 * i)"
  by (simp add: cidr_mask_def)

lemma To4_masked:
  assumes "length a = 16" "To4 a = None"
  shows "To4 (map2 (AND) a (cidr_mask n 16)) = None"
proof (rule ccontr)
  let ?b = "map2 (AND) a (cidr_mask n 16)"
  assume "To4 ?b \<noteq> None"
  then have pre: "take 12 ?b = v4InV6Prefix" using assms(1) by (auto simp: To4_def split: if_splits)
  have "?b ! 11 = take 12 ?b ! 11" by (rule nth_take [symmetric]) simp
  also have "\<dots> = v4InV6Prefix ! 11" by (simp only: pre)
  finally have "?b ! 11 = v4InV6Prefix ! 11" .
  moreover have "v4InV6Prefix ! 11 = 0xFF" by (simp add: v4InV6Prefix_def nth_append)
  ultimately have "a ! 11 AND top_bits (n - 88) = 0xFF"
    using nth_masked [of 11 a n] assms(1) by simp
  then have n: "96 \<le> n" using and_eq_255 by fastforce
  have "take 12 ?b = take 12 a"
  proof (rule nth_equalityI)
    fix i assume "i < length (take 12 ?b)"
    then have i: "i < 12" "i < length a" using assms(1) by simp_all
    moreover have "top_bits (n - 8 * i) = 0xFF" using n i by (intro top_bits_all) simp
    ultimately show "take 12 ?b ! i = take 12 a ! i" using nth_masked [of i a n] assms(1) by (simp add: and_255)
  qed (use assms in simp)
  with pre assms show False by (simp add: To4_def)
qed

text \<open>A network contains an address exactly when both are of one family and the leading bits agree.\<close>

lemma Contains_prefix:
  assumes "ParseCIDR s = Some net" "str_cut s CHR ''/'' = (addr, len, True)" "parse_addr addr = Some a"
    "length a = 4 \<or> To4 a = None"
  shows "Contains net ip \<longleftrightarrow>
    length (shortest ip) = length a \<and> take (dec_value len) (ip_bits (shortest ip)) = take (dec_value len) (ip_bits a)"
proof -
  let ?m = "cidr_mask (dec_value len) (length a)"
  have net: "net = \<lparr>net_IP = map2 (AND) a ?m, net_Mask = ?m\<rparr>"
    using assms(1-3) by (auto simp: ParseCIDR_def Let_def split: if_splits)
  have len: "length a = 4 \<or> length a = 16" using assms(3) by (rule parse_addr_length)
  have "shortest (map2 (AND) a ?m) = map2 (AND) a ?m"
    using len assms(4) To4_masked [of a "dec_value len"] by (auto simp: shortest_def To4_def)
  then have "net_number_mask net = (map2 (AND) a ?m, ?m)" using len by (auto simp: net_number_mask_def net Let_def)
  then show ?thesis
    using cidr_prefix [of a "shortest ip" "dec_value len"] by (auto simp: Contains_def mask_mask Let_def)
qed

lemma Contains_nil: "ParseCIDR s = Some net \<Longrightarrow> \<not> Contains net []"
proof -
  assume a: "ParseCIDR s = Some net"
  then obtain a m where net: "net = \<lparr>net_IP = map2 (AND) a m, net_Mask = m\<rparr>" "length m = length a" "length a = 4 \<or> length a = 16"
    by (auto simp: ParseCIDR_def Let_def split: if_splits option.splits prod.splits dest: parse_addr_length)
  have "length (shortest (map2 (AND) a m)) = 4 \<or> length (shortest (map2 (AND) a m)) = 16 \<and> length m = 16"
    using net(2,3) by (auto simp: shortest_def To4_def split: option.split)
  moreover have "shortest [] = []" by (simp add: shortest_def To4_def)
  ultimately show ?thesis using net(2,3) by (auto simp: Contains_def net_number_mask_def net(1) Let_def)
qed

end
