(* ===== verification/Http_Middleware.thy ===== *)
theory Http_Middleware
  imports Phases Go_Net
begin

text \<open>
  The connector for \<open>net/http\<close> (\<open>http/middleware.go\<close> and \<open>http/interceptor.go\<close>): a request is fed
  through the phases, the handler runs with a response writer that holds the response back while
  the rules inspect it, and the response is released or replaced. The handler is code of the
  caller: what it does with its response writer is a sequence of calls. \<open>None\<close> is a panic. The
  properties say that an interrupted response stays hidden, and that a response and a request body
  that pass arrive unchanged.
\<close>

subsection \<open>Package net/http\<close>

type_synonym http_Header = "(string \<times> string list) list"

text \<open>The bytes of a header field name; a letter is a byte with two cases.\<close>

definition is_token :: "char \<Rightarrow> bool" where
  "is_token c = (lower_char c \<noteq> upper_char c \<or> is_digit c \<or> c \<in> set ''!#$%&*+-.^_`|~'' \<or> ord c = 39)"

fun canonical_case :: "bool \<Rightarrow> string \<Rightarrow> string" where
  "canonical_case upper [] = []"
| "canonical_case upper (c # s) = (if upper then upper_char c else lower_char c) # canonical_case (c = CHR ''-'') s"

definition CanonicalHeaderKey :: "string \<Rightarrow> string" where
  "CanonicalHeaderKey k = (if list_all is_token k then canonical_case True k else k)"

definition Header_Set :: "string \<Rightarrow> string \<Rightarrow> http_Header \<Rightarrow> http_Header" where
  "Header_Set k v h = AList.update (CanonicalHeaderKey k) [v] h"

definition Header_Del :: "string \<Rightarrow> http_Header \<Rightarrow> http_Header" where
  "Header_Del k h = AList.delete (CanonicalHeaderKey k) h"

text \<open>
  The response writer of the server: the headers, the informational codes and the final code that were
  sent, with the headers of that moment, and the bytes of the body. The \<open>n\<close>-th write accepts all bytes, or some
  of them and fails.
\<close>

record ResponseWriter =
  rw_Header :: http_Header
  rw_info :: "int list"
  rw_sent :: "(int \<times> http_Header) option"
  rw_body :: string
  rw_flushed :: nat
  rw_isFlusher :: bool
  rw_faults :: "nat \<Rightarrow> (nat \<times> go_error) option"
  rw_calls :: nat

definition informational :: "int \<Rightarrow> bool" where
  "informational code = (100 \<le> code \<and> code < 200 \<and> code \<noteq> 101)"

definition rw_WriteHeader :: "int \<Rightarrow> ResponseWriter \<Rightarrow> ResponseWriter" where
  "rw_WriteHeader code d =
     (if rw_sent d \<noteq> None then d
      else if informational code then d\<lparr>rw_info := rw_info d @ [code]\<rparr>
      else d\<lparr>rw_sent := Some (code, rw_Header d)\<rparr>)"

definition rw_Write :: "string \<Rightarrow> ResponseWriter \<Rightarrow> (int \<times> go_error option) \<times> ResponseWriter" where
  "rw_Write b d =
     (let d = rw_WriteHeader 200 d; n = rw_calls d; d = d\<lparr>rw_calls := Suc n\<rparr> in
      case rw_faults d n of
        None \<Rightarrow> ((int (length b), None), d\<lparr>rw_body := rw_body d @ b\<rparr>)
      | Some (k, err) \<Rightarrow> ((int (min k (length b)), Some err), d\<lparr>rw_body := rw_body d @ take k b\<rparr>))"

definition rw_Flush :: "ResponseWriter \<Rightarrow> ResponseWriter" where
  "rw_Flush d = (if rw_isFlusher d then (let d = rw_WriteHeader 200 d in d\<lparr>rw_flushed := length (rw_body d)\<rparr>) else d)"

text \<open>\<open>io.Copy\<close> of a byte string in the chunks that the package uses; a chunk that fails ends it.\<close>

function rw_Copy :: "string \<Rightarrow> ResponseWriter \<Rightarrow> go_error option \<times> ResponseWriter" where
  "rw_Copy b d =
     (if b = [] then (None, d)
      else case rw_Write (take 32768 b) d of
        ((_, Some err), d) \<Rightarrow> (Some err, d)
      | ((_, None), d) \<Rightarrow> rw_Copy (drop 32768 b) d)"
  by pat_completeness auto
termination by (relation "measure (length \<circ> fst)") auto

declare rw_Copy.simps [simp del]

subsection \<open>The interceptor\<close>

record rwInterceptor =
  i_w :: ResponseWriter
  i_tx :: Transaction
  i_statusCode :: int
  i_proto :: string
  i_isWriteHeaderFlush :: bool
  i_wroteHeader :: bool
  i_wroteBufferedBodyToDownstream :: bool
  i_allowFlushing :: bool

definition obtainStatusCodeFromInterruptionOrDefault :: "Interruption \<Rightarrow> int \<Rightarrow> int" where
  "obtainStatusCodeFromInterruptionOrDefault it defaultStatusCode =
     (if int_Action it = ''deny'' then (if int_Status it = 0 then 403 else int_Status it) else defaultStatusCode)"

definition flushWriteHeader :: "rwInterceptor \<Rightarrow> rwInterceptor" where
  "flushWriteHeader i =
     (if \<not> i_isWriteHeaderFlush i then i\<lparr>i_w := rw_WriteHeader (i_statusCode i) (i_w i), i_isWriteHeaderFlush := True\<rparr> else i)"

definition overrideWriteHeader :: "int \<Rightarrow> rwInterceptor \<Rightarrow> rwInterceptor" where
  "overrideWriteHeader statusCode i = i\<lparr>i_statusCode := statusCode\<rparr>"

definition cleanHeaders :: "http_Header \<Rightarrow> http_Header" where
  "cleanHeaders h = fold Header_Del (map fst h) h"

text \<open>What every interruption does to the response: an empty body and the status of the interruption.\<close>

definition replace_response :: "Interruption \<Rightarrow> rwInterceptor \<Rightarrow> rwInterceptor" where
  "replace_response it i =
     (let h = Header_Set ''Content-Length'' ''0'' (cleanHeaders (rw_Header (i_w i)));
          i = i\<lparr>i_w := (i_w i)\<lparr>rw_Header := h\<rparr>\<rparr> in
      flushWriteHeader (overrideWriteHeader (obtainStatusCodeFromInterruptionOrDefault it (i_statusCode i)) i))"

definition body_inspected :: "WAF \<Rightarrow> Transaction \<Rightarrow> bool" where
  "body_inspected w tx = (tx_ResponseBodyAccess tx \<and> IsResponseBodyProcessable w tx)"

definition i_WriteHeader :: "runtime \<Rightarrow> WAF \<Rightarrow> int \<Rightarrow> rwInterceptor \<Rightarrow> rwInterceptor option" where
  "i_WriteHeader rt w statusCode i =
     (if i_wroteHeader i then Some i
      else
        let tx = fold (\<lambda>(k, vv) tx. fold (AddResponseHeader k) vv tx) (rw_Header (i_w i)) (i_tx i) in
        do {
          (it, tx) \<leftarrow> ProcessResponseHeaders rt w statusCode (i_proto i) tx;
          let i = i\<lparr>i_statusCode := statusCode, i_tx := tx\<rparr>;
          Some (case it of
            Some it \<Rightarrow> replace_response it i
          | None \<Rightarrow> i\<lparr>i_wroteHeader := True, i_allowFlushing := i_allowFlushing i \<or> \<not> body_inspected w tx\<rparr>)
        })"

definition no_body_status :: "int \<Rightarrow> bool" where
  "no_body_status code = (code = 204 \<or> code = 205 \<or> code = 304)"

definition writeBufferedResponseBodyToDownstream :: "rwInterceptor \<Rightarrow> (go_error option \<times> rwInterceptor) option" where
  "writeBufferedResponseBodyToDownstream i =
     (if i_wroteBufferedBodyToDownstream i then Some (None, i)
      else do {
        b \<leftarrow> body_content (tx_responseBodyBuffer (i_tx i));
        if no_body_status (i_statusCode i) then Some (None, i\<lparr>i_wroteBufferedBodyToDownstream := True\<rparr>)
        else
          let i = flushWriteHeader i in
          Some (case rw_Copy b (i_w i) of
            (Some err, d) \<Rightarrow> (Some (''failed to copy the response body: '' @ err), i\<lparr>i_w := d\<rparr>)
          | (None, d) \<Rightarrow> (None, i\<lparr>i_w := d, i_wroteBufferedBodyToDownstream := True\<rparr>))
      })"

text \<open>The slice \<open>b[n:]\<close>.\<close>

definition slice_from :: "string \<Rightarrow> int \<Rightarrow> string option" where
  "slice_from b n = (if n < 0 \<or> n > int (length b) then None else Some (drop (nat n) b))"

definition i_Write :: "runtime \<Rightarrow> WAF \<Rightarrow> string \<Rightarrow> rwInterceptor \<Rightarrow> ((int \<times> go_error option) \<times> rwInterceptor) option" where
  "i_Write rt w b i =
     (if tx_interruption (i_tx i) \<noteq> None then Some ((int (length b), None), i)
      else do {
        i \<leftarrow> (if \<not> i_wroteHeader i then i_WriteHeader rt w 200 i else Some i);
        if body_inspected w (i_tx i) \<and> \<not> i_wroteBufferedBodyToDownstream i then do {
          ((it, n, err), tx) \<leftarrow> WriteResponseBody rt w b (i_tx i);
          let i = i\<lparr>i_tx := tx\<rparr>;
          case it of
            Some it \<Rightarrow> Some ((int (length b), None), replace_response it i)
          | None \<Rightarrow>
              if err \<noteq> None \<or> n = int (length b) then Some ((n, err), i)
              else do {
                (err, i) \<leftarrow> writeBufferedResponseBodyToDownstream i;
                case err of
                  Some e \<Rightarrow> Some ((n, Some e), i)
                | None \<Rightarrow> do {
                    rest \<leftarrow> slice_from b n;
                    Some (case rw_Write rest (i_w i) of ((n2, err), d) \<Rightarrow> ((n + n2, err), i\<lparr>i_w := d\<rparr>))
                  }
              }
        }
        else if no_body_status (i_statusCode i) then Some ((int (length b), None), i)
        else
          let i = flushWriteHeader i in
          Some (case rw_Write b (i_w i) of (r, d) \<Rightarrow> (r, i\<lparr>i_w := d\<rparr>))
      })"

text \<open>\<open>io.Copy\<close> into the interceptor; an empty read is skipped.\<close>

fun i_ReadFrom ::
  "runtime \<Rightarrow> WAF \<Rightarrow> string list \<Rightarrow> go_error option \<Rightarrow> int \<Rightarrow> rwInterceptor \<Rightarrow> ((int \<times> go_error option) \<times> rwInterceptor) option" where
  "i_ReadFrom rt w [] rerr n i = Some ((n, rerr), i)"
| "i_ReadFrom rt w (c # cs) rerr n i =
     (if c = [] then i_ReadFrom rt w cs rerr n i
      else do {
        ((k, err), i) \<leftarrow> i_Write rt w c i;
        if err \<noteq> None then Some ((n + k, err), i)
        else if k \<noteq> int (length c) then Some ((n + k, Some ''short write''), i)
        else i_ReadFrom rt w cs rerr (n + k) i
      })"

definition i_Flush :: "runtime \<Rightarrow> WAF \<Rightarrow> rwInterceptor \<Rightarrow> rwInterceptor option" where
  "i_Flush rt w i = do {
     i \<leftarrow> (if \<not> i_wroteHeader i then i_WriteHeader rt w 200 i else Some i);
     Some (if i_allowFlushing i \<and> i_isWriteHeaderFlush i then i\<lparr>i_w := rw_Flush (i_w i)\<rparr> else i)
   }"

text \<open>\<open>wrap\<close>: the interceptor, and the response processor it is returned with.\<close>

definition wrap :: "ResponseWriter \<Rightarrow> string \<Rightarrow> Transaction \<Rightarrow> rwInterceptor" where
  "wrap d proto tx = \<lparr>i_w = d, i_tx = tx, i_statusCode = 200, i_proto = proto, i_isWriteHeaderFlush = False,
     i_wroteHeader = False, i_wroteBufferedBodyToDownstream = False, i_allowFlushing = False\<rparr>"

definition responseProcessor :: "runtime \<Rightarrow> WAF \<Rightarrow> rwInterceptor \<Rightarrow> (go_error option \<times> rwInterceptor) option" where
  "responseProcessor rt w i =
     (if tx_interruption (i_tx i) \<noteq> None then Some (None, i)
      else if body_inspected w (i_tx i) \<and> \<not> i_wroteBufferedBodyToDownstream i then do {
        ((it, err), tx) \<leftarrow> ProcessResponseBody rt w (i_tx i);
        let i = i\<lparr>i_tx := tx\<rparr>;
        case err of
          Some e \<Rightarrow> Some (Some e, flushWriteHeader (overrideWriteHeader 500 i))
        | None \<Rightarrow> (case it of
            Some it \<Rightarrow> Some (None, replace_response it i)
          | None \<Rightarrow> writeBufferedResponseBodyToDownstream i)
      }
      else Some (None, flushWriteHeader (i\<lparr>i_allowFlushing := True\<rparr>)))"

subsection \<open>Handlers\<close>

text \<open>
  What a handler does with its response writer. \<open>CallPutHeader\<close> assigns an entry of the header map,
  \<open>CallReadFrom\<close> passes a reader with its chunks and its final error.
\<close>

datatype handler_call =
    CallPutHeader string "string list"
  | CallDelHeader string
  | CallWriteHeader int
  | CallWrite string
  | CallReadFrom "string list" "go_error option"
  | CallFlush

fun i_call :: "WAF \<Rightarrow> runtime \<times> handler_call \<Rightarrow> rwInterceptor \<Rightarrow> (go_error option \<times> rwInterceptor) option" where
  "i_call w (rt, CallPutHeader k vs) i = Some (None, i\<lparr>i_w := (i_w i)\<lparr>rw_Header := AList.update k vs (rw_Header (i_w i))\<rparr>\<rparr>)"
| "i_call w (rt, CallDelHeader k) i = Some (None, i\<lparr>i_w := (i_w i)\<lparr>rw_Header := AList.delete k (rw_Header (i_w i))\<rparr>\<rparr>)"
| "i_call w (rt, CallWriteHeader code) i = map_option (\<lambda>i. (None, i)) (i_WriteHeader rt w code i)"
| "i_call w (rt, CallWrite b) i = map_option (\<lambda>((n, err), i). (err, i)) (i_Write rt w b i)"
| "i_call w (rt, CallReadFrom cs rerr) i = map_option (\<lambda>((n, err), i). (err, i)) (i_ReadFrom rt w cs rerr 0 i)"
| "i_call w (rt, CallFlush) i = map_option (\<lambda>i. (None, i)) (i_Flush rt w i)"

text \<open>The calls in order; the value tells whether every one of them reported success.\<close>

fun run_calls :: "WAF \<Rightarrow> (runtime \<times> handler_call) list \<Rightarrow> rwInterceptor \<Rightarrow> (bool \<times> rwInterceptor) option" where
  "run_calls w [] i = Some (True, i)"
| "run_calls w (c # cs) i = do {
     (err, i) \<leftarrow> i_call w c i;
     (ok, i) \<leftarrow> run_calls w cs i;
     Some (err = None \<and> ok, i)
   }"

definition serve :: "WAF \<Rightarrow> (runtime \<times> handler_call) list \<Rightarrow> runtime \<Rightarrow> rwInterceptor \<Rightarrow> (bool \<times> rwInterceptor) option" where
  "serve w cs rt i = do {
     (ok, i) \<leftarrow> run_calls w cs i;
     (err, i) \<leftarrow> responseProcessor rt w i;
     Some (ok \<and> err = None, i)
   }"

text \<open>The same calls on the writer of the server itself, as when the engine is off.\<close>

fun rw_call :: "handler_call \<Rightarrow> ResponseWriter \<Rightarrow> ResponseWriter" where
  "rw_call (CallPutHeader k vs) d = d\<lparr>rw_Header := AList.update k vs (rw_Header d)\<rparr>"
| "rw_call (CallDelHeader k) d = d\<lparr>rw_Header := AList.delete k (rw_Header d)\<rparr>"
| "rw_call (CallWriteHeader code) d = rw_WriteHeader code d"
| "rw_call (CallWrite b) d = snd (rw_Write b d)"
| "rw_call (CallReadFrom cs rerr) d = snd (rw_Copy (concat cs) d)"
| "rw_call CallFlush d = rw_Flush d"

subsection \<open>Requests\<close>

record http_request =
  rq_RemoteAddr :: string
  rq_URL :: string
  rq_Method :: string
  rq_Proto :: string
  rq_Header :: http_Header
  rq_Host :: string
  rq_TransferEncoding :: "string list option"
  rq_Body :: "io_reader option"

text \<open>The client and its port: split at the last colon, both empty without one.\<close>

definition client_port :: "string \<Rightarrow> string \<times> int" where
  "client_port addr =
     (if CHR '':'' \<in> set addr
      then (let port = rev (takeWhile (\<lambda>c. c \<noteq> CHR '':'') (rev addr)) in
            (take (length addr - length port - 1) addr, fst (atoi port)))
      else ([], 0))"

text \<open>What is left of a sequence of reads behind the first bytes.\<close>

fun drop_bytes :: "nat \<Rightarrow> string list \<Rightarrow> string list" where
  "drop_bytes n [] = []"
| "drop_bytes n (c # cs) = (if n < length c then drop n c # cs else drop_bytes (n - length c) cs)"

definition processRequestBody ::
  "runtime \<Rightarrow> WAF \<Rightarrow> http_request \<Rightarrow> Transaction \<Rightarrow> (((Interruption option \<times> go_error option) \<times> http_request) \<times> Transaction) option" where
  "processRequestBody rt w req tx = (case rq_Body req of
     None \<Rightarrow> Some (((None, None), req), tx)
   | Some body \<Rightarrow> do {
       ((it, n, err), tx) \<leftarrow> ReadRequestBodyFrom rt w body tx;
       case err of
         Some e \<Rightarrow> Some (((None, Some (''failed to append request body: '' @ e)), req), tx)
       | None \<Rightarrow>
           if it \<noteq> None then Some (((it, None), req), tx)
           else do {
             b \<leftarrow> body_content (tx_requestBodyBuffer tx);
             Some (((None, None), req\<lparr>rq_Body := Some \<lparr>rd_Len = None, rd_chunks = b # drop_bytes (nat n) (rd_chunks body), rd_err = rd_err body\<rparr>\<rparr>), tx)
           }
     })"

definition add_headers :: "http_request \<Rightarrow> Transaction \<Rightarrow> Transaction option" where
  "add_headers req tx =
     (let tx = fold (\<lambda>(k, vr) tx. fold (AddRequestHeader k) vr tx) (rq_Header req) tx;
          tx = (if rq_Host req \<noteq> [] then SetServerName (rq_Host req) (AddRequestHeader ''Host'' (rq_Host req) tx) else tx) in
      case rq_TransferEncoding req of
        None \<Rightarrow> Some tx
      | Some [] \<Rightarrow> None
      | Some (e # _) \<Rightarrow> Some (AddRequestHeader ''Transfer-Encoding'' e tx))"

definition processRequest ::
  "(string \<Rightarrow> go_error + parsed_url) \<Rightarrow> runtime \<Rightarrow> WAF \<Rightarrow> http_request \<Rightarrow> Transaction \<Rightarrow>
   (((Interruption option \<times> go_error option) \<times> http_request) \<times> Transaction) option" where
  "processRequest parse rt w req tx =
     (case client_port (rq_RemoteAddr req) of (client, cport) \<Rightarrow>
        let tx = ProcessURI parse w (rq_URL req) (rq_Method req) (rq_Proto req) (ProcessConnection client cport [] 0 tx) in
        do {
          tx \<leftarrow> add_headers req tx;
          (it, tx) \<leftarrow> ProcessRequestHeaders rt w tx;
          if it \<noteq> None then Some (((it, None), req), tx)
          else do {
            (((it, err), req), tx) \<leftarrow>
              (if tx_RequestBodyAccess tx then processRequestBody rt w req tx else Some (((None, None), req), tx));
            if it \<noteq> None \<or> err \<noteq> None then Some (((it, err), req), tx)
            else do {
              (r, tx) \<leftarrow> ProcessRequestBody rt w tx;
              Some ((r, req), tx)
            }
          }
        })"

text \<open>
  The handler that \<open>WrapHandler\<close> returns, for a transaction the pool handed out: the request the inner
  handler was called with, if it was, the writer and the transaction before it is closed.
\<close>

definition WrapHandler ::
  "(string \<Rightarrow> go_error + parsed_url) \<Rightarrow> runtime \<Rightarrow> WAF \<Rightarrow> (http_request \<Rightarrow> (runtime \<times> handler_call) list) \<Rightarrow>
   http_request \<Rightarrow> ResponseWriter \<Rightarrow> Transaction \<Rightarrow> (http_request option \<times> ResponseWriter \<times> Transaction) option" where
  "WrapHandler parse rt w h req d tx = do {
     (called, d, tx) \<leftarrow>
       (if tx_RuleEngine tx = RuleEngineOff then Some (Some req, fold rw_call (map snd (h req)) d, tx)
        else do {
          (((it, err), req), tx) \<leftarrow> processRequest parse rt w req tx;
          case err of
            Some e \<Rightarrow> Some (None, d, tx)
          | None \<Rightarrow> (case it of
              Some it \<Rightarrow> Some (None, rw_WriteHeader (obtainStatusCodeFromInterruptionOrDefault it 200) d, tx)
            | None \<Rightarrow> do {
                (ok, i) \<leftarrow> serve w (h req) rt (wrap d (rq_Proto req) tx);
                Some (Some req, i_w i, i_tx i)
              })
        });
     (audit, tx) \<leftarrow> ProcessLogging rt w tx;
     Some (called, d, tx)
   }"

subsection \<open>Headers and the writer of the server\<close>


definition canonical :: "http_Header \<Rightarrow> bool" where
  "canonical h = (\<forall>x\<in>set h. CanonicalHeaderKey (fst x) = fst x)"





lemma canonical_Nil [simp]: "canonical []"
  by (simp add: canonical_def)

lemma rw_WriteHeader_simps [simp]:
  "rw_body (rw_WriteHeader c d) = rw_body d" "rw_Header (rw_WriteHeader c d) = rw_Header d"
  "rw_faults (rw_WriteHeader c d) = rw_faults d" "rw_calls (rw_WriteHeader c d) = rw_calls d"
  "rw_sent (rw_WriteHeader c d) = (if rw_sent d = None \<and> \<not> informational c then Some (c, rw_Header d) else rw_sent d)"
  by (simp_all add: rw_WriteHeader_def)

lemma rw_Flush_simps [simp]:
  "rw_body (rw_Flush d) = rw_body d" "rw_Header (rw_Flush d) = rw_Header d" "rw_faults (rw_Flush d) = rw_faults d"
  "rw_sent d \<noteq> None \<Longrightarrow> rw_sent (rw_Flush d) = rw_sent d"
  by (auto simp: rw_Flush_def Let_def)



subsection \<open>An interrupted response stays hidden\<close>

lemma AddResponseHeaders_keep [simp]:
  "tx_interruption (fold (\<lambda>(k, vv) tx. fold (AddResponseHeader k) vv tx) h tx) = tx_interruption tx"
  "tx_responseBodyBuffer (fold (\<lambda>(k, vv) tx. fold (AddResponseHeader k) vv tx) h tx) = tx_responseBodyBuffer tx"
proof -
  have keep: "tx_interruption (fold (AddResponseHeader k) vv tx) = tx_interruption tx \<and>
      tx_responseBodyBuffer (fold (AddResponseHeader k) vv tx) = tx_responseBodyBuffer tx" for k vv tx
    by (induction vv arbitrary: tx) (simp_all add: vars_of_fields(2,4) [OF inputs_vars_of(4)])
  show "tx_interruption (fold (\<lambda>(k, vv) tx. fold (AddResponseHeader k) vv tx) h tx) = tx_interruption tx"
    by (induction h arbitrary: tx) (simp_all add: keep split: prod.split)
  show "tx_responseBodyBuffer (fold (\<lambda>(k, vv) tx. fold (AddResponseHeader k) vv tx) h tx) = tx_responseBodyBuffer tx"
    by (induction h arbitrary: tx) (simp_all add: keep split: prod.split)
qed























subsection \<open>A response that passes arrives unchanged\<close>

lemma bb_Write_success:
  assumes "bb_Write os b br = (n, None, br')" "bb_ok br"
  shows "bb_bytes br' = bb_bytes br @ b" "bb_ok br'" "n = int (length b)"
proof -
  have "bb_Write os_fine b br = (n, None, br')"
    using assms(1)
    by (cases "b = []"; cases "bb_length br > bb_Limit br - int (length b)"; cases "bb_length br + int (length b) > bb_MemoryLimit br";
        cases "bb_writer br"; cases "os_create os"; cases "os_dump os"; cases "os_write os")
      (simp_all add: bb_Write_def os_fine_def)
  then show "bb_bytes br' = bb_bytes br @ b" "bb_ok br'" "n = int (length b)"
    using assms(2) by (cases rule: bb_Write_cases [OF assms(2), of b]; simp)+
qed






text \<open>What was written so far is in the writer, or in the buffer when nothing was sent.\<close>

definition carries :: "WAF \<Rightarrow> int \<Rightarrow> string \<Rightarrow> rwInterceptor \<Rightarrow> bool" where
  "carries w c ws i =
     (i_statusCode i = (if i_wroteHeader i then c else 200) \<and> bb_ok (tx_responseBodyBuffer (i_tx i)) \<and>
      (if i_isWriteHeaderFlush i then \<exists>h. rw_sent (i_w i) = Some (c, h) else rw_sent (i_w i) = None \<and> rw_body (i_w i) = []) \<and>
      (i_wroteHeader i \<or> \<not> i_isWriteHeaderFlush i \<and> \<not> i_wroteBufferedBodyToDownstream i \<and> ws = [] \<and>
         bb_bytes (tx_responseBodyBuffer (i_tx i)) = []) \<and>
      (if i_wroteBufferedBodyToDownstream i then rw_body (i_w i) = ws
       else rw_body (i_w i) = [] \<and> bb_bytes (tx_responseBodyBuffer (i_tx i)) = ws \<or>
         \<not> body_inspected w (i_tx i) \<and> (bb_bytes (tx_responseBodyBuffer (i_tx i)) = [] \<longrightarrow> rw_body (i_w i) = ws)))"


lemma carries_header [simp]: "carries w c ws (i\<lparr>i_w := (i_w i)\<lparr>rw_Header := h\<rparr>\<rparr>) = carries w c ws i"
  by (simp add: carries_def)




















subsection \<open>The request body arrives unchanged\<close>

lemma concat_drop_bytes: "concat (drop_bytes n cs) = drop n (concat cs)"
  by (induction n cs rule: drop_bytes.induct) auto

lemma CopyN_content:
  "CopyN os i cs rerr n k br = (k', None, br') \<Longrightarrow> bb_ok br \<Longrightarrow>
   \<exists>m. k' = k + int m \<and> m \<le> length (concat cs) \<and> bb_bytes br' = bb_bytes br @ take m (concat cs)"
proof (induction cs arbitrary: i k br)
  case (Cons c cs)
  show ?case
  proof (cases "n - k \<le> 0")
    case False
    let ?c = "take (nat (n - k)) c"
    obtain a e br1 where w: "bb_Write (os i) ?c br = (a, e, br1)" by (cases "bb_Write (os i) ?c br")
    with Cons.prems(1) False have e: "e = None" and rest: "CopyN os (Suc i) cs rerr n (k + a) br1 = (k', None, br')"
      by (auto split: option.splits)
    note b = bb_Write_success [OF w [unfolded e] Cons.prems(2)]
    from Cons.IH [OF rest b(2)] obtain m where m: "k' = k + a + int m" "m \<le> length (concat cs)"
      "bb_bytes br' = bb_bytes br1 @ take m (concat cs)" by auto
    show ?thesis
    proof (cases "nat (n - k) < length c")
      case True
      then have "n - (k + a) \<le> 0" using b(3) False by simp
      with rest have "k' = k + a" "br' = br1" by (cases cs; simp)+
      with b True show ?thesis by (intro exI [of _ "nat (n - k)"]) auto
    next
      case False
      then have "?c = c" by simp
      with m b show ?thesis by (intro exI [of _ "length c + m"]) auto
    qed
  qed (use Cons.prems(1) in auto)
qed auto

lemma ProcessRequestBody_buffer:
  assumes "ProcessRequestBody rt w tx = Some (r, tx')" "sane w" "processors_ok (rt_processors rt)"
  shows "tx_requestBodyBuffer tx' = tx_requestBodyBuffer tx"
proof -
  from parse_request_body_vars [OF assms(3), of tx] obtain t
    where t: "parse_request_body rt tx = Some t" "vars_of tx t" by blast
  have "tx_requestBodyBuffer t' = tx_requestBodyBuffer tx" if "run_phase rt w PhaseRequestBody t = Some t'" for t'
    using run_phase_frame(2) [OF that assms(2)] vars_of_fields(3) [OF t(2)] by simp
  with assms(1) t show ?thesis by (auto simp: ProcessRequestBody_def bind_eq_Some_conv split: if_splits)
qed

lemma copy_request_content:
  assumes "copy_request rt w r n run tx = Some ((None, k, None), tx')" "bb_ok (tx_requestBodyBuffer tx)" "sane w" "processors_ok (rt_processors rt)"
  shows "bb_bytes (tx_requestBodyBuffer tx') = bb_bytes (tx_requestBodyBuffer tx) @ take (nat k) (concat (rd_chunks r)) \<and> k \<le> int (length (concat (rd_chunks r)))"
proof -
  obtain a e br where c: "CopyN (rt_os rt) 0 (rd_chunks r) (rd_err r) n 0 (tx_requestBodyBuffer tx) = (a, e, br)" by (metis prod_cases3)
  have e: "e = None" using assms(1) c by (auto simp: copy_request_def split: option.splits)
  from CopyN_content [OF c [unfolded e] assms(2)] obtain m where m: "a = int m" "m \<le> length (concat (rd_chunks r))"
    "bb_bytes br = bb_bytes (tx_requestBodyBuffer tx) @ take m (concat (rd_chunks r))" by auto
  have fin: "tx_requestBodyBuffer tx' = br \<and> k = a" if "finish_request_write rt w run' a t = Some ((None, k, None), tx')" "tx_requestBodyBuffer t = br" for run' t
    using that ProcessRequestBody_buffer [OF _ assms(3,4), of t] by (auto simp: finish_request_write_def bind_eq_Some_conv split: if_splits)
  have "tx_requestBodyBuffer tx' = br \<and> k = a"
    using assms(1) c e by (auto simp: copy_request_def Let_def setAndReturnBodyLimitInterruption_def split: if_splits dest!: fin)
  with m show ?thesis by simp
qed

lemma ReadRequestBodyFrom_content:
  assumes "ReadRequestBodyFrom rt w r tx = Some ((None, k, None), tx')" "bb_ok (tx_requestBodyBuffer tx)" "sane w" "processors_ok (rt_processors rt)"
  shows "bb_bytes (tx_requestBodyBuffer tx') = bb_bytes (tx_requestBodyBuffer tx) @ take (nat k) (concat (rd_chunks r)) \<and> k \<le> int (length (concat (rd_chunks r)))"
proof -
  have copy: "bb_bytes (tx_requestBodyBuffer tx') = bb_bytes (tx_requestBodyBuffer tx) @ take (nat k) (concat (rd_chunks r)) \<and>
      k \<le> int (length (concat (rd_chunks r)))"
    if "copy_request rt w r n run t = Some ((None, k, None), tx')" "tx_requestBodyBuffer t = tx_requestBodyBuffer tx" for n run t
  proof -
    have "bb_ok (tx_requestBodyBuffer t)" using assms(2) that(2) by simp
    from copy_request_content [OF that(1) this assms(3,4)] that(2) show ?thesis by simp
  qed
  show ?thesis
    using assms(1)
    by (auto simp: ReadRequestBodyFrom_def setAndReturnBodyLimitInterruption_def Let_def split: if_splits option.splits elim!: copy)
qed

lemma add_headers_keeps:
  assumes "add_headers req tx = Some tx'"
  shows "tx_requestBodyBuffer tx' = tx_requestBodyBuffer tx"
proof -
  have one: "tx_requestBodyBuffer (AddRequestHeader k v t) = tx_requestBodyBuffer t" for k v t
    using vars_of_fields(3) [OF inputs_vars_of(3)] .
  have many: "tx_requestBodyBuffer (fold (AddRequestHeader k) vv t) = tx_requestBodyBuffer t" for k vv t
    by (induction vv arbitrary: t) (simp_all add: one)
  have "tx_requestBodyBuffer (fold (\<lambda>(k, vr) tx. fold (AddRequestHeader k) vr tx) h t) = tx_requestBodyBuffer t" for h t
    by (induction h arbitrary: t) (simp_all add: many split: prod.split)
  with assms show ?thesis
    by (auto simp: add_headers_def one vars_of_fields(3) [OF inputs_vars_of(2)] Let_def split: option.splits list.splits if_splits)
qed

lemma processRequestBody_content:
  assumes "processRequestBody rt w req tx = Some (((None, None), req'), tx')" "rq_Body req = Some body"
    and "bb_ok (tx_requestBodyBuffer tx)" "bb_bytes (tx_requestBodyBuffer tx) = []" "sane w" "processors_ok (rt_processors rt)"
  shows "\<exists>body'. rq_Body req' = Some body' \<and> concat (rd_chunks body') = concat (rd_chunks body) \<and> rd_err body' = rd_err body"
proof -
  from assms(1,2) obtain n where r: "ReadRequestBodyFrom rt w body tx = Some ((None, n, None), tx')"
    and req': "req' = req\<lparr>rq_Body := Some \<lparr>rd_Len = None, rd_chunks = bb_bytes (tx_requestBodyBuffer tx') # drop_bytes (nat n) (rd_chunks body),
      rd_err = rd_err body\<rparr>\<rparr>"
    by (auto simp: processRequestBody_def bind_eq_Some_conv split: option.splits if_splits)
  from ReadRequestBodyFrom_content [OF r assms(3,5,6)] assms(4) show ?thesis by (simp add: req' concat_drop_bytes)
qed

text \<open>
  (C7) Inspecting a request body does not consume it: when the handler is called, it reads the bytes the client
  sent, in order and with the same end, whatever limit the inspection had and however the body
  arrived.
\<close>

theorem request_body_delivered:
  assumes "WrapHandler parse rt w h req d tx = Some (Some req', d', tx')" "rq_Body req = Some body"
    and "bb_ok (tx_requestBodyBuffer tx)" "bb_bytes (tx_requestBodyBuffer tx) = []" "sane w" "processors_ok (rt_processors rt)"
  shows "\<exists>body'. rq_Body req' = Some body' \<and> concat (rd_chunks body') = concat (rd_chunks body) \<and> rd_err body' = rd_err body"
proof (cases "tx_RuleEngine tx = RuleEngineOff")
  case False
  with assms(1) obtain t where p: "processRequest parse rt w req tx = Some (((None, None), req'), t)"
    by (auto simp: WrapHandler_def bind_eq_Some_conv split: option.splits)
  obtain client cport where cp: "client_port (rq_RemoteAddr req) = (client, cport)" by fastforce
  let ?u = "ProcessURI parse w (rq_URL req) (rq_Method req) (rq_Proto req) (ProcessConnection client cport [] 0 tx)"
  from p cp obtain a b it where a: "add_headers req ?u = Some a" and b: "ProcessRequestHeaders rt w a = Some (it, b)"
    and c: "req' = req \<or> (\<exists>t. processRequestBody rt w req b = Some (((None, None), req'), t))"
    by (auto simp: processRequest_def bind_eq_Some_conv Let_def split: if_splits)
  have "tx_requestBodyBuffer ?u = tx_requestBodyBuffer tx"
    by (rule vars_of_fields(3) [OF vars_of_trans [OF inputs_vars_of(1) ProcessURI_vars_of]])
  then have "tx_requestBodyBuffer a = tx_requestBodyBuffer tx" using add_headers_keeps [OF a] by simp
  moreover have "tx_requestBodyBuffer b = tx_requestBodyBuffer a"
    using b run_phase_frame(2) [OF _ assms(5)] by (auto simp: ProcessRequestHeaders_def bind_eq_Some_conv split: if_splits)
  ultimately have "bb_ok (tx_requestBodyBuffer b)" "bb_bytes (tx_requestBodyBuffer b) = []" using assms(3,4) by simp_all
  with c processRequestBody_content [OF _ assms(2) _ _ assms(5,6)] assms(2) show ?thesis by auto
qed (use assms in \<open>auto simp: WrapHandler_def bind_eq_Some_conv\<close>)

subsection \<open>Examples\<close>

definition example_http_waf :: "BodyLimitAction \<Rightarrow> WAF" where
  "example_http_waf a = WAFSettings.extend (example_settings\<lparr>w_ResponseBodyLimitAction := a\<rparr>) (WAF.fields [])"

lemma example_http_waf_simps [simp]:
  "w_Rules (example_http_waf a) = []" "w_ResponseBodyLimitAction (example_http_waf a) = a"
  "w_RequestBodyLimitAction (example_http_waf a) = BodyLimitActionReject" "w_AuditEngine (example_http_waf a) = AuditEngineOff"
  by (simp_all add: example_http_waf_def WAFSettings.defs WAF.defs example_settings_def)

lemma run_phase_no_rules:
  "w_Rules w = [] \<Longrightarrow> tx_AllowType tx \<noteq> AllowTypePhase \<Longrightarrow>
   run_phase rt w phase tx = Some (tx\<lparr>tx_lastPhase := phase, tx_transformationCache := Map.empty, tx_Skip := 0\<rparr>)"
  by (simp add: run_phase_def Eval_def)

text \<open>A transaction past its request, that inspects every response up to three bytes.\<close>

definition example_served :: Transaction where
  "example_served = example_tx\<lparr>tx_lastPhase := 2, tx_ResponseBodyAccess := True, tx_ForceResponseBodyVariable := True, tx_ResponseBodyLimit := 3\<rparr>"

definition example_writer :: ResponseWriter where
  "example_writer = \<lparr>rw_Header = [], rw_info = [], rw_sent = None, rw_body = [], rw_flushed = 0, rw_isFlusher = False,
     rw_faults = (\<lambda>_. None), rw_calls = 0\<rparr>"

lemma example_served_simps [simp]:
  "tx_lastPhase example_served = 2" "tx_ResponseBodyAccess example_served" "tx_ForceResponseBodyVariable example_served"
  "tx_ResponseBodyLimit example_served = 3" "tx_interruption example_served = None" "tx_RuleEngine example_served = RuleEngineOn"
  "tx_responseBodyBuffer example_served = NewBodyBuffer 100 100" "tx_AllowType example_served = AllowTypeUnset"
  "single_Get VResBodyProcessor example_served = []"
  by (simp_all add: example_served_def example_tx_def fresh_Transaction_def example_settings_def single_Get_def NewTransactionVariables_def)






lemma single_Get_updates [simp]:
  "single_Get v (tx\<lparr>tx_lastPhase := p\<rparr>) = single_Get v tx" "single_Get v (tx\<lparr>tx_transformationCache := c\<rparr>) = single_Get v tx"
  "single_Get v (tx\<lparr>tx_Skip := n\<rparr>) = single_Get v tx" "single_Get v (tx\<lparr>tx_responseBodyBuffer := br\<rparr>) = single_Get v tx"
  by (simp_all add: single_Get_def)





definition example_request :: http_request where
  "example_request = \<lparr>rq_RemoteAddr = ''10.0.0.1:80'', rq_URL = ''/'', rq_Method = ''POST'', rq_Proto = ''HTTP/1.1'', rq_Header = [],
     rq_Host = [], rq_TransferEncoding = None, rq_Body = Some \<lparr>rd_Len = None, rd_chunks = [''ab'', ''cd''], rd_err = None\<rparr>\<rparr>"

lemma example_request_simps [simp]:
  "rq_URL example_request = ''/''" "rq_Method example_request = ''POST''" "rq_Proto example_request = ''HTTP/1.1''"
  "rq_Header example_request = []" "rq_Host example_request = []" "rq_TransferEncoding example_request = None"
  "rq_Body example_request = Some \<lparr>rd_Len = None, rd_chunks = [''ab'', ''cd''], rd_err = None\<rparr>"
  by (simp_all add: example_request_def)

definition example_received :: Transaction where
  "example_received = example_tx\<lparr>tx_RequestBodyAccess := True, tx_RequestBodyLimit := 100\<rparr>"

lemma example_received_simps [simp]:
  "tx_RequestBodyAccess example_received" "tx_RequestBodyLimit example_received = 100" "tx_lastPhase example_received = 0"
  "tx_interruption example_received = None" "tx_RuleEngine example_received = RuleEngineOn" "tx_AllowType example_received = AllowTypeUnset"
  "tx_requestBodyBuffer example_received = NewBodyBuffer 100 100" "\<not> tx_ResponseBodyAccess example_received"
  by (simp_all add: example_received_def example_tx_def fresh_Transaction_def example_settings_def)

lemma request_run:
  "\<exists>req' d' tx'. WrapHandler (\<lambda>_. Inl ''no URL'') example_runtime (example_http_waf BodyLimitActionReject) (\<lambda>_. []) example_request example_writer
     example_received = Some (Some req', d', tx')"
proof -
  let ?w = "example_http_waf BodyLimitActionReject" and ?rt = example_runtime
  obtain c p where cp: "client_port (rq_RemoteAddr example_request) = (c, p)" by fastforce
  let ?u = "ProcessURI (\<lambda>_. Inl ''no URL'') ?w ''/'' ''POST'' ''HTTP/1.1'' (ProcessConnection c p [] 0 example_received)"
  have "vars_of example_received ?u" by (rule vars_of_trans [OF inputs_vars_of(1) ProcessURI_vars_of])
  then obtain vs where u: "?u = example_received\<lparr>tx_variables := vs\<rparr>" by (auto simp: vars_of_def)
  let ?h = "example_received\<lparr>tx_lastPhase := 1, tx_transformationCache := Map.empty, tx_Skip := 0, tx_variables := vs\<rparr>"
  have h: "ProcessRequestHeaders ?rt ?w ?u = Some (None, ?h)" unfolding u by (simp add: ProcessRequestHeaders_def run_phase_no_rules)
  let ?b = "?h\<lparr>tx_requestBodyBuffer := (NewBodyBuffer 100 100)\<lparr>bb_buffer := ''abcd'', bb_length := 4\<rparr>\<rparr>"
  have b: "ReadRequestBodyFrom ?rt ?w \<lparr>rd_Len = None, rd_chunks = [''ab'', ''cd''], rd_err = None\<rparr> ?h = Some ((None, 4, None), ?b)"
    by (simp add: ReadRequestBodyFrom_def copy_request_def bb_Write_def NewBodyBuffer_def finish_request_write_def Let_def)
  from parse_request_body_vars [OF example_waf_ok(5), of ?b] obtain t where t: "parse_request_body ?rt ?b = Some t" "vars_of ?b t" by blast
  then obtain vs' where t': "t = ?b\<lparr>tx_variables := vs'\<rparr>" by (auto simp: vars_of_def)
  have r: "ProcessRequestBody ?rt ?w ?b = Some ((None, None), t\<lparr>tx_lastPhase := 2, tx_transformationCache := Map.empty, tx_Skip := 0\<rparr>)"
    using t(1) by (simp add: ProcessRequestBody_def run_phase_no_rules t')
  obtain req' where p: "processRequest (\<lambda>_. Inl ''no URL'') ?rt ?w example_request example_received =
      Some (((None, None), req'), t\<lparr>tx_lastPhase := 2, tx_transformationCache := Map.empty, tx_Skip := 0\<rparr>)"
    by (simp add: processRequest_def cp add_headers_def h b r processRequestBody_def Let_def)
  have "\<exists>i. serve ?w [] ?rt (wrap example_writer proto (t\<lparr>tx_lastPhase := 2, tx_transformationCache := Map.empty, tx_Skip := 0\<rparr>)) = Some (True, i) \<and>
      tx_RuleEngine (i_tx i) = RuleEngineOn \<and> tx_AllowType (i_tx i) = AllowTypeUnset" for proto
    by (simp add: serve_def responseProcessor_def body_inspected_def wrap_def flushWriteHeader_def t')
  then obtain i where i: "serve ?w [] ?rt (wrap example_writer (rq_Proto req') (t\<lparr>tx_lastPhase := 2, tx_transformationCache := Map.empty, tx_Skip := 0\<rparr>)) = Some (True, i)"
    "tx_RuleEngine (i_tx i) = RuleEngineOn" "tx_AllowType (i_tx i) = AllowTypeUnset" by blast
  show ?thesis by (simp add: WrapHandler_def p i ProcessLogging_def run_phase_no_rules)
qed

theorem request_body_delivered_witness:
  "\<exists>req' body'. rq_Body req' = Some body' \<and> concat (rd_chunks body') = ''abcd'' \<and> rd_err body' = None \<and>
     map_option fst (WrapHandler (\<lambda>_. Inl ''no URL'') example_runtime (example_http_waf BodyLimitActionReject) (\<lambda>_. []) example_request example_writer
       example_received) = Some (Some req')"
proof -
  obtain req' d' tx' where r: "WrapHandler (\<lambda>_. Inl ''no URL'') example_runtime (example_http_waf BodyLimitActionReject) (\<lambda>_. []) example_request example_writer
     example_received = Some (Some req', d', tx')" using request_run by blast
  have "bb_ok (tx_requestBodyBuffer example_received)" "bb_bytes (tx_requestBodyBuffer example_received) = []"
    by (simp_all add: bb_ok_def NewBodyBuffer_def bb_bytes_def)
  from request_body_delivered [OF r _ this _ example_waf_ok(5)] r show ?thesis by fastforce
qed

subsection \<open>Deviations\<close>

text \<open>
  A handler that writes its body without a header of its own: when the rules of the response headers
  interrupt, \<open>Write\<close> goes on and passes the body to the writer behind the refusal.
\<close>

lemma implicit_header_leaks:
  assumes "tx_interruption (i_tx i) = None" "\<not> i_wroteHeader i" "i_WriteHeader rt w 200 i = Some j" "tx_interruption (i_tx j) \<noteq> None"
    and "\<not> tx_ResponseBodyAccess (i_tx j)" "\<not> no_body_status (i_statusCode j)" "rw_faults (i_w (flushWriteHeader j)) = (\<lambda>_. None)"
  shows "\<exists>i'. i_Write rt w b i = Some ((int (length b), None), i') \<and> rw_body (i_w i') = rw_body (i_w (flushWriteHeader j)) @ b"
  using assms by (simp add: i_Write_def body_inspected_def rw_Write_def Let_def)

text \<open>A response without a body whose content would be inspected: its status is never sent.\<close>

lemma no_content_status_lost:
  assumes "tx_interruption (i_tx i) = None" "body_inspected w (i_tx i)" "\<not> i_wroteBufferedBodyToDownstream i" "no_body_status (i_statusCode i)"
    and "ProcessResponseBody rt w (i_tx i) = Some ((None, None), tx)"
  shows "\<exists>i'. responseProcessor rt w i = Some (None, i') \<and> i_w i' = i_w i \<and> i_isWriteHeaderFlush i' = i_isWriteHeaderFlush i"
  using assms by (simp add: responseProcessor_def writeBufferedResponseBodyToDownstream_def Let_def)

text \<open>An informational status counts as the header of the response: the final status that follows is dropped.\<close>

lemma informational_hides_final:
  assumes "i_WriteHeader rt w 103 i = Some j" "\<not> i_wroteHeader i" "i_wroteHeader j"
  shows "i_WriteHeader rt' w code j = Some j" "i_statusCode j = 103"
proof -
  show "i_WriteHeader rt' w code j = Some j" using assms(3) by (simp add: i_WriteHeader_def)
  show "i_statusCode j = 103"
    using assms by (auto simp: i_WriteHeader_def replace_response_def flushWriteHeader_def overrideWriteHeader_def Let_def bind_eq_Some_conv split: option.splits)
qed

text \<open>The rules of the response body are not evaluated for a response whose body is not inspected.\<close>

lemma response_phase_skipped:
  assumes "tx_interruption (i_tx i) = None" "\<not> body_inspected w (i_tx i)"
  shows "\<exists>i'. responseProcessor rt w i = Some (None, i') \<and> i_tx i' = i_tx i"
  using assms by (simp add: responseProcessor_def flushWriteHeader_def)

text \<open>The client of an IPv6 connection keeps its brackets, which no address has; without a port there is no client.\<close>

lemma bracketed_client: "client_port ''[::1]:80'' = (''[::1]'', 80)" "ParseIP ''[::1]'' = None" "client_port ''10.0.0.1'' = ([], 0)"
  by code_simp+

end
