(* ===== verification/Store_Rules.thy ===== *)
theory Store_Rules
  imports Go_Text
begin

text \<open>
  The rules of the application's store (\<open>internal/app/model/types.go\<close>, \<open>internal/app/store/store.go\<close>): the
  built-in rules, the reader of rule files, which joins continued lines and takes the \<open>SecRule\<close>
  directives apart, and the check of rule identifiers.
\<close>

subsection \<open>Rules\<close>

record SRule =
  sr_ID :: int
  sr_Description :: string
  sr_Severity :: string
  sr_Enabled :: bool
  sr_Category :: string
  sr_Source :: string
  sr_ReadOnly :: bool
  sr_Pattern :: string
  sr_TargetField :: string
  sr_Action :: string
  sr_BlockStatus :: int
  sr_Threshold :: int
  sr_TimeWindow :: int
  sr_MatchCount :: "64 word"
  sr_LastMatch :: string

abbreviation bs :: string where "bs \<equiv> [CHR 0x5C]"
abbreviation dq :: string where "dq \<equiv> [CHR 0x22]"
abbreviation sq :: string where "sq \<equiv> [CHR 0x27]"
abbreviation bq :: string where "bq \<equiv> [CHR 0x60]"

text \<open>A literal of \<open>defaultRules\<close>, with the source and the flag that its final loop sets.\<close>

definition default_rule ::
  "int \<Rightarrow> string \<Rightarrow> string \<Rightarrow> string \<Rightarrow> string \<Rightarrow> string \<Rightarrow> string \<Rightarrow> int \<Rightarrow> int \<Rightarrow> int \<Rightarrow> SRule" where
  "default_rule i desc sev cat pat target act status threshold window =
     \<lparr>sr_ID = i, sr_Description = desc, sr_Severity = sev, sr_Enabled = True, sr_Category = cat,
      sr_Source = ''custom'', sr_ReadOnly = True, sr_Pattern = pat, sr_TargetField = target, sr_Action = act,
      sr_BlockStatus = status, sr_Threshold = threshold, sr_TimeWindow = window, sr_MatchCount = 0, sr_LastMatch = []\<rparr>"

definition defaultRules :: "SRule list" where
  "defaultRules = [
      default_rule 900001 (''Test Attack Detection'') (''CRITICAL'') (''Test'')
        (''@rx attack=test'')
        (''QUERY_STRING'') (''deny'') 403 0 0,
      default_rule 910100 (''Invalid HTTP Method'') (''WARNING'') (''Protocol'')
        (''!@rx ^(GET|HEAD|POST|PUT|DELETE|OPTIONS|PATCH)$'')
        (''REQUEST_METHOD'') (''deny'') 405 0 0,
      default_rule 910110 (''Null Byte Injection'') (''CRITICAL'') (''Protocol'')
        (''@rx %00'')
        (''REQUEST_URI'') (''deny'') 403 0 0,
      default_rule 910120 (''HTTP Response Splitting'') (''CRITICAL'') (''Protocol'')
        (''@rx %0[aAdD]'')
        (''REQUEST_URI'') (''deny'') 403 0 0,
      default_rule 913100 (''Security Scanner Detection (sqlmap, nikto, burp)'') (''WARNING'') (''Reputation'')
        (''@rx (?i)(nikto|sqlmap|nmap|masscan|burp|owasp|acunetix)'')
        (''REQUEST_HEADERS:User-Agent'') (''deny'') 403 0 0,
      default_rule 913110 (''Scripted User-Agent Detection'') (''NOTICE'') (''Reputation'')
        (''@rx (?i)(python-requests|python-urllib|perl|ruby|libwww)'')
        (''REQUEST_HEADERS:User-Agent'') (''log'') 0 0 0,
      default_rule 913120 (''Empty User-Agent Header'') (''NOTICE'') (''Reputation'')
        (''@rx ^$'')
        (''REQUEST_HEADERS:User-Agent'') (''log'') 0 0 0,
      default_rule 920100 (''Sensitive File Access (.env, .git, .htaccess)'') (''CRITICAL'') (''Anomaly'')
        (''@rx (?i)'' @ bs @ ''.(htaccess|htpasswd|git|svn|env|DS_Store|config|bak|sql|db|log)$'')
        (''REQUEST_URI'') (''deny'') 403 0 0,
      default_rule 920110 (''Server-Side Script Request'') (''NOTICE'') (''Anomaly'')
        (''@rx (?i)'' @ bs @ ''.(php|asp|aspx|jsp|cgi)$'')
        (''REQUEST_URI'') (''log'') 0 0 0,
      default_rule 920120 (''Backup File Access (.bak, .swp)'') (''WARNING'') (''Anomaly'')
        (''@rx ~$|'' @ bs @ ''.swp$|'' @ bs @ ''.bak$|'' @ bs @ ''.orig$|'' @ bs @ ''.old$'')
        (''REQUEST_URI'') (''deny'') 403 0 0,
      default_rule 920130 (''Version Control Directory Access'') (''CRITICAL'') (''Anomaly'')
        (''@rx (?i)/'' @ bs @ ''.(git|svn|hg|bzr)/'')
        (''REQUEST_URI'') (''deny'') 403 0 0,
      default_rule 930100 (''Path Traversal Attack (../)'') (''CRITICAL'') (''LFI'')
        (''@rx ('' @ bs @ ''.'' @ bs @ ''./|'' @ bs @ ''.'' @ bs @ ''.'' @ bs @ '' %2f|%2e%2e%2f)'')
        (''REQUEST_URI'') (''deny'') 403 0 0,
      default_rule 930110 (''Linux Sensitive File Access (/etc/passwd)'') (''CRITICAL'') (''LFI'')
        (''@rx (?i)(/etc/passwd|/etc/shadow|/etc/hosts)'')
        (''REQUEST_URI'') (''deny'') 403 0 0,
      default_rule 930120 (''Windows Sensitive File Access (boot.ini)'') (''CRITICAL'') (''LFI'')
        (''@rx (?i)(boot'' @ bs @ ''.ini|windows/system32|winnt)'')
        (''REQUEST_URI'') (''deny'') 403 0 0,
      default_rule 930130 (''Proc Filesystem Access'') (''CRITICAL'') (''LFI'')
        (''@rx (?i)/proc/(self|version|cmdline)'')
        (''REQUEST_URI'') (''deny'') 403 0 0,
      default_rule 930140 (''PHP Wrapper Attack (php://, file://)'') (''CRITICAL'') (''LFI'')
        (''@rx (?i)(file://|php://|data://|expect://|zip://|phar://)'')
        (''REQUEST_URI'') (''deny'') 403 0 0,
      default_rule 931100 (''Remote File Inclusion (http://)'') (''CRITICAL'') (''RFI'')
        (''@rx (?i)(https?|ftp)://'')
        (''QUERY_STRING'') (''deny'') 403 0 0,
      default_rule 931110 (''URL Encoded RFI Attempt'') (''CRITICAL'') (''RFI'')
        (''@rx (?i)=(https?|ftp)%3a%2f%2f'')
        (''REQUEST_URI'') (''deny'') 403 0 0,
      default_rule 932100 (''OS Command Injection (cat, ls, wget)'') (''CRITICAL'') (''RCE'')
        (''@rx [;&|](cat|ls|dir|wget|curl|nc|bash|sh|cmd|powershell)'')
        (''REQUEST_URI'') (''deny'') 403 0 0,
      default_rule 932110 (''Command Substitution Attack ($(), '' @ bq @ bq @ '')'') (''CRITICAL'') (''RCE'')
        (''@rx (%24%28|%60)'')
        (''REQUEST_URI'') (''deny'') 403 0 0,
      default_rule 932120 (''System Command Execution (whoami, id)'') (''CRITICAL'') (''RCE'')
        (''@rx (?i)(;|'' @ bs @ ''|)(whoami|id|uname|hostname|pwd|ifconfig)'')
        (''REQUEST_URI'') (''deny'') 403 0 0,
      default_rule 932130 (''Code Execution Function'') (''CRITICAL'') (''RCE'')
        (''@rx (?i)(shell_exec|system|exec|passthru|popen|proc_open)'')
        (''REQUEST_URI'') (''deny'') 403 0 0,
      default_rule 932140 (''Shell Binary Access (/bin/bash)'') (''CRITICAL'') (''RCE'')
        (''@rx (?i)(/bin/bash|/bin/sh|cmd'' @ bs @ ''.exe|powershell'' @ bs @ ''.exe)'')
        (''REQUEST_URI'') (''deny'') 403 0 0,
      default_rule 933100 (''PHP Code Injection (<?php)'') (''CRITICAL'') (''PHP'')
        (''@rx (?i)(<'' @ bs @ ''?php|<'' @ bs @ ''?=|<%php)'')
        (''REQUEST_URI'') (''deny'') 403 0 0,
      default_rule 933110 (''PHP Dangerous Function (eval, assert)'') (''CRITICAL'') (''PHP'')
        (''@rx (?i)(eval'' @ bs @ ''s*'' @ bs @ ''(|assert'' @ bs @ ''s*'' @ bs @ ''()'')
        (''REQUEST_URI'') (''deny'') 403 0 0,
      default_rule 933120 (''PHP Obfuscation Function (base64_decode)'') (''WARNING'') (''PHP'')
        (''@rx (?i)(base64_decode|gzinflate|gzuncompress|str_rot13)'' @ bs @ ''s*'' @ bs @ ''('')
        (''REQUEST_URI'') (''deny'') 403 0 0,
      default_rule 933130 (''PHP File Inclusion Function'') (''WARNING'') (''PHP'')
        (''@rx (?i)(include|require|include_once|require_once)'' @ bs @ ''s*'' @ bs @ ''('')
        (''REQUEST_URI'') (''deny'') 403 0 0,
      default_rule 934100 (''Node.js Code Injection (require, exec)'') (''CRITICAL'') (''NodeJS'')
        (''@rx (?i)(require'' @ bs @ ''s*'' @ bs @ ''(|child_process|'' @ bs @ ''.exec'' @ bs @ ''s*'' @ bs @ ''(|'' @ bs @ ''.spawn'' @ bs @ ''s*'' @ bs @ ''()'')
        (''REQUEST_URI'') (''deny'') 403 0 0,
      default_rule 934110 (''Node.js Process Manipulation'') (''CRITICAL'') (''NodeJS'')
        (''@rx (?i)(process'' @ bs @ ''.env|process'' @ bs @ ''.exit|process'' @ bs @ ''.kill)'')
        (''REQUEST_URI'') (''deny'') 403 0 0,
      default_rule 941100 (''XSS Attack: Script Tag (<script>)'') (''CRITICAL'') (''XSS'')
        (''@rx (?i)(<script|%3Cscript|%3c%73%63%72%69%70%74)'')
        (''REQUEST_URI'') (''deny'') 403 0 0,
      default_rule 941110 (''XSS Attack: JavaScript Protocol'') (''CRITICAL'') (''XSS'')
        (''@rx (?i)(javascript:|vbscript:|data:text/html)'')
        (''REQUEST_URI'') (''deny'') 403 0 0,
      default_rule 941120 (''XSS Attack: Event Handler (onload=)'') (''CRITICAL'') (''XSS'')
        (''@rx (?i)(on(error|load|click|mouse|focus|blur|change|submit|reset|select)'' @ bs @ ''s*=)'')
        (''REQUEST_URI'') (''deny'') 403 0 0,
      default_rule 941130 (''XSS Attack: CSS Expression'') (''CRITICAL'') (''XSS'')
        (''@rx (?i)(expression'' @ bs @ ''s*'' @ bs @ ''(|@import|behavior:)'')
        (''REQUEST_URI'') (''deny'') 403 0 0,
      default_rule 941140 (''XSS Attack: Dangerous JS Function'') (''CRITICAL'') (''XSS'')
        (''@rx (?i)(alert|confirm|prompt|document'' @ bs @ ''.cookie|document'' @ bs @ ''.write|'' @ bs @ ''.innerHTML)'' @ bs @ ''s*['' @ bs @ ''('' @ bs @ ''=]'')
        (''REQUEST_URI'') (''deny'') 403 0 0,
      default_rule 941150 (''XSS Attack: HTML Injection'') (''WARNING'') (''XSS'')
        (''@rx (?i)(<iframe|<object|<embed|<applet|<form|<input|<button)'')
        (''REQUEST_URI'') (''deny'') 403 0 0,
      default_rule 941160 (''HTML Tag with External Reference'') (''NOTICE'') (''XSS'')
        (''@rx (?i)(src'' @ bs @ ''s*=|href'' @ bs @ ''s*=)'' @ bs @ ''s*['' @ dq @ sq @ '']?https?://'')
        (''REQUEST_URI'') (''log'') 0 0 0,
      default_rule 941170 (''XSS Attack: JS Encoding (fromCharCode)'') (''WARNING'') (''XSS'')
        (''@rx (?i)(fromCharCode|String'' @ bs @ ''.fromCharCode)'')
        (''REQUEST_URI'') (''deny'') 403 0 0,
      default_rule 942100 (''SQL Injection: Boolean Logic (1 or 1=1)'') (''CRITICAL'') (''SQLi'')
        (''@rx (?i)('' @ bs @ ''d['' @ bs @ ''s'' @ bs @ ''+]+or['' @ bs @ ''s'' @ bs @ ''+]+'' @ bs @ ''d|1['' @ bs @ ''s'' @ bs @ ''+]*=['' @ bs @ ''s'' @ bs @ ''+]*1|'' @ bs @ ''d['' @ bs @ ''s'' @ bs @ ''+]+and['' @ bs @ ''s'' @ bs @ ''+]+'' @ bs @ ''d)'')
        (''REQUEST_URI'') (''deny'') 403 0 0,
      default_rule 942110 (''SQL Injection: String Logic ('' @ sq @ '' or '' @ sq @ '')'') (''CRITICAL'') (''SQLi'')
        (''@rx (?i)('' @ sq @ ''['' @ bs @ ''s'' @ bs @ ''+]*(or|and)['' @ bs @ ''s'' @ bs @ ''+]*'' @ sq @ '')'')
        (''REQUEST_URI'') (''deny'') 403 0 0,
      default_rule 942120 (''SQL Injection: UNION SELECT'') (''CRITICAL'') (''SQLi'')
        (''@rx (?i)(union['' @ bs @ ''s'' @ bs @ ''+]*(all['' @ bs @ ''s'' @ bs @ ''+]*)?select)'')
        (''REQUEST_URI'') (''deny'') 403 0 0,
      default_rule 942130 (''SQL Injection: Comment Sequence (--)'') (''CRITICAL'') (''SQLi'')
        (''@rx (--|#|%23|%2d%2d)'')
        (''REQUEST_URI'') (''deny'') 403 0 0,
      default_rule 942140 (''SQL Injection: SQL Statement'') (''CRITICAL'') (''SQLi'')
        (''@rx (?i)(select['' @ bs @ ''s'' @ bs @ ''+]+.*(from|into)|insert['' @ bs @ ''s'' @ bs @ ''+]+into|update['' @ bs @ ''s'' @ bs @ ''+]+.+set|delete['' @ bs @ ''s'' @ bs @ ''+]+from|drop['' @ bs @ ''s'' @ bs @ ''+]+(table|database))'')
        (''REQUEST_URI'') (''deny'') 403 0 0,
      default_rule 942150 (''SQL Injection: Database Function (xp_, sp_)'') (''CRITICAL'') (''SQLi'')
        (''@rx (?i)(exec['' @ bs @ ''s'' @ bs @ ''+]+(xp_|sp_)|execute['' @ bs @ ''s'' @ bs @ ''+]+immediate|dbms_|utl_)'')
        (''REQUEST_URI'') (''deny'') 403 0 0,
      default_rule 942160 (''SQL Injection: Time-Based (SLEEP, BENCHMARK)'') (''CRITICAL'') (''SQLi'')
        (''@rx (?i)(benchmark'' @ bs @ ''s*'' @ bs @ ''(|sleep'' @ bs @ ''s*'' @ bs @ ''(|waitfor['' @ bs @ ''s'' @ bs @ ''+]+delay|pg_sleep)'')
        (''REQUEST_URI'') (''deny'') 403 0 0,
      default_rule 942170 (''SQL Injection: File/Schema Access'') (''CRITICAL'') (''SQLi'')
        (''@rx (?i)(load_file|into['' @ bs @ ''s'' @ bs @ ''+]+(out|dump)file|information_schema)'')
        (''REQUEST_URI'') (''deny'') 403 0 0,
      default_rule 942180 (''SQL Injection: String Function (CONCAT, CHAR)'') (''WARNING'') (''SQLi'')
        (''@rx (?i)(concat'' @ bs @ ''s*'' @ bs @ ''(|char'' @ bs @ ''s*'' @ bs @ ''(|chr'' @ bs @ ''s*'' @ bs @ ''(|ascii'' @ bs @ ''s*'' @ bs @ ''(|ord'' @ bs @ ''s*'' @ bs @ ''(|hex'' @ bs @ ''s*'' @ bs @ ''(|unhex'' @ bs @ ''s*'' @ bs @ ''()'')
        (''REQUEST_URI'') (''log'') 0 0 0,
      default_rule 942190 (''SQL Injection: Blind SQLi (ORDER BY)'') (''CRITICAL'') (''SQLi'')
        (''@rx (?i)((group['' @ bs @ ''s'' @ bs @ ''+]+by|order['' @ bs @ ''s'' @ bs @ ''+]+by)['' @ bs @ ''s'' @ bs @ ''+]+'' @ bs @ ''d+|having['' @ bs @ ''s'' @ bs @ ''+]+'' @ bs @ ''d)'')
        (''REQUEST_URI'') (''deny'') 403 0 0,
      default_rule 943100 (''Session Fixation Attempt'') (''CRITICAL'') (''Session'')
        (''@rx (?i)(PHPSESSID|JSESSIONID|ASPSESSIONID|session_id)='')
        (''REQUEST_URI'') (''deny'') 403 0 0,
      default_rule 943110 (''Cookie Injection Attempt'') (''CRITICAL'') (''Session'')
        (''@rx (?i)(set-cookie:|cookie:).*session'')
        (''REQUEST_URI'') (''deny'') 403 0 0,
      default_rule 944100 (''Java Class Injection'') (''CRITICAL'') (''Java'')
        (''@rx (?i)(java'' @ bs @ ''.(lang|io|util|net|security)'' @ bs @ ''.|Runtime'' @ bs @ ''.getRuntime)'')
        (''REQUEST_URI'') (''deny'') 403 0 0,
      default_rule 944110 (''Java Serialized Object'') (''CRITICAL'') (''Java'')
        (''@rx ('' @ bs @ ''xac'' @ bs @ ''xed'' @ bs @ ''x00'' @ bs @ ''x05|rO0AB)'')
        (''REQUEST_BODY'') (''deny'') 403 0 0,
      default_rule 950100 (''Potential Credential in URL'') (''WARNING'') (''Leakage'')
        (''@rx (?i)(password|passwd|pwd|secret|token|api[_-]?key)'' @ bs @ ''s*='')
        (''QUERY_STRING'') (''log'') 0 0 0,
      default_rule 951100 (''SSRF: Internal IP Address'') (''CRITICAL'') (''SSRF'')
        (''@rx (?i)(127'' @ bs @ ''.0'' @ bs @ ''.0'' @ bs @ ''.|10'' @ bs @ ''.|192'' @ bs @ ''.168'' @ bs @ ''.|172'' @ bs @ ''.(1[6-9]|2[0-9]|3[01])'' @ bs @ ''.|'' @ bs @ ''.local|localhost)'')
        (''REQUEST_URI'') (''deny'') 403 0 0,
      default_rule 951110 (''SSRF: Cloud Metadata Access'') (''CRITICAL'') (''SSRF'')
        (''@rx (?i)(169'' @ bs @ ''.254'' @ bs @ ''.169'' @ bs @ ''.254|metadata'' @ bs @ ''.google|metadata'' @ bs @ ''.azure)'')
        (''REQUEST_URI'') (''deny'') 403 0 0,
      default_rule 952100 (''XXE: DOCTYPE Declaration'') (''CRITICAL'') (''XXE'')
        (''@rx (?i)(<!DOCTYPE|<!ENTITY)'')
        (''REQUEST_BODY'') (''deny'') 403 0 0,
      default_rule 952110 (''XXE: External Entity'') (''CRITICAL'') (''XXE'')
        (''@rx (?i)(SYSTEM'' @ bs @ ''s+['' @ dq @ sq @ '']file://|SYSTEM'' @ bs @ ''s+['' @ dq @ sq @ '']http)'')
        (''REQUEST_BODY'') (''deny'') 403 0 0,
      default_rule 953100 (''LDAP Injection Attack'') (''CRITICAL'') (''LDAP'')
        (''@rx (?i)('' @ bs @ ''('' @ bs @ ''||'' @ bs @ ''|'' @ bs @ '')|'' @ bs @ ''*'' @ bs @ '')|'' @ bs @ ''('' @ bs @ ''*|'' @ bs @ ''(cn=|'' @ bs @ ''(uid=|'' @ bs @ ''(objectClass=)'')
        (''REQUEST_URI'') (''deny'') 403 0 0,
      default_rule 954100 (''Template Syntax Detected'') (''NOTICE'') (''SSTI'')
        (''@rx ('' @ bs @ ''{'' @ bs @ ''{|'' @ bs @ ''{%|'' @ bs @ ''$'' @ bs @ ''{|<%=|#'' @ bs @ ''{)'')
        (''REQUEST_URI'') (''log'') 0 0 0,
      default_rule 954110 (''Python SSTI Attack'') (''CRITICAL'') (''SSTI'')
        (''@rx (?i)(__class__|__mro__|__subclasses__|__builtins__|__import__|__globals__)'')
        (''REQUEST_URI'') (''deny'') 403 0 0,
      default_rule 955100 (''GraphQL Introspection Attack'') (''WARNING'') (''GraphQL'')
        (''@rx (?i)(__schema|__type|introspectionQuery)'')
        (''REQUEST_BODY'') (''log'') 0 0 0,
      default_rule 955110 (''GraphQL Deep Query Attack'') (''CRITICAL'') (''GraphQL'')
        (''@rx ('' @ bs @ ''{'' @ bs @ ''s*[a-zA-Z]+'' @ bs @ ''s*'' @ bs @ ''{){5,}'')
        (''REQUEST_BODY'') (''deny'') 403 0 0,
      default_rule 956100 (''JWT Token in URL'') (''WARNING'') (''API'')
        (''@rx (?i)(token|jwt|bearer)=[A-Za-z0-9_-]+'' @ bs @ ''.[A-Za-z0-9_-]+'' @ bs @ ''.[A-Za-z0-9_-]+'')
        (''QUERY_STRING'') (''log'') 0 0 0,
      default_rule 956110 (''API Version Enumeration'') (''NOTICE'') (''API'')
        (''@rx /api/v('' @ bs @ ''d+)/'')
        (''REQUEST_URI'') (''log'') 0 0 0,
      default_rule 957100 (''Log4j JNDI Injection'') (''CRITICAL'') (''Log4j'')
        (''@rx (?i)('' @ bs @ ''$'' @ bs @ ''{jndi:|'' @ bs @ ''$'' @ bs @ ''{env:|'' @ bs @ ''$'' @ bs @ ''{lower:|'' @ bs @ ''$'' @ bs @ ''{upper:)'')
        (''REQUEST_URI'') (''deny'') 403 0 0,
      default_rule 957110 (''Log4j Obfuscated Attack'') (''CRITICAL'') (''Log4j'')
        (''@rx (?i)('' @ bs @ ''$'' @ bs @ ''{j'' @ bs @ ''$'' @ bs @ ''{|'' @ bs @ ''$'' @ bs @ ''{'' @ bs @ ''$'' @ bs @ ''{lower:|%24%7b)'')
        (''REQUEST_URI'') (''deny'') 403 0 0,
      default_rule 958100 (''X-Forwarded-For Spoofing'') (''WARNING'') (''RateLimit'')
        (''@rx ^(127'' @ bs @ ''.|10'' @ bs @ ''.|192'' @ bs @ ''.168'' @ bs @ ''.|172'' @ bs @ ''.)'')
        (''REQUEST_HEADERS:X-Forwarded-For'') (''log'') 0 10 60]"

definition validateRuleIDRange :: "string \<Rightarrow> int \<Rightarrow> go_error option" where
  "validateRuleIDRange source i =
     (if source = ''custom'' then
        (if i < 900000 \<or> i > 909999
         then Some (''custom rule id '' @ itoa i @ '' outside allowed range 900000-909999'') else None)
      else if source = ''crs'' then
        (if i < 900000 \<or> i > 999999
         then Some (''crs rule id '' @ itoa i @ '' outside allowed range 900000-999999'') else None)
      else None)"

subsection \<open>Rule files\<close>

definition trim_prefix :: "string \<Rightarrow> string \<Rightarrow> string" where
  "trim_prefix s p = (if has_prefix s p then drop (length p) s else s)"

definition trimQuoted :: "string \<Rightarrow> string" where
  "trimQuoted s0 =
     (let s = TrimSpace s0 in
      if length s \<ge> 2 \<and> ((hd s = CHR 0x27 \<and> last s = CHR 0x27) \<or> (hd s = CHR 0x22 \<and> last s = CHR 0x22))
      then butlast (tl s) else s)"

text \<open>The text between the first quote and the next one of its kind, and the text behind it.\<close>

definition extractQuoted :: "string \<Rightarrow> (string \<times> string) option" where
  "extractQuoted s = (case first_index (\<lambda>c. c = CHR 0x22 \<or> c = CHR 0x27) s of
     None \<Rightarrow> None
   | Some start \<Rightarrow>
       let rest = drop (start + 1) s in
       case index_byte rest (s ! start) of
         None \<Rightarrow> None
       | Some e \<Rightarrow> Some (take e rest, drop (e + 1) rest))"

definition flush_action :: "string \<Rightarrow> string list" where
  "flush_action cur = (let t = TrimSpace cur in if t \<noteq> [] then [t] else [])"

text \<open>The quote that is open, if any, and the action read so far.\<close>

fun splitActions_loop :: "string \<Rightarrow> char option \<Rightarrow> string \<Rightarrow> string list" where
  "splitActions_loop [] q cur = flush_action cur"
| "splitActions_loop (ch # s) (Some q) cur =
     splitActions_loop s (if ch = q then None else Some q) (cur @ [ch])"
| "splitActions_loop (ch # s) None cur =
     (if ch = CHR 0x27 \<or> ch = CHR 0x22 then splitActions_loop s (Some ch) (cur @ [ch])
      else if ch = CHR '','' then flush_action cur @ splitActions_loop s None []
      else splitActions_loop s None (cur @ [ch]))"

definition splitActions :: "string \<Rightarrow> string list" where
  "splitActions actions = splitActions_loop actions None []"

definition tag_category :: "string \<Rightarrow> string \<Rightarrow> string" where
  "tag_category tag category =
     (let tagLower = to_lower tag in
      if \<not> has_prefix tagLower ''owasp_crs'' \<and> \<not> has_prefix tagLower ''paranoia'' \<and>
         \<not> has_prefix tagLower ''capec'' \<and> \<not> has_prefix tagLower ''pci'' then
        (if has_prefix tagLower ''attack-'' \<or> has_prefix tagLower ''application-'' then tag
         else if category = ''General'' then tag else category)
      else category)"

definition apply_token :: "string \<Rightarrow> SRule \<Rightarrow> SRule" where
  "apply_token token rule =
     (let lower = to_lower token in
      if lower \<in> {''deny'', ''drop'', ''pass'', ''log''} then rule\<lparr>sr_Action := lower\<rparr>
      else if lower = ''block'' then rule\<lparr>sr_Action := ''deny''\<rparr>
      else if has_prefix lower ''id:'' then
        (case atoi (trimQuoted (trim_prefix (trim_prefix token ''id:'') ''ID:'')) of
           (i, None) \<Rightarrow> rule\<lparr>sr_ID := i\<rparr> | (i, Some err) \<Rightarrow> rule)
      else if has_prefix lower ''status:'' then
        (case atoi (trimQuoted (trim_prefix token ''status:'')) of
           (code, None) \<Rightarrow> rule\<lparr>sr_BlockStatus := code\<rparr> | (code, Some err) \<Rightarrow> rule)
      else if has_prefix lower ''severity:'' then
        rule\<lparr>sr_Severity := to_upper (trim_prefix (trimQuoted (trim_prefix token ''severity:'')) ''severity:'')\<rparr>
      else if has_prefix lower ''msg:'' then rule\<lparr>sr_Description := trimQuoted (trim_prefix token ''msg:'')\<rparr>
      else if has_prefix lower ''tag:'' then
        rule\<lparr>sr_Category := tag_category (trimQuoted (trim_prefix token ''tag:'')) (sr_Category rule)\<rparr>
      else rule)"

definition fill_defaults :: "SRule \<Rightarrow> SRule" where
  "fill_defaults rule =
     (let rule = (if sr_Description rule = [] then rule\<lparr>sr_Description := ''Rule '' @ itoa (sr_ID rule)\<rparr> else rule);
          rule = (if sr_Severity rule = [] then rule\<lparr>sr_Severity := ''NOTICE''\<rparr> else rule) in
      if (sr_Action rule = ''deny'' \<or> sr_Action rule = ''block'') \<and> sr_BlockStatus rule = 0
      then rule\<lparr>sr_BlockStatus := 403\<rparr> else rule)"

definition parseSecRule :: "string \<Rightarrow> string \<Rightarrow> go_error + SRule" where
  "parseSecRule line source =
     (let parts = Fields line in
      if length parts < 3 then Inl ''invalid SecRule line''
      else case extractQuoted line of
        None \<Rightarrow> Inl ''missing operator''
      | Some (op, rest) \<Rightarrow> (case extractQuoted rest of
          None \<Rightarrow> Inl ''missing actions''
        | Some (actions, _) \<Rightarrow>
            let rule = \<lparr>sr_ID = 0, sr_Description = [], sr_Severity = [], sr_Enabled = True, sr_Category = ''General'',
                  sr_Source = source, sr_ReadOnly = True, sr_Pattern = op, sr_TargetField = parts ! 1,
                  sr_Action = ''log'', sr_BlockStatus = 0, sr_Threshold = 0, sr_TimeWindow = 0,
                  sr_MatchCount = 0, sr_LastMatch = []\<rparr>;
                rule = fold apply_token (splitActions actions) rule in
            if sr_ID rule = 0 then Inl ''missing id''
            else case (if source = ''custom'' then validateRuleIDRange source (sr_ID rule) else None) of
              Some err \<Rightarrow> Inl err
            | None \<Rightarrow> Inr (fill_defaults rule)))"

definition parse_directive :: "string \<Rightarrow> string \<Rightarrow> SRule list" where
  "parse_directive source fullLine =
     (if has_prefix fullLine ''SecRule '' then (case parseSecRule fullLine source of Inl err \<Rightarrow> [] | Inr r \<Rightarrow> [r]) else [])"

fun parse_lines :: "string \<Rightarrow> string list \<Rightarrow> string \<Rightarrow> SRule list" where
  "parse_lines source [] lineBuf = (if lineBuf \<noteq> [] then parse_directive source lineBuf else [])"
| "parse_lines source (raw # lines) lineBuf =
     (let trimmed = TrimSpace raw in
      if lineBuf = [] \<and> (trimmed = [] \<or> has_prefix trimmed ''#'') then parse_lines source lines lineBuf
      else if has_suffix trimmed bs then parse_lines source lines (lineBuf @ butlast trimmed @ '' '')
      else parse_directive source (lineBuf @ trimmed) @ parse_lines source lines [])"

text \<open>\<open>lines\<close> are the lines of the scanner and \<open>err\<close> its error.\<close>

definition parseRulesFile :: "string \<Rightarrow> string list \<Rightarrow> go_error option \<Rightarrow> go_error + SRule list" where
  "parseRulesFile source lines err = (let rules = parse_lines source lines [] in
     case err of Some e \<Rightarrow> Inl e | None \<Rightarrow> Inr rules)"

subsection \<open>Rules that were read\<close>

lemma apply_token_keeps [simp]:
  "sr_Source (apply_token t r) = sr_Source r" "sr_ReadOnly (apply_token t r) = sr_ReadOnly r"
  "sr_Enabled (apply_token t r) = sr_Enabled r" "sr_Pattern (apply_token t r) = sr_Pattern r"
  by (auto simp: apply_token_def Let_def split: prod.split option.split)

lemma fold_apply_token_keeps [simp]:
  "sr_Source (fold apply_token ts r) = sr_Source r" "sr_ReadOnly (fold apply_token ts r) = sr_ReadOnly r"
  by (induction ts arbitrary: r) simp_all

lemma fill_defaults_keeps [simp]:
  "sr_Source (fill_defaults r) = sr_Source r" "sr_ReadOnly (fill_defaults r) = sr_ReadOnly r"
  "sr_ID (fill_defaults r) = sr_ID r"
  by (simp_all add: fill_defaults_def Let_def)

definition file_rule_ok :: "string \<Rightarrow> SRule \<Rightarrow> bool" where
  "file_rule_ok source r = (sr_Source r = source \<and> sr_ReadOnly r \<and> sr_ID r \<noteq> 0 \<and>
     (source = ''custom'' \<longrightarrow> 900000 \<le> sr_ID r \<and> sr_ID r \<le> 909999))"

lemma parseSecRule_ok:
  assumes "parseSecRule line source = Inr r"
  shows "file_rule_ok source r"
  using assms unfolding parseSecRule_def Let_def file_rule_ok_def
  by (auto split: if_splits option.splits simp: validateRuleIDRange_def)

lemma parse_directive_ok: "r \<in> set (parse_directive source line) \<Longrightarrow> file_rule_ok source r"
  unfolding parse_directive_def
  by (cases "has_prefix line ''SecRule ''"; cases "parseSecRule line source") (simp_all only: parseSecRule_ok
      if_True if_False sum.case list.set insert_iff empty_iff simp_thms)

lemma parse_lines_ok: "r \<in> set (parse_lines source lines buf) \<Longrightarrow> file_rule_ok source r"
proof (induction lines arbitrary: buf)
  case (Cons raw lines)
  then show ?case by (auto simp: Let_def dest: parse_directive_ok split: if_splits)
qed (auto dest: parse_directive_ok split: if_splits)

text \<open>
  (C35) Whatever a rule file holds, every rule taken from it is marked read-only, carries the source it
  was read for and an identifier, and the identifiers of custom rules lie in the range reserved for
  them; lines that are not such rules are left out.
\<close>

theorem file_rules_ok:
  "case parseRulesFile source lines err of Inl e \<Rightarrow> True | Inr rules \<Rightarrow> list_all (file_rule_ok source) rules"
  using parse_lines_ok [of _ source lines "[]"]
  by (auto simp: parseRulesFile_def Let_def list_all_iff split: option.splits)

subsection \<open>Splitting actions\<close>

text \<open>An action whose quotes are closed and whose commas are quoted; the second argument is the open quote.\<close>

fun action_ok :: "string \<Rightarrow> char option \<Rightarrow> bool" where
  "action_ok [] q = (q = None)"
| "action_ok (c # s) (Some q) = action_ok s (if c = q then None else Some q)"
| "action_ok (c # s) None = (c \<noteq> CHR '','' \<and>
     action_ok s (if c = CHR 0x27 \<or> c = CHR 0x22 then Some c else None))"

lemma splitActions_token:
  "action_ok s q \<Longrightarrow> splitActions_loop (s @ rest) q cur = splitActions_loop rest None (cur @ s)"
  by (induction s q arbitrary: cur rule: action_ok.induct) (auto split: if_splits)

text \<open>
  (C36) Splitting an action list at its commas gives back the actions that were joined: commas within
  quotes do not split, and nothing is lost or reordered.
\<close>

theorem splitActions_join:
  assumes "\<forall>t\<in>set ts. t \<noteq> [] \<and> TrimSpace t = t \<and> action_ok t None"
  shows "splitActions (join_with CHR '','' ts) = ts"
proof -
  have "splitActions_loop (join_with CHR '','' ts) None [] = ts" using assms
  proof (induction "CHR '',''" ts rule: join_with.induct)
    case (2 t)
    then show ?case using splitActions_token [of t None "[]" "[]"] by (simp add: flush_action_def)
  next
    case (3 t u ts)
    then show ?case
      using splitActions_token [of t None "CHR '','' # join_with CHR '','' (u # ts)" "[]"] by (simp add: flush_action_def)
  qed (simp add: flush_action_def TrimSpace_def)
  then show ?thesis by (simp add: splitActions_def)
qed

theorem splitActions_join_witness:
  "splitActions (join_with CHR '','' [''id:1'', ''msg:'' @ sq @ ''a,b'' @ sq, ''deny'']) =
     [''id:1'', ''msg:'' @ sq @ ''a,b'' @ sq, ''deny'']"
proof -
  have "TrimSpace ''id:1'' = ''id:1'' \<and> TrimSpace (''msg:'' @ sq @ ''a,b'' @ sq) = ''msg:'' @ sq @ ''a,b'' @ sq \<and>
      TrimSpace ''deny'' = ''deny''"
    by (simp add: TrimSpace_ascii is_space_rune_def)
  then show ?thesis by (intro splitActions_join) simp
qed

subsection \<open>The built-in rules\<close>

lemma default_rule_fields [simp]:
  "sr_ID (default_rule i d v c p t a st th w) = i" "sr_ReadOnly (default_rule i d v c p t a st th w)"
  "sr_Source (default_rule i d v c p t a st th w) = ''custom''"
  by (simp_all add: default_rule_def)

lemma defaultRules_ids: "sorted_wrt (<) (map sr_ID defaultRules)"
proof -
  have "map sr_ID defaultRules =
    [900001, 910100, 910110, 910120, 913100, 913110, 913120, 920100, 920110, 
     920120, 920130, 930100, 930110, 930120, 930130, 930140, 931100, 931110, 
     932100, 932110, 932120, 932130, 932140, 933100, 933110, 933120, 933130, 
     934100, 934110, 941100, 941110, 941120, 941130, 941140, 941150, 941160, 
     941170, 942100, 942110, 942120, 942130, 942140, 942150, 942160, 942170, 
     942180, 942190, 943100, 943110, 944100, 944110, 950100, 951100, 951110, 
     952100, 952110, 953100, 954100, 954110, 955100, 955110, 956100, 956110, 
     957100, 957110, 958100]"
    by (simp only: defaultRules_def list.map default_rule_fields)
  then show ?thesis by simp
qed

lemma defaultRules_nonempty: "defaultRules \<noteq> []"
  unfolding defaultRules_def by (rule list.distinct(2))

lemma defaultRules_read_only: "list_all (\<lambda>r. sr_ReadOnly r \<and> sr_Source r = ''custom'') defaultRules"
  by (simp only: defaultRules_def list.pred_inject default_rule_fields simp_thms)

end
