(* ===== verification/Store.thy ===== *)
theory Store
  imports Store_Rules "HOL-Library.Multiset"
begin

text \<open>
  The application's store (\<open>internal/app/store/store.go\<close>): the rules shown and edited in the user
  interface, the request log with its statistics, and the users. The contents of files, the outcomes of
  writing them, the current time, the password hashing of \<open>bcrypt\<close> and the database are arguments.
  The lock is held through each operation, so an operation is one step.

  Counters of type \<open>int64\<close> are 64-bit words. The averages in floating point are left out.
\<close>

subsection \<open>State\<close>

record LogEntry =
  le_ID :: string
  le_ClientIP :: string
  le_Method :: string
  le_URI :: string
  le_RuleID :: int
  le_Action :: string
  le_Status :: string
  le_Details :: string

record Stats =
  TotalRequests :: "64 word"
  BlockedRequests :: "64 word"
  FlaggedRequests :: "64 word"
  SafeRequests :: "64 word"
  ActiveRulesCount :: int
  TotalResponseTimeNs :: "64 word"
  ResponseCount :: "64 word"

record User =
  u_ID :: int
  u_Username :: string
  u_PasswordHash :: string
  u_Email :: string
  u_Role :: string
  u_Enabled :: bool

record SystemState =
  s_Logs :: "LogEntry list"
  s_Stats :: Stats
  s_Rules :: "SRule list"
  s_Users :: "User list"

record Store =
  state :: SystemState
  rulesFile :: string
  crsOn :: bool
  crsPath :: string
  crsVersion :: string
  crsSource :: string
  crsLoadedAt :: "int option"
  crsFingerprint :: string
  customRules :: "SRule list"
  crsRules :: "SRule list"

text \<open>
  What the file system answers while rules are loaded: the custom file and the files of the CRS directory,
  each the lines and the error of its scanner, or an error (\<open>None\<close> for a CRS file) when it cannot be
  opened, the fingerprint of the CRS files and the time.
\<close>

type_synonym scanned = "string list \<times> go_error option"

record rule_files =
  rf_custom :: "go_error + scanned"
  rf_crs :: "go_error + scanned option list"
  rf_fingerprint :: string
  rf_now :: int

subsection \<open>Loading rules\<close>

definition setCRSStatus :: "string \<Rightarrow> int option \<Rightarrow> string \<Rightarrow> Store \<Rightarrow> Store" where
  "setCRSStatus source loadedAt fingerprint s =
     s\<lparr>crsSource := source, crsLoadedAt := loadedAt, crsFingerprint := fingerprint\<rparr>"

definition loadCustomRulesFromFile :: "rule_files \<Rightarrow> Store \<Rightarrow> go_error + SRule list" where
  "loadCustomRulesFromFile f s =
     (if rulesFile s = [] then Inr []
      else case rf_custom f of Inl err \<Rightarrow> Inl err | Inr (lines, err) \<Rightarrow> parseRulesFile ''custom'' lines err)"

text \<open>A CRS file that cannot be opened or read is skipped.\<close>

definition crs_file_rules :: "scanned option \<Rightarrow> SRule list" where
  "crs_file_rules file = (case file of
     None \<Rightarrow> []
   | Some (lines, err) \<Rightarrow> (case parseRulesFile ''crs'' lines err of Inl e \<Rightarrow> [] | Inr rs \<Rightarrow> rs))"

definition loadCRSRules :: "rule_files \<Rightarrow> Store \<Rightarrow> (go_error + SRule list) \<times> Store" where
  "loadCRSRules f s =
     (if \<not> crsOn s \<or> crsPath s = [] then (Inr [], setCRSStatus ''disabled'' None [] s)
      else case rf_crs f of
        Inl err \<Rightarrow> (Inl err, s)
      | Inr files \<Rightarrow>
          if files = [] then (Inr [], setCRSStatus ''filesystem'' None [] s)
          else (Inr (concat (map crs_file_rules files)),
                setCRSStatus ''filesystem'' (Some (rf_now f)) (rf_fingerprint f) s))"

definition put_rules :: "SRule list \<Rightarrow> (int \<times> SRule) list \<Rightarrow> (int \<times> SRule) list" where
  "put_rules rs m = fold (\<lambda>r. AList.update (sr_ID r) r) rs m"

text \<open>Go iterates \<open>rulesByID\<close> in any order and sorts by the identifiers, which are different.\<close>

definition merge_rules :: "SRule list \<Rightarrow> SRule list \<Rightarrow> SRule list \<Rightarrow> SRule list" where
  "merge_rules crs custom own = sort_key sr_ID (map snd (put_rules own (put_rules custom (put_rules crs []))))"

definition mergeRulesFromFile :: "rule_files \<Rightarrow> Store \<Rightarrow> go_error option \<times> Store" where
  "mergeRulesFromFile f s = (case loadCustomRulesFromFile f s of
     Inl err \<Rightarrow> (Some err, s)
   | Inr custom \<Rightarrow> (case loadCRSRules f s of
       (Inl err, s) \<Rightarrow> (Some err, s)
     | (Inr crs, s) \<Rightarrow>
         let merged = merge_rules crs custom (s_Rules (state s)); st = state s in
         (None, s\<lparr>customRules := custom, crsRules := crs,
            state := st\<lparr>s_Rules := merged, s_Stats := (s_Stats st)\<lparr>ActiveRulesCount := int (length merged)\<rparr>\<rparr>\<rparr>)))"

definition EnableCRS :: "rule_files \<Rightarrow> Store \<Rightarrow> go_error option \<times> Store" where
  "EnableCRS f s = mergeRulesFromFile f (s\<lparr>crsOn := True\<rparr>)"

definition DisableCRS :: "rule_files \<Rightarrow> Store \<Rightarrow> go_error option \<times> Store" where
  "DisableCRS f s = mergeRulesFromFile f (s\<lparr>crsOn := False\<rparr>)"

text \<open>\<open>decoded\<close> is what decoding the state file leaves in the state, \<open>None\<close> when there is no such file.\<close>

definition load :: "SystemState option \<Rightarrow> Store \<Rightarrow> Store" where
  "load decoded s = (case decoded of
     None \<Rightarrow> s
   | Some st \<Rightarrow>
       let missing = filter (\<lambda>d. sr_ID d \<notin> sr_ID ` set (s_Rules st)) defaultRules in
       s\<lparr>state := st\<lparr>s_Rules := sort_key sr_ID (s_Rules st @ missing)\<rparr>\<rparr>)"

definition normalizeCustomRules :: "Store \<Rightarrow> Store" where
  "normalizeCustomRules s = s\<lparr>state := (state s)\<lparr>s_Rules :=
     map (\<lambda>r. if sr_Source r = [] then r\<lparr>sr_Source := ''custom''\<rparr> else r) (s_Rules (state s))\<rparr>\<rparr>"

definition default_users :: "(string \<Rightarrow> string) \<Rightarrow> User list" where
  "default_users hash =
     [\<lparr>u_ID = 1, u_Username = ''admin'', u_PasswordHash = hash ''ObsidianAdmin#2024'', u_Email = ''admin@obsidian.local'',
       u_Role = ''Admin'', u_Enabled = True\<rparr>,
      \<lparr>u_ID = 2, u_Username = ''analyst'', u_PasswordHash = hash ''ObsidianAnalyst#2024'', u_Email = ''analyst@obsidian.local'',
       u_Role = ''Analyst'', u_Enabled = True\<rparr>,
      \<lparr>u_ID = 3, u_Username = ''viewer'', u_PasswordHash = hash ''ObsidianViewer#2024'', u_Email = ''viewer@obsidian.local'',
       u_Role = ''Viewer'', u_Enabled = True\<rparr>]"

definition initDefaultUsers :: "(string \<Rightarrow> string) \<Rightarrow> Store \<Rightarrow> Store" where
  "initDefaultUsers hash s = s\<lparr>state := (state s)\<lparr>s_Users := default_users hash\<rparr>\<rparr>"

definition empty_stats :: Stats where
  "empty_stats = \<lparr>TotalRequests = 0, BlockedRequests = 0, FlaggedRequests = 0, SafeRequests = 0,
     ActiveRulesCount = 5, TotalResponseTimeNs = 0, ResponseCount = 0\<rparr>"

definition NewStore ::
  "string \<Rightarrow> bool \<Rightarrow> string \<Rightarrow> string \<Rightarrow> SystemState option \<Rightarrow> rule_files \<Rightarrow> (string \<Rightarrow> string) \<Rightarrow> Store" where
  "NewStore file on path version decoded f hash =
     (let s = \<lparr>state = \<lparr>s_Logs = [], s_Stats = empty_stats, s_Rules = defaultRules, s_Users = []\<rparr>, rulesFile = file, crsOn = on,
               crsPath = path, crsVersion = version, crsSource = [], crsLoadedAt = None, crsFingerprint = [],
               customRules = [], crsRules = []\<rparr>;
          s = normalizeCustomRules (load decoded s);
          s = snd (mergeRulesFromFile f s) in
      if s_Users (state s) = [] then initDefaultUsers hash s else s)"

subsection \<open>The request log\<close>

definition push_log :: "LogEntry \<Rightarrow> LogEntry list \<Rightarrow> LogEntry list" where
  "push_log entry logs = (if length logs > 1000 then tl logs else logs) @ [entry]"

definition entry_status :: "LogEntry \<Rightarrow> string" where
  "entry_status entry =
     (if le_Status entry \<noteq> [] then le_Status entry
      else let a = to_lower (le_Action entry) in
        if a = ''blocked'' \<or> a = ''deny'' then ''Blocked'' else if a = ''log'' then ''Flagged'' else ''Safe'')"

text \<open>The first rule with the identifier counts the match.\<close>

fun count_match :: "int \<Rightarrow> string \<Rightarrow> SRule list \<Rightarrow> SRule list" where
  "count_match i now [] = []"
| "count_match i now (r # rs) =
     (if sr_ID r = i then r\<lparr>sr_MatchCount := sr_MatchCount r + 1, sr_LastMatch := now\<rparr> # rs
      else r # count_match i now rs)"

definition count_request :: "string \<Rightarrow> Stats \<Rightarrow> Stats" where
  "count_request status st =
     (let st = st\<lparr>TotalRequests := TotalRequests st + 1\<rparr> in
      if status = ''Blocked'' \<or> status = ''ThreatBlocked'' then st\<lparr>BlockedRequests := BlockedRequests st + 1\<rparr>
      else if status = ''Flagged'' then st\<lparr>FlaggedRequests := FlaggedRequests st + 1\<rparr>
      else st\<lparr>SafeRequests := SafeRequests st + 1\<rparr>)"

definition AddLog :: "string \<Rightarrow> LogEntry \<Rightarrow> Store \<Rightarrow> Store" where
  "AddLog now entry0 s =
     (let entry = entry0\<lparr>le_Status := entry_status entry0\<rparr>;
          st = state s;
          st = st\<lparr>s_Logs := push_log entry (s_Logs st), s_Stats := count_request (le_Status entry) (s_Stats st)\<rparr>;
          s = s\<lparr>state := st\<rparr>;
          i = le_RuleID entry in
      if i \<noteq> 0 then
        s\<lparr>state := st\<lparr>s_Rules := count_match i now (s_Rules st)\<rparr>,
          customRules := count_match i now (customRules s), crsRules := count_match i now (crsRules s)\<rparr>
      else s)"

definition IncrementSafeRequest :: "Store \<Rightarrow> Store" where
  "IncrementSafeRequest s = s\<lparr>state := (state s)\<lparr>s_Stats := count_request ''Safe'' (s_Stats (state s))\<rparr>\<rparr>"

definition AddSafeLog :: "LogEntry \<Rightarrow> Store \<Rightarrow> Store" where
  "AddSafeLog entry s =
     (let st = state s in
      s\<lparr>state := st\<lparr>s_Logs := push_log (entry\<lparr>le_Status := ''Safe'', le_Action := ''Pass''\<rparr>) (s_Logs st),
                    s_Stats := count_request ''Safe'' (s_Stats st)\<rparr>\<rparr>)"

definition RecordResponseTime :: "64 word \<Rightarrow> Store \<Rightarrow> Store" where
  "RecordResponseTime d s =
     (let st = s_Stats (state s) in
      s\<lparr>state := (state s)\<lparr>s_Stats := st\<lparr>TotalResponseTimeNs := TotalResponseTimeNs st + d,
                                          ResponseCount := ResponseCount st + 1\<rparr>\<rparr>\<rparr>)"

definition GetStats :: "Store \<Rightarrow> Stats" where
  "GetStats s = (s_Stats (state s))\<lparr>ActiveRulesCount := int (length (s_Rules (state s)))\<rparr>"

definition GetRulesBySource :: "string \<Rightarrow> Store \<Rightarrow> SRule list" where
  "GetRulesBySource source s = filter (\<lambda>r.
     if source = ''custom'' then sr_Source r \<noteq> ''crs'' else if source = ''crs'' then sr_Source r = ''crs'' else True)
     (s_Rules (state s))"

subsection \<open>Editing rules\<close>

text \<open>\<open>persist\<close> is the error of writing the state file.\<close>

definition CreateRule :: "go_error option \<Rightarrow> SRule \<Rightarrow> Store \<Rightarrow> go_error option \<times> Store" where
  "CreateRule persist rule0 s =
     (let rule = rule0\<lparr>sr_Source := if sr_Source rule0 = [] then ''custom'' else sr_Source rule0, sr_ReadOnly := False\<rparr> in
      case validateRuleIDRange (sr_Source rule) (sr_ID rule) of
        Some err \<Rightarrow> (Some err, s)
      | None \<Rightarrow>
          let st = state s in
          if \<exists>r\<in>set (s_Rules st). sr_ID r = sr_ID rule
          then (Some (''rule with ID '' @ itoa (sr_ID rule) @ '' already exists''), s)
          else
            let rules = s_Rules st @ [rule] in
            (persist, s\<lparr>state := st\<lparr>s_Rules := rules,
                          s_Stats := (s_Stats st)\<lparr>ActiveRulesCount := int (length rules)\<rparr>\<rparr>,
                        customRules := customRules s @ [rule]\<rparr>))"

definition locked :: "SRule \<Rightarrow> bool" where
  "locked r = (sr_ReadOnly r \<or> sr_Source r = ''crs'')"

fun first_rule :: "int \<Rightarrow> SRule list \<Rightarrow> (nat \<times> SRule) option" where
  "first_rule i [] = None"
| "first_rule i (r # rs) = (if sr_ID r = i then Some (0, r) else map_option (\<lambda>(k, x). (Suc k, x)) (first_rule i rs))"

definition replace_first :: "SRule \<Rightarrow> SRule list \<Rightarrow> SRule list" where
  "replace_first rule rs = (case first_rule (sr_ID rule) rs of Some (k, _) \<Rightarrow> rs[k := rule] | None \<Rightarrow> rs)"

definition remove_first :: "int \<Rightarrow> SRule list \<Rightarrow> SRule list" where
  "remove_first i rs = (case first_rule i rs of Some (k, _) \<Rightarrow> take k rs @ drop (Suc k) rs | None \<Rightarrow> rs)"

definition UpdateRule :: "go_error option \<Rightarrow> SRule \<Rightarrow> Store \<Rightarrow> go_error option \<times> Store" where
  "UpdateRule persist rule0 s = (case first_rule (sr_ID rule0) (s_Rules (state s)) of
     None \<Rightarrow> (Some (''rule with ID '' @ itoa (sr_ID rule0) @ '' not found''), s)
   | Some (k, r) \<Rightarrow>
       if locked r then (Some (''rule '' @ itoa (sr_ID rule0) @ '' is read-only''), s)
       else let rule = rule0\<lparr>sr_Source := if sr_Source rule0 = [] then sr_Source r else sr_Source rule0,
                             sr_ReadOnly := False\<rparr> in
         case validateRuleIDRange (sr_Source rule) (sr_ID rule) of
           Some err \<Rightarrow> (Some err, s)
         | None \<Rightarrow> (persist, s\<lparr>state := (state s)\<lparr>s_Rules := (s_Rules (state s))[k := rule]\<rparr>,
                                customRules := replace_first rule (customRules s)\<rparr>))"

definition DeleteRule :: "go_error option \<Rightarrow> int \<Rightarrow> Store \<Rightarrow> go_error option \<times> Store" where
  "DeleteRule persist i s = (case first_rule i (s_Rules (state s)) of
     None \<Rightarrow> (Some (''rule with ID '' @ itoa i @ '' not found''), s)
   | Some (k, r) \<Rightarrow>
       if locked r then (Some (''rule '' @ itoa i @ '' is read-only''), s)
       else let rules = take k (s_Rules (state s)) @ drop (Suc k) (s_Rules (state s)) in
         (persist, s\<lparr>state := (state s)\<lparr>s_Rules := rules,
                       s_Stats := (s_Stats (state s))\<lparr>ActiveRulesCount := int (length rules)\<rparr>\<rparr>,
                     customRules := remove_first i (customRules s)\<rparr>))"

text \<open>The outcomes of writing the temporary file, renaming it, and writing the file itself.\<close>

definition persistState :: "go_error option \<Rightarrow> go_error option \<Rightarrow> go_error option \<Rightarrow> go_error option" where
  "persistState write rename direct = (case write of
     Some err \<Rightarrow> Some (''failed to write temp file: '' @ err)
   | None \<Rightarrow> (case rename of Some err \<Rightarrow> direct | None \<Rightarrow> None))"

subsection \<open>Users\<close>

abbreviation ErrInvalidCredentials :: go_error where
  "ErrInvalidCredentials \<equiv> ''invalid username or password''"

definition check_user :: "(string \<Rightarrow> string \<Rightarrow> bool) \<Rightarrow> string \<Rightarrow> User \<Rightarrow> go_error + User" where
  "check_user verify password u =
     (if \<not> verify (u_PasswordHash u) password then Inl ErrInvalidCredentials
      else if \<not> u_Enabled u then Inl ''user account is disabled''
      else Inr u)"

text \<open>\<open>verify\<close> is \<open>auth.VerifyPassword\<close>; \<open>db\<close> answers for the database, which may be absent or fail.\<close>

definition AuthenticateUser ::
  "(string \<Rightarrow> string \<Rightarrow> bool) \<Rightarrow> (string \<Rightarrow> User option) option \<Rightarrow> string \<Rightarrow> string \<Rightarrow> Store \<Rightarrow> go_error + User" where
  "AuthenticateUser verify db username password s =
     (case (case db of Some q \<Rightarrow> q username | None \<Rightarrow> None) of
        Some u \<Rightarrow> check_user verify password u
      | None \<Rightarrow> (case find (\<lambda>u. u_Username u = username) (s_Users (state s)) of
          Some u \<Rightarrow> check_user verify password u
        | None \<Rightarrow> Inl ErrInvalidCredentials))"

definition GetUsers :: "User list option \<Rightarrow> Store \<Rightarrow> User list" where
  "GetUsers db s = map (\<lambda>u. u\<lparr>u_PasswordHash := []\<rparr>) (case db of
     Some us \<Rightarrow> if us \<noteq> [] then us else s_Users (state s)
   | None \<Rightarrow> s_Users (state s))"

text \<open>
  \<open>hash\<close> is \<open>auth.HashPassword\<close>. \<open>db\<close> gives the errors of the two statements the database runs; without a
  database the users of the state change.
\<close>

fun update_user :: "(string \<Rightarrow> go_error + string) \<Rightarrow> string \<Rightarrow> string \<Rightarrow> bool \<Rightarrow> string \<Rightarrow> User list \<Rightarrow> go_error option \<times> User list" where
  "update_user hash username role enabled newPassword [] = (Some (''user not found: '' @ username), [])"
| "update_user hash username role enabled newPassword (u # us) =
     (if u_Username u = username then
        let u = u\<lparr>u_Role := role, u_Enabled := enabled\<rparr> in
        if newPassword \<noteq> [] then (case hash newPassword of
            Inl err \<Rightarrow> (Some (''failed to hash password: '' @ err), u # us)
          | Inr h \<Rightarrow> (None, u\<lparr>u_PasswordHash := h\<rparr> # us))
        else (None, u # us)
      else case update_user hash username role enabled newPassword us of (err, us) \<Rightarrow> (err, u # us))"

definition db_update_user ::
  "(string \<Rightarrow> go_error + string) \<Rightarrow> go_error option \<Rightarrow> (string \<Rightarrow> go_error option) \<Rightarrow> string \<Rightarrow> go_error option" where
  "db_update_user hash upd updPassword newPassword = (case upd of
     Some err \<Rightarrow> Some (''failed to update user: '' @ err)
   | None \<Rightarrow>
       if newPassword = [] then None
       else case hash newPassword of
         Inl err \<Rightarrow> Some (''failed to hash password: '' @ err)
       | Inr h \<Rightarrow> map_option ((@) ''failed to update password: '') (updPassword h))"

definition UpdateUser ::
  "(string \<Rightarrow> go_error + string) \<Rightarrow> (go_error option \<times> (string \<Rightarrow> go_error option)) option \<Rightarrow>
   string \<Rightarrow> string \<Rightarrow> bool \<Rightarrow> string \<Rightarrow> Store \<Rightarrow> go_error option \<times> Store" where
  "UpdateUser hash db username role enabled newPassword s = (case db of
     Some (upd, updPassword) \<Rightarrow> (db_update_user hash upd updPassword newPassword, s)
   | None \<Rightarrow> (case update_user hash username role enabled newPassword (s_Users (state s)) of
       (err, us) \<Rightarrow> (err, s\<lparr>state := (state s)\<lparr>s_Users := us\<rparr>\<rparr>)))"

record CRSStatus =
  cs_Enabled :: bool
  cs_Version :: string
  cs_Fingerprint :: string
  cs_TotalRules :: nat
  cs_ActiveRules :: nat
  cs_LastLoadedAt :: "int option"
  cs_Source :: string

definition get_CRSStatus :: "Store \<Rightarrow> CRSStatus" where
  "get_CRSStatus s = \<lparr>cs_Enabled = crsOn s, cs_Version = if crsVersion s = [] then ''unknown'' else crsVersion s,
     cs_Fingerprint = crsFingerprint s, cs_TotalRules = length (crsRules s),
     cs_ActiveRules = length (filter sr_Enabled (crsRules s)), cs_LastLoadedAt = crsLoadedAt s, cs_Source = crsSource s\<rparr>"

subsection \<open>The audit logger of the engine\<close>

text \<open>
  The parts of an audit log that \<open>HybridAuditLogger.Write\<close> reads: the data of its messages, where a message
  or its data may be nil, and the transaction with its optional request (method and URI).
\<close>

record audit_data =
  ad_Msg :: string
  ad_ID :: int
  ad_Severity :: string

record audit_tx =
  at_ID :: string
  at_ClientIP :: string
  at_Request :: "(string \<times> string) option"

definition hybrid_entry :: "int \<Rightarrow> audit_data option option list \<Rightarrow> audit_tx option \<Rightarrow> LogEntry" where
  "hybrid_entry unixNano messages tx =
     (let (msg, ruleID, severity) = (case messages of
            Some (Some d) # _ \<Rightarrow> (ad_Msg d, ad_ID d, ad_Severity d)
          | _ \<Rightarrow> (''Unknown Event'', 0, ''info''));
          entry = \<lparr>le_ID = [], le_ClientIP = [], le_Method = [], le_URI = [], le_RuleID = ruleID, le_Action = ''Log'',
                   le_Status = [], le_Details = msg @ '' ('' @ severity @ '')''\<rparr>;
          entry = (case tx of
            None \<Rightarrow> entry
          | Some t \<Rightarrow>
              let entry = entry\<lparr>le_ID := at_ID t, le_ClientIP := at_ClientIP t\<rparr> in
              case at_Request t of None \<Rightarrow> entry | Some (m, uri) \<Rightarrow> entry\<lparr>le_Method := m, le_URI := uri\<rparr>) in
      if le_ID entry = [] then entry\<lparr>le_ID := ''audit-'' @ itoa unixNano\<rparr> else entry)"

definition hybrid_Write :: "string \<Rightarrow> int \<Rightarrow> audit_data option option list \<Rightarrow> audit_tx option \<Rightarrow> Store \<Rightarrow> Store" where
  "hybrid_Write now unixNano messages tx s = AddLog now (hybrid_entry unixNano messages tx) s"

subsection \<open>Operations as steps\<close>

inductive store_step :: "Store \<Rightarrow> Store \<Rightarrow> bool" where
  create: "store_step s (snd (CreateRule p r s))"
| update: "store_step s (snd (UpdateRule p r s))"
| delete: "store_step s (snd (DeleteRule p i s))"
| log: "store_step s (AddLog now e s)"
| audit: "store_step s (hybrid_Write now ns msgs tx s)"
| safe_log: "store_step s (AddSafeLog e s)"
| safe_request: "store_step s (IncrementSafeRequest s)"
| response_time: "store_step s (RecordResponseTime d s)"
| user: "store_step s (snd (UpdateUser hash db name role enabled pw s))"
| enable_crs: "store_step s (snd (EnableCRS f s))"
| disable_crs: "store_step s (snd (DisableCRS f s))"

abbreviation rules_of :: "Store \<Rightarrow> SRule list" where
  "rules_of s \<equiv> s_Rules (state s)"

abbreviation ids_of :: "Store \<Rightarrow> int list" where
  "ids_of s \<equiv> map sr_ID (rules_of s)"

subsection \<open>Merging\<close>

lemma put_rules_keys:
  assumes "\<forall>(k, r)\<in>set m. k = sr_ID r" "distinct (map fst m)"
  shows "\<forall>(k, r)\<in>set (put_rules rs m). k = sr_ID r" "distinct (map fst (put_rules rs m))"
proof -
  have "(\<forall>(k, r)\<in>set (put_rules rs m). k = sr_ID r) \<and> distinct (map fst (put_rules rs m))"
    using assms
  proof (induction rs arbitrary: m)
    case (Cons r rs)
    have "\<forall>(k, x)\<in>set (AList.update (sr_ID r) r m). k = sr_ID x" "distinct (map fst (AList.update (sr_ID r) r m))"
      using Cons.prems set_update_subset [of "sr_ID r" r m] by (force simp: distinct_update)+
    from Cons.IH [OF this] show ?case by (simp add: put_rules_def)
  qed (simp add: put_rules_def)
  then show "\<forall>(k, r)\<in>set (put_rules rs m). k = sr_ID r" "distinct (map fst (put_rules rs m))" by auto
qed

lemma find_append: "find P (xs @ ys) = (case find P xs of Some x \<Rightarrow> Some x | None \<Rightarrow> find P ys)"
  by (induction xs) auto

lemma map_of_put_rules:
  "map_of (put_rules rs m) i = (case find (\<lambda>r. sr_ID r = i) (rev rs) of Some r \<Rightarrow> Some r | None \<Rightarrow> map_of m i)"
  by (induction rs arbitrary: m) (auto simp: put_rules_def update_conv' find_append split: option.splits)

abbreviation merge_map :: "SRule list \<Rightarrow> SRule list \<Rightarrow> SRule list \<Rightarrow> (int \<times> SRule) list" where
  "merge_map crs custom own \<equiv> put_rules own (put_rules custom (put_rules crs []))"

lemma merge_map_keys:
  "\<forall>(k, r)\<in>set (merge_map crs custom own). k = sr_ID r" "distinct (map fst (merge_map crs custom own))"
  by (intro put_rules_keys; simp)+

lemma merge_rules_ids: "sorted_wrt (<) (map sr_ID (merge_rules crs custom own))"
proof -
  let ?m = "merge_map crs custom own"
  have "map sr_ID (map snd ?m) = map fst ?m" using merge_map_keys(1) [where own = own and custom = custom and crs = crs] by (induction ?m) auto
  then have "distinct (map sr_ID (map snd ?m))" using merge_map_keys(2) by metis
  moreover have "mset (map sr_ID (merge_rules crs custom own)) = mset (map sr_ID (map snd ?m))"
    by (simp only: merge_rules_def mset_map mset_sort)
  ultimately have "distinct (map sr_ID (merge_rules crs custom own))"
    using mset_eq_imp_distinct_iff by blast
  moreover have "sorted (map sr_ID (merge_rules crs custom own))" by (simp add: merge_rules_def)
  ultimately show ?thesis by (simp add: strict_sorted_iff)
qed

lemma merge_rules_set: "r \<in> set (merge_rules crs custom own) \<longleftrightarrow> map_of (merge_map crs custom own) (sr_ID r) = Some r"
proof -
  have "r \<in> set (merge_rules crs custom own) \<longleftrightarrow> (\<exists>k. (k, r) \<in> set (merge_map crs custom own))"
    by (force simp: merge_rules_def)
  also have "\<dots> \<longleftrightarrow> (sr_ID r, r) \<in> set (merge_map crs custom own)"
    using merge_map_keys(1) [where own = own and custom = custom and crs = crs] by auto
  also have "\<dots> \<longleftrightarrow> map_of (merge_map crs custom own) (sr_ID r) = Some r"
    using map_of_eq_Some_iff [OF merge_map_keys(2)] by simp
  finally show ?thesis .
qed

lemma find_unique:
  assumes "distinct (map f xs)" "x \<in> set xs"
  shows "find (\<lambda>y. f y = f x) (rev xs) = Some x"
proof -
  have "x \<in> set ys \<Longrightarrow> (\<And>y. y \<in> set ys \<Longrightarrow> f y = f x \<Longrightarrow> y = x) \<Longrightarrow> find (\<lambda>y. f y = f x) ys = Some x" for ys
    by (induction ys) auto
  from this [of "rev xs"] assms show ?thesis by (auto simp: distinct_map inj_on_def)
qed

lemma merge_keeps_own: "distinct (map sr_ID own) \<Longrightarrow> r \<in> set own \<Longrightarrow> r \<in> set (merge_rules crs custom own)"
  by (simp add: merge_rules_set map_of_put_rules find_unique)

subsection \<open>What the edits keep\<close>

lemma first_rule_Some:
  "first_rule i rs = Some (k, r) \<Longrightarrow> k < length rs \<and> rs ! k = r \<and> sr_ID r = i"
  by (induction rs arbitrary: k) (auto split: if_splits simp: nth_Cons')

lemma count_match_ids [simp]: "map sr_ID (count_match i now rs) = map sr_ID rs"
  by (induction rs) auto

lemma merge_keeps_unique:
  "distinct (ids_of s) \<Longrightarrow> distinct (ids_of (snd (mergeRulesFromFile f s)))"
  using merge_rules_ids strict_sorted_iff
  by (auto simp: mergeRulesFromFile_def loadCRSRules_def setCRSStatus_def Let_def split: sum.splits prod.splits if_splits)

lemma distinct_take_drop:
  assumes "distinct (map f xs)"
  shows "distinct (map f (take k xs @ drop (Suc k) xs))"
proof (cases "k < length xs")
  case True
  then have "xs = take k xs @ xs ! k # drop (Suc k) xs" by (rule id_take_nth_drop)
  then have "map f xs = map f (take k xs) @ f (xs ! k) # map f (drop (Suc k) xs)" by (metis list.map(2) map_append)
  with assms have "distinct (map f (take k xs) @ f (xs ! k) # map f (drop (Suc k) xs))" by simp
  then show ?thesis by simp
qed (use assms in simp)

lemma update_ids:
  assumes "first_rule i rs = Some (k, r)" "sr_ID x = i"
  shows "map sr_ID (rs[k := x]) = map sr_ID rs"
proof -
  from first_rule_Some [OF assms(1)] have "k < length rs" "map sr_ID rs ! k = sr_ID x" using assms(2) by auto
  then show ?thesis by (metis list_update_id map_update)
qed

lemma step_unique:
  assumes "store_step t t'" "distinct (ids_of t)"
  shows "distinct (ids_of t')"
  using assms(1)
proof cases
  case (create p r)
  then show ?thesis using assms(2) by (auto simp: CreateRule_def Let_def image_iff split: option.split)
next
  case (update p r)
  then show ?thesis using assms(2) update_ids [of "sr_ID r" "rules_of t"]
    by (simp add: UpdateRule_def Let_def split: option.split prod.split)
next
  case (delete p i)
  then show ?thesis using assms(2) distinct_take_drop [OF assms(2)]
    by (simp add: DeleteRule_def Let_def split: option.split prod.split)
next
  case (enable_crs f)
  then show ?thesis using assms(2) merge_keeps_unique [of "t\<lparr>crsOn := True\<rparr>" f] by (simp add: EnableCRS_def)
next
  case (disable_crs f)
  then show ?thesis using assms(2) merge_keeps_unique [of "t\<lparr>crsOn := False\<rparr>" f] by (simp add: DisableCRS_def)
qed (use assms(2) in \<open>simp_all add: hybrid_Write_def AddLog_def AddSafeLog_def IncrementSafeRequest_def RecordResponseTime_def
    UpdateUser_def Let_def split: prod.split option.split\<close>)

text \<open>
  (C32) No sequence of operations, neither edits nor reloads with any rule files, gives two rules the same
  identifier.
\<close>

theorem rule_ids_unique:
  assumes "store_step\<^sup>*\<^sup>* s s'" "distinct (ids_of s)"
  shows "distinct (ids_of s')"
  using assms by (induction rule: rtranclp_induct) (auto intro: step_unique)






lemma merge_keeps_rules:
  "distinct (ids_of s) \<Longrightarrow> r \<in> set (rules_of s) \<Longrightarrow> r \<in> set (rules_of (snd (mergeRulesFromFile f s)))"
  using merge_keeps_own [of "rules_of s" r]
  by (auto simp: mergeRulesFromFile_def loadCRSRules_def setCRSStatus_def Let_def split: sum.splits prod.splits if_splits)








subsection \<open>Statistics\<close>

definition balanced :: "Stats \<Rightarrow> bool" where
  "balanced st = (TotalRequests st = BlockedRequests st + FlaggedRequests st + SafeRequests st)"


lemma balanced_updates [simp]:
  "balanced (st\<lparr>ActiveRulesCount := n\<rparr>) = balanced st" "balanced (st\<lparr>TotalResponseTimeNs := d\<rparr>) = balanced st"
  "balanced (st\<lparr>ResponseCount := d\<rparr>) = balanced st"
  by (simp_all add: balanced_def)



definition stats_ok :: "Store \<Rightarrow> bool" where
  "stats_ok s = (balanced (s_Stats (state s)) \<and> length (s_Logs (state s)) \<le> 1001)"




subsection \<open>Examples\<close>

definition no_files :: rule_files where
  "no_files = \<lparr>rf_custom = Inl [], rf_crs = Inr [], rf_fingerprint = [], rf_now = 0\<rparr>"

definition example_store :: Store where
  "example_store = NewStore [] False [] [] None no_files (\<lambda>p. p)"

lemma example_store_ok:
  "set defaultRules \<subseteq> set (rules_of example_store)" "distinct (ids_of example_store)" "stats_ok example_store"
proof -
  have d: "distinct (map sr_ID defaultRules)" using defaultRules_ids by (simp add: strict_sorted_iff)
  have norm: "map (\<lambda>r. if sr_Source r = [] then r\<lparr>sr_Source := ''custom''\<rparr> else r) defaultRules = defaultRules"
    using defaultRules_read_only by (intro map_idI) (auto simp: list_all_iff)
  have s: "rules_of example_store = merge_rules [] [] defaultRules"
    by (simp add: example_store_def NewStore_def mergeRulesFromFile_def loadCustomRulesFromFile_def loadCRSRules_def no_files_def load_def
        normalizeCustomRules_def initDefaultUsers_def setCRSStatus_def norm Let_def)
  show "set defaultRules \<subseteq> set (rules_of example_store)" "distinct (ids_of example_store)"
    using merge_keeps_own [OF d] merge_rules_ids [of "[]" "[]" defaultRules] unfolding s
    by (auto simp: strict_sorted_iff)
  show "stats_ok example_store"
    by (simp add: stats_ok_def balanced_def example_store_def NewStore_def mergeRulesFromFile_def loadCustomRulesFromFile_def loadCRSRules_def no_files_def load_def
        normalizeCustomRules_def initDefaultUsers_def setCRSStatus_def empty_stats_def Let_def)
qed

definition example_rule :: SRule where
  "example_rule = default_rule 900001 [] [] [] [] [] ''pass'' 0 0 0"

definition edited_store :: Store where
  "edited_store = AddSafeLog \<lparr>le_ID = [], le_ClientIP = [], le_Method = [], le_URI = [], le_RuleID = 0, le_Action = [],
     le_Status = [], le_Details = []\<rparr> (snd (DeleteRule None 900001 (snd (UpdateRule None example_rule example_store))))"

lemma example_edits: "store_step\<^sup>*\<^sup>* example_store edited_store"
  unfolding edited_store_def
  by (rule rtranclp.rtrancl_into_rtrancl, rule rtranclp.rtrancl_into_rtrancl, rule r_into_rtranclp)
    (rule store_step.update store_step.delete store_step.safe_log)+

theorem rule_ids_unique_witness: "distinct (ids_of edited_store)"
  using rule_ids_unique [OF example_edits] example_store_ok by blast



subsection \<open>Deviations\<close>

text \<open>Disabling the CRS leaves its rules in the list, since the merge keeps what the store already has.\<close>

lemma DisableCRS_keeps_crs_rules:
  assumes "distinct (ids_of s)" "r \<in> set (rules_of s)" "sr_Source r = ''crs''"
  shows "r \<in> set (GetRulesBySource ''crs'' (snd (DisableCRS f s)))"
  using merge_keeps_rules [of "s\<lparr>crsOn := False\<rparr>" r f] assms by (simp add: GetRulesBySource_def DisableCRS_def)

text \<open>The log grows to one entry more than the 1000 of the comment.\<close>

lemma log_keeps_1001: "length logs = 1000 \<Longrightarrow> length (push_log e logs) = 1001"
  by (simp add: push_log_def)

text \<open>A rule created with the source \<open>crs\<close> can never be changed or deleted again.\<close>

lemma created_crs_rule_locked:
  assumes "sr_Source r = ''crs''" "900000 \<le> sr_ID r" "sr_ID r \<le> 999999" "sr_ID r \<notin> set (ids_of s)"
  shows "\<exists>r'\<in>set (rules_of (snd (CreateRule None r s))). sr_ID r' = sr_ID r \<and> locked r'"
proof -
  have "\<not> (\<exists>x\<in>set (rules_of s). sr_ID x = sr_ID r)" using assms(4) by (auto simp: image_iff)
  with assms(1-3) show ?thesis by (simp add: CreateRule_def validateRuleIDRange_def locked_def Let_def)
qed

text \<open>
  The audit logger records every transaction with the action \<open>Log\<close>, so one that the engine denied is counted
  as flagged and never as blocked.
\<close>

lemma hybrid_entry_flagged: "le_Status (hybrid_entry ns msgs tx) = []" "entry_status (hybrid_entry ns msgs tx) = ''Flagged''"
proof -
  have "le_Status (hybrid_entry ns msgs tx) = []" "le_Action (hybrid_entry ns msgs tx) = ''Log''"
    by (auto simp: hybrid_entry_def Let_def split: list.split option.split prod.split)
  moreover have "to_lower ''Log'' = ''log''" by code_simp
  ultimately show "le_Status (hybrid_entry ns msgs tx) = []" "entry_status (hybrid_entry ns msgs tx) = ''Flagged''"
    by (simp_all add: entry_status_def)
qed

lemma audit_never_counts_blocked:
  "BlockedRequests (s_Stats (state (hybrid_Write now ns msgs tx s))) = BlockedRequests (s_Stats (state s))"
  by (simp add: hybrid_Write_def AddLog_def hybrid_entry_flagged count_request_def Let_def)

end
