(* ===== verification/Operators.thy ===== *)
theory Operators
  imports Engine_Props Go_Net
begin

text \<open>
  The operators of \<open>internal/operators\<close> and their registry. A factory gets the options of the rule and
  gives an operator of the rule engine or an error; an operator is what its \<open>Evaluate\<close> does to a
  transaction, \<open>None\<close> for a panic. \<open>memoize.Do\<close> of the default build just calls its function.

  What the operators call outside this code is the record \<open>externals\<close>: the regular expression engines,
  the Aho-Corasick matcher, libinjection, DNS, the program of \<open>inspectFile\<close>, the JSON schema validator
  and the file system.
\<close>

subsection \<open>Options and externals\<close>

record OperatorOptions =
  oo_Arguments :: string
  oo_Path :: "string list"
  oo_Datasets :: "string \<rightharpoonup> string list"

text \<open>A compiled expression; \<open>FindStringSubmatch\<close> gives the empty list where nothing matches.\<close>

record rx_engine =
  rx_FindStringSubmatch :: "string \<Rightarrow> string list"
  rx_MatchString :: "string \<Rightarrow> bool"
  rx_FindAllStringSubmatch :: "string \<Rightarrow> nat \<Rightarrow> string list list"
  rx_SubexpNames :: "string list"

datatype file_answer = FileContent string | FileNotExist go_error | FileError go_error

datatype dns_answer = DNSTimeout | DNSError | DNSHosts "string list" "string list option"

record externals =
  regexp_Compile :: "string \<Rightarrow> go_error + rx_engine"
  binaryregexp_Compile :: "string \<Rightarrow> go_error + rx_engine"
  ahocorasick_Build :: "string list \<Rightarrow> string \<Rightarrow> (nat \<times> nat) list"
  IsSQLi :: "string \<Rightarrow> bool \<times> string"
  IsXSS :: "string \<Rightarrow> bool"
  dns_Lookup :: "string \<Rightarrow> dns_answer"
  exec_Output :: "string \<Rightarrow> string \<Rightarrow> string option"
  schema_Compile :: "string \<Rightarrow> go_error + (string \<Rightarrow> bool)"
  fs_ReadFile :: "string \<Rightarrow> file_answer"

type_synonym OperatorFactory = "externals \<Rightarrow> OperatorOptions \<Rightarrow> go_error + operator"

subsection \<open>Operators with a macro\<close>

definition macro_operator :: "(string \<Rightarrow> string \<Rightarrow> bool) \<Rightarrow> OperatorFactory" where
  "macro_operator test env options = (case NewMacro (oo_Arguments options) of
     Inl err \<Rightarrow> Inl err
   | Inr m \<Rightarrow> Inr (\<lambda>tx value. map_option (\<lambda>data. (test data value, tx)) (Expand (Collection tx) m)))"

definition newBeginsWith :: OperatorFactory where
  "newBeginsWith = macro_operator (\<lambda>data value. has_prefix value data)"

definition newContains :: OperatorFactory where
  "newContains = macro_operator (\<lambda>data value. contains value data)"

definition newEndsWith :: OperatorFactory where
  "newEndsWith = macro_operator (\<lambda>data value. has_suffix value data)"

definition newWithin :: OperatorFactory where
  "newWithin = macro_operator (\<lambda>data value. contains data value)"

definition newStrEq :: OperatorFactory where
  "newStrEq = macro_operator (\<lambda>data value. data = value)"

text \<open>The numeric operators use what \<open>strconv.Atoi\<close> returns beside its error.\<close>

definition newEq :: OperatorFactory where
  "newEq = macro_operator (\<lambda>data value. fst (atoi data) = fst (atoi value))"

definition newGE :: OperatorFactory where
  "newGE = macro_operator (\<lambda>data value. fst (atoi value) \<ge> fst (atoi data))"

definition newGT :: OperatorFactory where
  "newGT = macro_operator (\<lambda>data value. fst (atoi data) < fst (atoi value))"

definition newLE :: OperatorFactory where
  "newLE = macro_operator (\<lambda>data value. fst (atoi value) \<le> fst (atoi data))"

definition newLT :: OperatorFactory where
  "newLT = macro_operator (\<lambda>data value. fst (atoi value) < fst (atoi data))"

subsection \<open>Constant operators\<close>

definition unconditionalMatch :: operator where
  "unconditionalMatch tx value = Some (True, tx)"

definition newUnconditionalMatch :: OperatorFactory where
  "newUnconditionalMatch env options = Inr unconditionalMatch"

definition newNoMatch :: OperatorFactory where
  "newNoMatch env options = Inr (\<lambda>tx value. Some (False, tx))"

definition newGeoLookup :: OperatorFactory where
  "newGeoLookup env options = Inr unconditionalMatch"

subsection \<open>Validation\<close>

definition validateByte :: "int \<Rightarrow> go_error option" where
  "validateByte b = (if b < 0 \<or> b > 255 then Some (''invalid byte '' @ itoa b) else None)"

definition parse_byte :: "string \<Rightarrow> go_error + nat" where
  "parse_byte s = (case atoi s of
     (b, Some err) \<Rightarrow> Inl (''strconv.Atoi: parsing '' @ s)
   | (b, None) \<Rightarrow> (case validateByte b of Some err \<Rightarrow> Inl err | None \<Rightarrow> Inr (nat b)))"

text \<open>The bytes that one element of the list allows.\<close>

definition byte_range :: "string \<Rightarrow> go_error + nat list" where
  "byte_range br0 = (case str_cut (TrimSpace br0) CHR ''-'' of (start, stop, ok) \<Rightarrow>
     if \<not> ok then (case parse_byte start of Inl err \<Rightarrow> Inl err | Inr b \<Rightarrow> Inr [b])
     else case parse_byte start of
       Inl err \<Rightarrow> Inl err
     | Inr s \<Rightarrow> (case parse_byte stop of Inl err \<Rightarrow> Inl err | Inr e \<Rightarrow> Inr [s..<Suc e]))"

fun byte_ranges :: "string list \<Rightarrow> go_error + nat list" where
  "byte_ranges [] = Inr []"
| "byte_ranges (br # brs) = (case byte_range br of
     Inl err \<Rightarrow> Inl err
   | Inr bs \<Rightarrow> (case byte_ranges brs of Inl err \<Rightarrow> Inl err | Inr cs \<Rightarrow> Inr (bs @ cs)))"

definition validateByteRange :: "nat list \<Rightarrow> operator" where
  "validateByteRange validBytes tx value = Some (list_ex (\<lambda>c. ord c \<notin> set validBytes) value, tx)"

definition newValidateByteRange :: OperatorFactory where
  "newValidateByteRange env options =
     (if oo_Arguments options = [] then Inr unconditionalMatch
      else case byte_ranges (split CHR '','' (oo_Arguments options)) of
        Inl err \<Rightarrow> Inl err
      | Inr bs \<Rightarrow> Inr (validateByteRange bs))"

text \<open>\<open>validateURLEncodingInternal\<close> on the rest of the input behind \<open>i\<close>.\<close>

fun validateURLEncoding_loop :: "string \<Rightarrow> int" where
  "validateURLEncoding_loop [] = 1"
| "validateURLEncoding_loop (c # s) =
     (if c = CHR ''%'' then (case s of
        c1 # c2 # r \<Rightarrow> if ValidHex c1 \<and> ValidHex c2 then validateURLEncoding_loop r else - 2
      | _ \<Rightarrow> - 3)
      else validateURLEncoding_loop s)"

definition validateURLEncodingInternal :: "string \<Rightarrow> int" where
  "validateURLEncodingInternal input = (if input = [] then - 1 else validateURLEncoding_loop input)"

definition newValidateURLEncoding :: OperatorFactory where
  "newValidateURLEncoding env options =
     Inr (\<lambda>tx value. Some (value \<noteq> [] \<and> validateURLEncodingInternal value \<noteq> 1, tx))"

definition valid_utf8 :: "string \<Rightarrow> bool" where
  "valid_utf8 s = list_all (\<lambda>(r, w). \<not> (r = rune_error \<and> w = 1)) (range_runes s)"

definition newValidateUTF8Encoding :: OperatorFactory where
  "newValidateUTF8Encoding env options = Inr (\<lambda>tx value. Some (\<not> valid_utf8 value, tx))"

subsection \<open>National identity numbers\<close>

text \<open>The loop over the digits of \<open>rut\<close>, last digit first.\<close>

fun nidCl_sum :: "nat \<Rightarrow> nat \<Rightarrow> nat \<Rightarrow> nat" where
  "nidCl_sum rut acc factor =
     (if rut = 0 then acc
      else nidCl_sum (rut div 10) (acc + rut mod 10 * factor) (if factor = 7 then 2 else factor + 1))"

declare nidCl_sum.simps [simp del]

definition nidCl :: "string \<Rightarrow> bool option" where
  "nidCl nid0 =
     (if length nid0 < 8 then Some False
      else let nid = filter (\<lambda>c. is_digit c \<or> c = CHR ''k'') (to_lower nid0) in
        if nid = [] then None
        else let rut = nat (fst (atoi (butlast nid)));
                 v = nidCl_sum rut 0 2 mod 11;
                 ndv = (if v = 0 then ''0'' else if v = 1 then ''k'' else itoa (int (11 - v))) in
          Some (ndv = [last nid]))"

fun nidUs_loop :: "int \<Rightarrow> int list \<Rightarrow> bool \<Rightarrow> bool \<Rightarrow> bool \<times> bool" where
  "nidUs_loop prev [] sequence equals = (sequence, equals)"
| "nidUs_loop prev (d # ds) sequence equals =
     nidUs_loop d ds (sequence \<and> d = prev + 1) (equals \<and> prev = d)"

definition nidUs :: "string \<Rightarrow> bool option" where
  "nidUs nid0 =
     (let nid = filter is_digit nid0 in
      if length nid < 9 then Some False
      else let area = fst (atoi (take 3 nid)); grp = fst (atoi (take 2 (drop 3 nid))); serial = fst (atoi (take 4 (drop 5 nid))) in
        if area = 0 \<or> grp = 0 \<or> serial = 0 \<or> area \<ge> 740 \<or> area = 666 then Some False
        else let ds = map (\<lambda>c. int (digit_val c)) nid; (sequence, equals) = nidUs_loop (hd ds) (tl ds) True True in
          Some (\<not> sequence \<and> \<not> equals))"

text \<open>One match of the expression: the first group is its whole text.\<close>

definition validateNid_match :: "(string \<Rightarrow> bool option) \<Rightarrow> nat \<times> string list \<Rightarrow> bool \<times> Transaction \<Rightarrow> (bool \<times> Transaction) option" where
  "validateNid_match fn im st = do {
     m0 \<leftarrow> at (snd im) 0;
     ok \<leftarrow> fn m0;
     if ok then map_option (\<lambda>tx. (True, tx)) (CaptureField (int (fst im)) m0 (snd st)) else Some st
   }"

definition validateNid :: "(string \<Rightarrow> bool option) \<Rightarrow> rx_engine \<Rightarrow> operator" where
  "validateNid fn re tx value =
     ofold (validateNid_match fn) (enumerate 0 (take 10 (rx_FindAllStringSubmatch re value 11))) (False, tx)"

definition newValidateNID :: OperatorFactory where
  "newValidateNID env options = (case str_cut (oo_Arguments options) CHR '' '' of (typ, expr, ok) \<Rightarrow>
     if \<not> ok \<or> typ \<notin> {''cl'', ''us''} then Inl ''invalid @validateNid argument''
     else case regexp_Compile env expr of
       Inl err \<Rightarrow> Inl err
     | Inr re \<Rightarrow> Inr (validateNid (if typ = ''cl'' then nidCl else nidUs) re))"

subsection \<open>Regular expressions\<close>

definition capture_groups :: "nat \<Rightarrow> string list \<Rightarrow> Transaction \<Rightarrow> Transaction option" where
  "capture_groups n groups tx = ofold (\<lambda>(i, c). CaptureField (int i) c) (enumerate 0 (take n groups)) tx"

definition rx_Evaluate :: "rx_engine \<Rightarrow> operator" where
  "rx_Evaluate re tx value =
     (if tx_Capture tx then
        let m = rx_FindStringSubmatch re value in
        if m = [] then Some (False, tx) else map_option (\<lambda>tx. (True, tx)) (capture_groups 9 m tx)
      else Some (rx_MatchString re value, tx))"

text \<open>The expression with its byte escapes decoded; \<open>strconv.UnquoteChar\<close> decodes \<open>x\<close> with two digits.\<close>

fun decode_escapes :: "string \<Rightarrow> string" where
  "decode_escapes [] = []"
| "decode_escapes (c # s) =
     (if c \<noteq> CHR 0x5C then c # decode_escapes s
      else case s of
        x # c1 # c2 # r \<Rightarrow>
          if x = CHR ''x'' \<and> ValidHex c1 \<and> ValidHex c2 then char_of (16 * hex_val c1 + hex_val c2) # decode_escapes r
          else c # decode_escapes s
      | _ \<Rightarrow> c # s)"

definition matchesArbitraryBytes :: "string \<Rightarrow> bool" where
  "matchesArbitraryBytes expr = (\<not> valid_utf8 (decode_escapes expr))"

definition newBinaryRX :: OperatorFactory where
  "newBinaryRX env options = (case binaryregexp_Compile env (oo_Arguments options) of
     Inl err \<Rightarrow> Inl err
   | Inr re \<Rightarrow> Inr (rx_Evaluate re))"

definition newRX :: OperatorFactory where
  "newRX env options =
     (let content = ''(?sm)'' @ oo_Arguments options in
      if matchesArbitraryBytes content then newBinaryRX env options
      else case regexp_Compile env content of Inl err \<Rightarrow> Inl err | Inr re \<Rightarrow> Inr (rx_Evaluate re))"

text \<open>The tokens \<open>{name}\<close> of a path become named groups, one after the other.\<close>

definition escape_slashes :: "string \<Rightarrow> string" where
  "escape_slashes s = concat (map (\<lambda>c. if c = CHR ''/'' then [CHR 0x5C, c] else [c]) s)"

fun path_tokens :: "string \<Rightarrow> string" where
  "path_tokens [] = []"
| "path_tokens (c # s) =
     (if c = CHR ''{'' then
        (let name = takeWhile (\<lambda>x. x \<noteq> CHR ''}'') s; rest = drop (length name) s in
         if name \<noteq> [] \<and> rest \<noteq> [] then ''(?P<'' @ name @ ''>[^?/]+)'' @ path_tokens (tl rest)
         else c # path_tokens s)
      else c # path_tokens s)"

definition restpath :: "rx_engine \<Rightarrow> operator" where
  "restpath re tx value =
     (let m = rx_FindStringSubmatch re value in
      if m = [] then Some (False, tx)
      else map_option (\<lambda>tx. (True, tx)) (ofold (\<lambda>(i, name) tx.
        if i \<noteq> 0 \<and> name \<noteq> [] then do { s \<leftarrow> at m i; map_SetIndex_var VArgsPath name 0 s tx } else Some tx)
        (enumerate 0 (rx_SubexpNames re)) tx))"

definition newRESTPath :: OperatorFactory where
  "newRESTPath env options = (case regexp_Compile env (path_tokens (escape_slashes (oo_Arguments options))) of
     Inl err \<Rightarrow> Inl err
   | Inr re \<Rightarrow> Inr (restpath re))"

subsection \<open>Phrase matching\<close>

definition pmEvaluate :: "(string \<Rightarrow> (nat \<times> nat) list) \<Rightarrow> operator" where
  "pmEvaluate matcher tx value =
     (let ms = matcher value in
      if \<not> tx_Capture tx then Some (ms \<noteq> [], tx)
      else map_option (\<lambda>tx. (ms \<noteq> [], tx)) (ofold (\<lambda>(i, start, stop) tx. do {
        s \<leftarrow> slice value start stop; CaptureField (int i) s tx }) (enumerate 0 (take 10 ms)) tx))"

definition newPM :: OperatorFactory where
  "newPM env options = Inr (pmEvaluate (ahocorasick_Build env (split CHR '' '' (to_lower (oo_Arguments options)))))"

definition newPMFromDataset :: OperatorFactory where
  "newPMFromDataset env options = (case oo_Datasets options (oo_Arguments options) of
     None \<Rightarrow> Inl (''dataset '' @ oo_Arguments options @ '' not found'')
   | Some dataset \<Rightarrow> Inr (pmEvaluate (ahocorasick_Build env dataset)))"

text \<open>The lines of \<open>bufio.Scanner\<close>, which stops without a word at a line of 64 KiB.\<close>

definition drop_cr :: "string \<Rightarrow> string" where
  "drop_cr l = (if l \<noteq> [] \<and> last l = CHR 0x0D then butlast l else l)"

definition scan_lines :: "string \<Rightarrow> string list" where
  "scan_lines content =
     (let ls = split CHR 0x0A content; ls = (if last ls = [] then butlast ls else ls) in
      map drop_cr (takeWhile (\<lambda>l. length l < 65536) ls))"

definition data_lines :: "string \<Rightarrow> string list" where
  "data_lines content = filter (\<lambda>l. l \<noteq> [] \<and> hd l \<noteq> CHR ''#'') (map TrimSpace (scan_lines content))"

text \<open>\<open>loadFromFile\<close> with the file system of the operating system; a missing file tries the next directory.\<close>

fun load_from_dirs :: "(string \<Rightarrow> file_answer) \<Rightarrow> string \<Rightarrow> string list \<Rightarrow> go_error \<Rightarrow> go_error + string" where
  "load_from_dirs rd fname [] err = Inl err"
| "load_from_dirs rd fname (p # dirs) err =
     (case rd (path_clean (if p = [] then fname else p @ ''/'' @ fname)) of
        FileContent c \<Rightarrow> Inr c
      | FileNotExist e \<Rightarrow> load_from_dirs rd fname dirs e
      | FileError e \<Rightarrow> Inl e)"

definition loadFromFile :: "externals \<Rightarrow> string \<Rightarrow> string list \<Rightarrow> go_error + string" where
  "loadFromFile env fname dirs =
     (if has_prefix fname ''/'' then (case fs_ReadFile env fname of
        FileContent c \<Rightarrow> Inr c
      | FileNotExist e \<Rightarrow> Inl e
      | FileError e \<Rightarrow> Inl e)
      else if dirs = [] then Inl ''empty dirs''
      else load_from_dirs (fs_ReadFile env) fname dirs [])"

definition newPMFromFile :: OperatorFactory where
  "newPMFromFile env options = (case loadFromFile env (oo_Arguments options) (oo_Path options) of
     Inl err \<Rightarrow> Inl err
   | Inr content \<Rightarrow> Inr (pmEvaluate (ahocorasick_Build env (map to_lower (data_lines content)))))"

subsection \<open>Addresses\<close>

definition complete_cidr :: "string \<Rightarrow> string" where
  "complete_cidr sb =
     (if contains sb '':'' \<and> \<not> contains sb ''/'' then sb @ ''/128''
      else if contains sb ''.'' \<and> \<not> contains sb ''/'' then sb @ ''/32''
      else sb)"

definition ip_subnets :: "string \<Rightarrow> IPNet list" where
  "ip_subnets content = List.map_filter (\<lambda>sb. let sb = TrimSpace sb in
     if sb = [] then None else ParseCIDR (complete_cidr sb)) (split CHR '','' content)"

definition ipMatch :: "IPNet list \<Rightarrow> operator" where
  "ipMatch subnets tx value =
     (let ip = (case ParseIP value of Some ip \<Rightarrow> ip | None \<Rightarrow> []) in Some (list_ex (\<lambda>n. Contains n ip) subnets, tx))"

definition newIPMatch :: OperatorFactory where
  "newIPMatch env options = Inr (ipMatch (ip_subnets (oo_Arguments options)))"

definition newIPMatchFromFile :: OperatorFactory where
  "newIPMatchFromFile env options = (case loadFromFile env (oo_Arguments options) (oo_Path options) of
     Inl err \<Rightarrow> Inl err
   | Inr content \<Rightarrow> Inr (ipMatch (ip_subnets (concat (map (\<lambda>l. CHR '','' # l) (data_lines content))))))"

definition newIPMatchFromDataset :: OperatorFactory where
  "newIPMatchFromDataset env options = (case oo_Datasets options (oo_Arguments options) of
     None \<Rightarrow> Inl (''dataset '' @ oo_Arguments options @ '' not found'')
   | Some dataset \<Rightarrow>
       if dataset = [] then Inl (''dataset '' @ oo_Arguments options @ '' not found'')
       else Inr (ipMatch (ip_subnets (join_with CHR '','' dataset))))"

subsection \<open>External services\<close>

definition newDetectSQLi :: OperatorFactory where
  "newDetectSQLi env options = Inr (\<lambda>tx value. case IsSQLi env value of
     (False, _) \<Rightarrow> Some (False, tx)
   | (True, fingerprint) \<Rightarrow> map_option (\<lambda>tx. (True, tx)) (CaptureField 0 fingerprint tx))"

definition newDetectXSS :: OperatorFactory where
  "newDetectXSS env options = Inr (\<lambda>tx value. Some (IsXSS env value, tx))"

text \<open>The lookup in time; a lookup that the timeout overtakes gives no match.\<close>

definition newRBL :: OperatorFactory where
  "newRBL env options = Inr (\<lambda>tx ipAddr. case dns_Lookup env (ipAddr @ ''.'' @ oo_Arguments options) of
     DNSTimeout \<Rightarrow> Some (False, tx)
   | DNSError \<Rightarrow> Some (False, tx)
   | DNSHosts hosts txt \<Rightarrow>
       if hosts = [] then Some (True, tx)
       else case txt of
         None \<Rightarrow> Some (False, tx)
       | Some [] \<Rightarrow> Some (True, tx)
       | Some (status # _) \<Rightarrow>
           map_option (\<lambda>tx. (True, tx)) (CaptureField 0 status
             (map_put VTX (map_Set ''httpbl_msg'' [status] (map_of_var VTX tx)) tx)))"

definition newInspectFile :: OperatorFactory where
  "newInspectFile env options = Inr (\<lambda>tx value. Some (case exec_Output env (oo_Arguments options) value of
     None \<Rightarrow> False
   | Some out \<Rightarrow> out \<noteq> [] \<and> hd out \<noteq> CHR ''1'', tx))"

definition file_ext :: "string \<Rightarrow> string" where
  "file_ext path = (let f = rev (takeWhile (\<lambda>c. c \<noteq> CHR ''/'') (rev path)) in
     if CHR ''.'' \<in> set f then CHR ''.'' # rev (takeWhile (\<lambda>c. c \<noteq> CHR ''.'') (rev f)) else [])"

definition schema_body :: "Transaction \<Rightarrow> string \<Rightarrow> string" where
  "schema_body tx key = (case map_Get (map_of_var VTX tx) key of s # _ \<Rightarrow> s | [] \<Rightarrow> [])"

definition validateSchema :: "(string \<Rightarrow> bool) \<Rightarrow> operator" where
  "validateSchema isValidJSON tx content =
     (let body = (if tx_lastPhase tx \<ge> PhaseResponseBody then schema_body tx ''json_response_body'' else []);
          body = (if body = [] \<and> tx_lastPhase tx \<ge> PhaseRequestBody then schema_body tx ''json_request_body'' else body) in
      if body \<noteq> [] then Some (\<not> isValidJSON body, tx)
      else if content = [] then Some (False, tx)
      else Some (\<not> isValidJSON content, tx))"

definition NewValidateSchema :: OperatorFactory where
  "NewValidateSchema env options =
     (let schemaPath = oo_Arguments options; ext = to_lower (file_ext schemaPath) in
      if schemaPath = [] then Inl ''missing schema file path''
      else if ext \<noteq> ''.json'' then Inl (''unsupported schema type: '' @ ext @ '', only JSON is supported'')
      else case fs_ReadFile env schemaPath of
        FileNotExist e \<Rightarrow> Inl (''reading schema from root FS: '' @ e)
      | FileError e \<Rightarrow> Inl (''reading schema from root FS: '' @ e)
      | FileContent c \<Rightarrow> (case schema_Compile env c of Inl err \<Rightarrow> Inl err | Inr isValid \<Rightarrow> Inr (validateSchema isValid)))"

subsection \<open>Registry\<close>

definition operators :: "(string \<times> OperatorFactory) list" where
  "operators =
     [(''beginsWith'', newBeginsWith), (''contains'', newContains), (''detectSQLi'', newDetectSQLi),
      (''detectXSS'', newDetectXSS), (''endsWith'', newEndsWith), (''eq'', newEq), (''ge'', newGE),
      (''geoLookup'', newGeoLookup), (''gt'', newGT), (''inspectFile'', newInspectFile), (''ipMatch'', newIPMatch),
      (''ipMatchFromDataset'', newIPMatchFromDataset), (''ipMatchFromFile'', newIPMatchFromFile),
      (''ipMatchF'', newIPMatchFromFile), (''le'', newLE), (''lt'', newLT), (''noMatch'', newNoMatch), (''pm'', newPM),
      (''pmFromDataset'', newPMFromDataset), (''pmFromFile'', newPMFromFile), (''pmf'', newPMFromFile),
      (''rbl'', newRBL), (''restpath'', newRESTPath), (''rx'', newRX), (''streq'', newStrEq),
      (''unconditionalMatch'', newUnconditionalMatch), (''validateByteRange'', newValidateByteRange),
      (''validateNid'', newValidateNID), (''validateSchema'', NewValidateSchema),
      (''validateUrlEncoding'', newValidateURLEncoding), (''validateUtf8Encoding'', newValidateUTF8Encoding),
      (''within'', newWithin)]"

definition operator_Get :: "externals \<Rightarrow> string \<Rightarrow> OperatorOptions \<Rightarrow> go_error + operator" where
  "operator_Get env name options = (case map_of operators name of
     Some f \<Rightarrow> f env options
   | None \<Rightarrow> Inl (''operator '' @ name @ '' not found''))"

subsection \<open>Operators change variables only\<close>

definition vars_step :: "Transaction \<Rightarrow> Transaction \<Rightarrow> bool" where
  "vars_step tx tx' = (\<exists>vs. (vars_ok (tx_variables tx) \<longrightarrow> vars_ok vs) \<and> tx' = tx\<lparr>tx_variables := vs\<rparr>)"

lemma vars_step_refl [simp]: "vars_step tx tx"
  unfolding vars_step_def by (rule exI [of _ "tx_variables tx"]) simp

lemma vars_step_trans: "vars_step a b \<Longrightarrow> vars_step b c \<Longrightarrow> vars_step a c"
  by (auto simp: vars_step_def)

lemma vars_step_SetIndex: "map_SetIndex_var v k i s tx = Some tx' \<Longrightarrow> vars_step tx tx'"
  using vars_ok_updates(5) [of tx v k i s tx'] by (auto simp: vars_step_def map_SetIndex_var_def map_put_def)

lemma vars_step_CaptureField: "CaptureField i s tx = Some tx' \<Longrightarrow> vars_step tx tx'"
  by (auto simp: CaptureField_def split: if_splits dest: vars_step_SetIndex)

lemma vars_step_Set: "vars_step tx (map_put v (map_Set k ss (map_of_var v tx)) tx)"
  using vars_ok_updates(2) [of tx v k ss] by (auto simp: vars_step_def map_put_def)

lemma vars_step_ofold:
  assumes "ofold f xs s = Some s'" "\<And>x s s'. x \<in> set xs \<Longrightarrow> f x s = Some s' \<Longrightarrow> vars_step (g s) (g s')"
  shows "vars_step (g s) (g s')"
  using ofold_invariant [OF assms(1), of "\<lambda>t. vars_step (g s) (g t)"] assms(2) vars_step_trans by fastforce

lemma captures_only_iff: "captures_only op \<longleftrightarrow> (\<forall>tx s b tx'. op tx s = Some (b, tx') \<longrightarrow> vars_step tx tx')"
  by (simp add: captures_only_def vars_step_def)

lemma macro_operator_captures: "macro_operator test env options = Inr op \<Longrightarrow> captures_only op"
  by (auto simp: macro_operator_def captures_only_iff split: sum.splits)

lemma capture_groups_step: "capture_groups n groups tx = Some tx' \<Longrightarrow> vars_step tx tx'"
  unfolding capture_groups_def by (erule vars_step_ofold [where g = "\<lambda>tx. tx"]) (auto dest: vars_step_CaptureField)

lemma rx_captures: "captures_only (rx_Evaluate re)"
  by (auto simp: captures_only_iff rx_Evaluate_def Let_def split: if_splits dest: capture_groups_step)

lemma pm_captures: "captures_only (pmEvaluate matcher)"
proof -
  have "ofold (\<lambda>(i, start, stop) tx. Option.bind (slice s0 start stop) (\<lambda>s. CaptureField (int i) s tx)) xs tx = Some tx' \<Longrightarrow>
      vars_step tx tx'" for s0 :: string and xs tx tx'
    by (erule vars_step_ofold [where g = "\<lambda>tx. tx"]) (auto simp: bind_eq_Some_conv dest: vars_step_CaptureField)
  then show ?thesis by (auto simp: captures_only_iff pmEvaluate_def Let_def split: if_splits)
qed

lemma validateNid_captures: "captures_only (validateNid fn re)"
proof -
  have "vars_step (snd st) (snd st')" if "validateNid_match fn im st = Some st'" for im st st'
    using that by (auto simp: validateNid_match_def bind_eq_Some_conv split: if_splits dest: vars_step_CaptureField)
  then show ?thesis
    unfolding captures_only_iff validateNid_def using vars_step_ofold [where g = snd and f = "validateNid_match fn"]
    by (metis snd_conv)
qed

lemma restpath_captures: "captures_only (restpath re)"
proof -
  have "ofold (\<lambda>(i, name) tx. if i \<noteq> 0 \<and> name \<noteq> [] then Option.bind (at m i) (\<lambda>s. map_SetIndex_var VArgsPath name 0 s tx)
      else Some tx) xs tx = Some tx' \<Longrightarrow> vars_step tx tx'" for m xs tx tx'
    by (erule vars_step_ofold [where g = "\<lambda>tx. tx"]) (auto simp: bind_eq_Some_conv split: if_splits dest: vars_step_SetIndex)
  then show ?thesis by (auto simp: captures_only_iff restpath_def Let_def split: if_splits)
qed

lemma pure_captures: "(\<And>tx s. \<exists>b. op tx s = Some (b, tx)) \<Longrightarrow> captures_only op"
  unfolding captures_only_iff by (metis option.inject prod.inject vars_step_refl)

lemmas factory_defs = newBeginsWith_def newContains_def newEndsWith_def newWithin_def newStrEq_def newEq_def newGE_def newGT_def
  newLE_def newLT_def

lemma pure_factories:
  "newUnconditionalMatch env options = Inr op \<Longrightarrow> captures_only op" "newNoMatch env options = Inr op \<Longrightarrow> captures_only op"
  "newGeoLookup env options = Inr op \<Longrightarrow> captures_only op" "newValidateByteRange env options = Inr op \<Longrightarrow> captures_only op"
  "newValidateURLEncoding env options = Inr op \<Longrightarrow> captures_only op" "newValidateUTF8Encoding env options = Inr op \<Longrightarrow> captures_only op"
  "newIPMatch env options = Inr op \<Longrightarrow> captures_only op" "newIPMatchFromFile env options = Inr op \<Longrightarrow> captures_only op"
  "newIPMatchFromDataset env options = Inr op \<Longrightarrow> captures_only op" "newDetectXSS env options = Inr op \<Longrightarrow> captures_only op"
  "newInspectFile env options = Inr op \<Longrightarrow> captures_only op" "NewValidateSchema env options = Inr op \<Longrightarrow> captures_only op"
  by (auto simp: newUnconditionalMatch_def newNoMatch_def newGeoLookup_def newValidateByteRange_def newValidateURLEncoding_def
      newValidateUTF8Encoding_def newIPMatch_def newIPMatchFromFile_def newIPMatchFromDataset_def newDetectXSS_def newInspectFile_def
      NewValidateSchema_def unconditionalMatch_def validateByteRange_def ipMatch_def validateSchema_def Let_def
      intro!: pure_captures split: if_splits sum.splits option.splits file_answer.splits)

lemma capturing_factories:
  "newDetectSQLi env options = Inr op \<Longrightarrow> captures_only op" "newRBL env options = Inr op \<Longrightarrow> captures_only op"
  "newPM env options = Inr op \<Longrightarrow> captures_only op" "newPMFromDataset env options = Inr op \<Longrightarrow> captures_only op"
  "newPMFromFile env options = Inr op \<Longrightarrow> captures_only op" "newRESTPath env options = Inr op \<Longrightarrow> captures_only op"
  "newRX env options = Inr op \<Longrightarrow> captures_only op" "newValidateNID env options = Inr op \<Longrightarrow> captures_only op"
proof -
  show "newDetectSQLi env options = Inr op \<Longrightarrow> captures_only op"
    by (auto simp: newDetectSQLi_def captures_only_iff split: prod.splits bool.splits dest: vars_step_CaptureField)
  show "newRBL env options = Inr op \<Longrightarrow> captures_only op"
    by (auto simp: newRBL_def captures_only_iff split: dns_answer.splits option.splits list.splits if_splits
        dest!: vars_step_CaptureField intro: vars_step_trans [OF vars_step_Set])
qed (auto simp: newPM_def newPMFromDataset_def newPMFromFile_def newRESTPath_def newRX_def newBinaryRX_def newValidateNID_def Let_def
    split: option.splits sum.splits if_splits prod.splits intro: pm_captures restpath_captures rx_captures validateNid_captures)

text \<open>
  (C18) Every operator the registry can build changes nothing of a transaction but its variables, and keeps
  those well formed: what the rule engine relies on for its guarantees.
\<close>

theorem operators_change_variables_only:
  assumes "operator_Get env name options = Inr op"
  shows "captures_only op"
proof -
  obtain f where "(name, f) \<in> set operators" "f env options = Inr op"
    using assms by (auto simp: operator_Get_def split: option.splits dest: map_of_SomeD)
  then have f: "f env options = Inr op" "f \<in> snd ` set operators" by force+
  then consider "\<exists>t. f = macro_operator t" | "f \<in> {newUnconditionalMatch, newNoMatch, newGeoLookup, newValidateByteRange,
      newValidateURLEncoding, newValidateUTF8Encoding, newIPMatch, newIPMatchFromFile, newIPMatchFromDataset, newDetectXSS,
      newInspectFile, NewValidateSchema}" | "f \<in> {newDetectSQLi, newRBL, newPM, newPMFromDataset, newPMFromFile, newRESTPath,
      newRX, newValidateNID}"
    unfolding operators_def by (auto simp: factory_defs)
  then show ?thesis
  proof cases
    case 1
    with f(1) macro_operator_captures show ?thesis by blast
  next
    case 2
    with f(1) show ?thesis by (auto dest: pure_factories)
  next
    case 3
    with f(1) show ?thesis by (auto dest: capturing_factories)
  qed
qed

subsection \<open>What the validating operators accept\<close>

definition percent_ok :: "string \<Rightarrow> bool" where
  "percent_ok s = (\<forall>i<length s. s ! i = CHR ''%'' \<longrightarrow> i + 2 < length s \<and> ValidHex (s ! (i + 1)) \<and> ValidHex (s ! (i + 2)))"

lemma percent_ok_Nil [simp]: "percent_ok []"
  by (simp add: percent_ok_def)

lemma percent_ok_Cons:
  "percent_ok (c # s) \<longleftrightarrow> (c = CHR ''%'' \<longrightarrow> 1 < length s \<and> ValidHex (s ! 0) \<and> ValidHex (s ! 1)) \<and> percent_ok s"
proof -
  have "(\<forall>i<length (c # s). P i) \<longleftrightarrow> P 0 \<and> (\<forall>i<length s. P (Suc i))" for P by (auto simp: less_Suc_eq_0_disj)
  then show ?thesis unfolding percent_ok_def by (auto simp: numeral_2_eq_2)
qed

lemma ValidHex_not_percent: "ValidHex c \<Longrightarrow> c \<noteq> CHR ''%''"
  by (auto simp: ValidHex_iff)

lemma validateURLEncoding_loop_iff: "validateURLEncoding_loop s = 1 \<longleftrightarrow> percent_ok s"
proof (induction s rule: validateURLEncoding_loop.induct)
  case (2 c s)
  show ?case
  proof (cases "c = CHR ''%'' \<and> 1 < length s")
    case True
    then obtain c1 c2 r where s: "s = c1 # c2 # r" by (cases s; cases "tl s") auto
    then show ?thesis using True 2(1) [of c1 "c2 # r" c2 r] by (auto simp: percent_ok_Cons dest: ValidHex_not_percent)
  next
    case False
    then show ?thesis using 2(2) by (auto simp: percent_ok_Cons split: list.split)
  qed
qed simp

text \<open>
  (C19) \<open>validateUrlEncoding\<close> reports a value exactly when some percent sign is not followed by two
  hexadecimal digits.
\<close>

theorem validateUrlEncoding_exact:
  "\<exists>op. operator_Get env ''validateUrlEncoding'' options = Inr op \<and> op tx s = Some (\<not> percent_ok s, tx)"
proof -
  have "operator_Get env ''validateUrlEncoding'' options =
      Inr (\<lambda>tx s. Some (s \<noteq> [] \<and> validateURLEncodingInternal s \<noteq> 1, tx))"
    by (simp add: operator_Get_def operators_def newValidateURLEncoding_def)
  moreover have "(s \<noteq> [] \<and> validateURLEncodingInternal s \<noteq> 1) = (\<not> percent_ok s)"
    by (auto simp: validateURLEncodingInternal_def validateURLEncoding_loop_iff)
  ultimately show ?thesis by simp
qed

lemma split_join:
  "xs \<noteq> [] \<Longrightarrow> (\<forall>x\<in>set xs. c \<notin> set x) \<Longrightarrow> split c (join_with c xs) = xs"
proof (induction c xs rule: join_with.induct)
  case (2 c w)
  then show ?case by (simp add: split_no_sep)
next
  case (3 c w v ws)
  then show ?case by (simp add: split_append_sep)
qed simp

definition print_range :: "nat \<times> nat \<Rightarrow> string" where
  "print_range r = itoa (int (fst r)) @ CHR ''-'' # itoa (int (snd r))"

lemma itoa_digits: "c \<in> set (itoa (int n)) \<Longrightarrow> is_digit c"
  using dec_digits_digit [of n] by (simp add: itoa_def list_all_iff)

lemma digit_ascii: "is_digit c \<Longrightarrow> ord c < 0x80 \<and> \<not> is_space_rune (ord c) \<and> c \<noteq> CHR ''-'' \<and> c \<noteq> CHR '',''"
  by (auto simp: is_digit_def less_eq_char_def is_space_rune_def)

lemma parse_byte_itoa: "n \<le> 255 \<Longrightarrow> parse_byte (itoa (int n)) = Inr n"
  by (simp add: parse_byte_def atoi_itoa min_int64_def max_int64_def validateByte_def)

lemma byte_range_print:
  assumes "fst r \<le> 255" "snd r \<le> 255"
  shows "byte_range (print_range r) = Inr [fst r..<Suc (snd r)]"
proof -
  have "\<forall>c\<in>set (print_range r). ord c < 0x80 \<and> \<not> is_space_rune (ord c)"
    using itoa_digits digit_ascii by (auto simp: print_range_def is_space_rune_def)
  then have "TrimSpace (print_range r) = print_range r" by (rule TrimSpace_trimmed)
  moreover have "CHR ''-'' \<notin> set (itoa (int (fst r)))" using itoa_digits digit_ascii by blast
  ultimately show ?thesis
    using assms by (simp add: byte_range_def print_range_def str_cut_append parse_byte_itoa del: upt_Suc)
qed

lemma byte_ranges_print:
  "\<forall>r\<in>set rs. fst r \<le> 255 \<and> snd r \<le> 255 \<Longrightarrow>
   byte_ranges (map print_range rs) = Inr (concat (map (\<lambda>r. [fst r..<Suc (snd r)]) rs))"
  by (induction rs) (simp_all add: byte_range_print del: upt_Suc)

text \<open>
  \<open>validateByteRange\<close> with a list of ranges reports a value exactly when it has a byte that is in none of
  them.
\<close>

theorem validateByteRange_exact:
  assumes "rs \<noteq> []" "\<forall>r\<in>set rs. fst r \<le> 255 \<and> snd r \<le> 255" "oo_Arguments options = join_with CHR '','' (map print_range rs)"
  shows "\<exists>op. operator_Get env ''validateByteRange'' options = Inr op \<and>
    op tx s = Some (\<exists>c\<in>set s. \<forall>(lo, hi)\<in>set rs. ord c < lo \<or> hi < ord c, tx)"
proof -
  have sep: "\<forall>x\<in>set (map print_range rs). CHR '','' \<notin> set x"
    using itoa_digits digit_ascii by (fastforce simp: print_range_def)
  have "split CHR '','' (join_with CHR '','' (map print_range rs)) = map print_range rs"
    using assms(1) sep by (intro split_join) simp_all
  moreover have "oo_Arguments options \<noteq> []"
    using assms(1,3) by (cases rs; cases "tl rs") (auto simp: print_range_def)
  moreover define bs where "bs = concat (map (\<lambda>r. [fst r..<Suc (snd r)]) rs)"
  ultimately have "operator_Get env ''validateByteRange'' options = Inr (validateByteRange bs)"
    using assms(2,3) by (simp add: operator_Get_def operators_def newValidateByteRange_def byte_ranges_print)
  moreover have "(n \<notin> set bs) = (\<forall>(lo, hi)\<in>set rs. n < lo \<or> hi < n)" for n
    by (auto simp: bs_def simp del: upt_Suc)
  ultimately show ?thesis by (simp add: validateByteRange_def list_ex_iff)
qed

definition no_externals :: externals where
  "no_externals = \<lparr>regexp_Compile = (\<lambda>e. Inl e), binaryregexp_Compile = (\<lambda>e. Inl e), ahocorasick_Build = (\<lambda>d s. []),
     IsSQLi = (\<lambda>s. (False, [])), IsXSS = (\<lambda>s. False), dns_Lookup = (\<lambda>s. DNSError), exec_Output = (\<lambda>p s. None),
     schema_Compile = (\<lambda>s. Inl s), fs_ReadFile = (\<lambda>p. FileNotExist p)\<rparr>"

definition arguments :: "string \<Rightarrow> OperatorOptions" where
  "arguments s = \<lparr>oo_Arguments = s, oo_Path = [], oo_Datasets = Map.empty\<rparr>"

lemma example_ranges: "oo_Arguments (arguments ''9-10,32-126'') = join_with CHR '','' (map print_range [(9, 10), (32, 126)])"
  by code_simp

theorem validateByteRange_exact_witness:
  "\<exists>op. operator_Get no_externals ''validateByteRange'' (arguments ''9-10,32-126'') = Inr op \<and>
    op example_tx ''a'' = Some (\<exists>c\<in>set ''a''. \<forall>(lo, hi)\<in>set [(9, 10), (32, 126)]. ord c < lo \<or> hi < ord c, example_tx)"
  by (rule validateByteRange_exact [OF _ _ example_ranges]) simp_all

theorem operators_change_variables_only_witness:
  "captures_only (rx_Evaluate \<lparr>rx_FindStringSubmatch = (\<lambda>s. [s]), rx_MatchString = (\<lambda>s. True), rx_FindAllStringSubmatch = (\<lambda>s n. [[s]]),
     rx_SubexpNames = [[]]\<rparr>)"
proof (rule operators_change_variables_only)
  let ?re = "\<lparr>rx_FindStringSubmatch = (\<lambda>s. [s]), rx_MatchString = (\<lambda>s. True), rx_FindAllStringSubmatch = (\<lambda>s n. [[s]]), rx_SubexpNames = [[]]\<rparr>"
  have "\<not> matchesArbitraryBytes ''(?sm).*''"
    by (simp add: matchesArbitraryBytes_def valid_utf8_def range_runes_ascii rune_error_def)
  then show "operator_Get (no_externals\<lparr>regexp_Compile := (\<lambda>e. Inr ?re)\<rparr>) ''rx'' (arguments ''.*'') = Inr (rx_Evaluate ?re)"
    by (simp add: operator_Get_def operators_def newRX_def arguments_def)
qed

subsection \<open>What ipMatch covers\<close>

text \<open>An entry of the argument list: an address and the length of its prefix.\<close>

definition print_entry :: "string \<times> nat \<Rightarrow> string" where
  "print_entry e = fst e @ CHR ''/'' # itoa (int (snd e))"

definition entry_ok :: "string \<times> nat \<Rightarrow> bool" where
  "entry_ok e = ((\<forall>c\<in>set (fst e). ord c < 0x80 \<and> \<not> is_space_rune (ord c) \<and> c \<noteq> CHR '','' \<and> c \<noteq> CHR ''/'') \<and>
     (case parse_addr (fst e) of None \<Rightarrow> False | Some a \<Rightarrow> (length a = 4 \<or> To4 a = None) \<and> snd e \<le> 8 * length a))"

definition covers :: "string \<times> nat \<Rightarrow> string \<Rightarrow> bool" where
  "covers e s = (case (parse_addr (fst e), ParseIP s) of
     (Some a, Some ip) \<Rightarrow> length (shortest ip) = length a \<and> take (snd e) (ip_bits (shortest ip)) = take (snd e) (ip_bits a)
   | _ \<Rightarrow> False)"

lemma entry_ParseCIDR:
  assumes "entry_ok e"
  shows "\<exists>net. ParseCIDR (print_entry e) = Some net \<and> (\<forall>ip. Contains net ip \<longleftrightarrow>
    length (shortest ip) = length (the (parse_addr (fst e))) \<and>
    take (snd e) (ip_bits (shortest ip)) = take (snd e) (ip_bits (the (parse_addr (fst e)))))"
proof -
  from assms obtain a where a: "parse_addr (fst e) = Some a" "length a = 4 \<or> To4 a = None" "snd e \<le> 8 * length a"
    by (auto simp: entry_ok_def split: option.splits)
  have cut: "str_cut (print_entry e) CHR ''/'' = (fst e, itoa (int (snd e)), True)"
    unfolding print_entry_def by (rule str_cut_append) (use assms in \<open>auto simp: entry_ok_def\<close>)
  have n: "list_all is_digit (itoa (int (snd e)))" "dec_value (itoa (int (snd e))) = snd e" "itoa (int (snd e)) \<noteq> []"
    by (simp_all add: itoa_def dec_digits_digit)
  then have "\<exists>net. ParseCIDR (print_entry e) = Some net" using a by (simp add: ParseCIDR_def cut Let_def)
  then show ?thesis using Contains_prefix [OF _ cut a(1,2)] n a(1) by auto
qed

lemma entry_trimmed:
  assumes "entry_ok e"
  shows "TrimSpace (print_entry e) = print_entry e" "complete_cidr (print_entry e) = print_entry e" "CHR '','' \<notin> set (print_entry e)"
proof -
  have "\<forall>c\<in>set (print_entry e). ord c < 0x80 \<and> \<not> is_space_rune (ord c)"
    using assms itoa_digits digit_ascii by (auto simp: print_entry_def entry_ok_def is_space_rune_def)
  then show "TrimSpace (print_entry e) = print_entry e" by (rule TrimSpace_trimmed)
  have "contains (print_entry e) ''/''" by (auto simp: contains_iff_sublist sublist_def print_entry_def)
  then show "complete_cidr (print_entry e) = print_entry e" by (simp add: complete_cidr_def)
  show "CHR '','' \<notin> set (print_entry e)"
    using assms itoa_digits digit_ascii by (auto simp: print_entry_def entry_ok_def)
qed

lemma ip_subnets_entries:
  assumes "\<forall>e\<in>set es. entry_ok e"
  shows "list_ex (\<lambda>n. Contains n ip) (List.map_filter (\<lambda>sb. let sb = TrimSpace sb in
      if sb = [] then None else ParseCIDR (complete_cidr sb)) (map print_entry es)) \<longleftrightarrow>
    (\<exists>e\<in>set es. \<exists>net. ParseCIDR (print_entry e) = Some net \<and> Contains net ip)"
  using assms
proof (induction es)
  case (Cons e es)
  then have "entry_ok e" by simp
  moreover have "print_entry e \<noteq> []" by (simp add: print_entry_def)
  ultimately show ?case using Cons entry_trimmed [of e] by (simp add: List.map_filter_simps Let_def split: option.split)
qed (simp add: List.map_filter_simps)

text \<open>
  (C20) \<open>ipMatch\<close> with a list of networks matches exactly the addresses that agree with one of the
  networks in its leading bits; text that is no address never matches.
\<close>

theorem ipMatch_covers:
  assumes "es \<noteq> []" "\<forall>e\<in>set es. entry_ok e" "oo_Arguments options = join_with CHR '','' (map print_entry es)"
  shows "\<exists>op. operator_Get env ''ipMatch'' options = Inr op \<and> op tx s = Some (list_ex (\<lambda>e. covers e s) es, tx)"
proof -
  let ?ip = "case ParseIP s of Some ip \<Rightarrow> ip | None \<Rightarrow> []"
  have "split CHR '','' (oo_Arguments options) = map print_entry es"
    unfolding assms(3) using assms(1,2) entry_trimmed(3) by (intro split_join) auto
  then have "list_ex (\<lambda>n. Contains n ?ip) (ip_subnets (oo_Arguments options)) \<longleftrightarrow>
      (\<exists>e\<in>set es. \<exists>net. ParseCIDR (print_entry e) = Some net \<and> Contains net ?ip)"
    using ip_subnets_entries [OF assms(2), of ?ip] by (simp add: ip_subnets_def)
  also have "\<dots> \<longleftrightarrow> list_ex (\<lambda>e. covers e s) es"
  proof (cases "ParseIP s")
    case None
    then show ?thesis using Contains_nil by (auto simp: covers_def list_ex_iff split: option.splits)
  next
    case (Some ip)
    have "(\<exists>net. ParseCIDR (print_entry e) = Some net \<and> Contains net ip) = covers e s" if "entry_ok e" for e
      using entry_ParseCIDR [OF that] that Some by (auto simp: covers_def entry_ok_def split: option.splits)
    with assms(2) Some show ?thesis by (simp add: list_ex_iff)
  qed
  finally show ?thesis by (simp add: operator_Get_def operators_def newIPMatch_def ipMatch_def)
qed

lemma example_entries: "oo_Arguments (arguments ''10.0.0.0/8,192.168.1.7/32'') =
    join_with CHR '','' (map print_entry [(''10.0.0.0'', 8), (''192.168.1.7'', 32)])"
  by code_simp

lemma example_addresses:
  "parse_addr ''10.0.0.0'' = Some [10, 0, 0, 0]" "parse_addr ''192.168.1.7'' = Some [192, 168, 1, 7]"
  by (simp_all add: parse_addr_def parse_v4_def parse_octet_def is_digit_def digit_val_def dec_value_def less_eq_char_def Let_def)

lemma example_entries_ok: "\<forall>e\<in>set [(''10.0.0.0'', 8), (''192.168.1.7'', 32)]. entry_ok e"
  by (simp add: entry_ok_def example_addresses is_space_rune_def)

theorem ipMatch_covers_witness:
  "\<exists>op. operator_Get no_externals ''ipMatch'' (arguments ''10.0.0.0/8,192.168.1.7/32'') = Inr op \<and>
     op example_tx ''10.1.2.3'' = Some (list_ex (\<lambda>e. covers e ''10.1.2.3'') [(''10.0.0.0'', 8), (''192.168.1.7'', 32)], example_tx)"
  by (rule ipMatch_covers [OF _ example_entries_ok example_entries]) simp

subsection \<open>Deviations\<close>

text \<open>A match without any digit or \<open>k\<close> makes the check of Chilean numbers index an empty string.\<close>

lemma nidCl_panics: "nidCl ''--------'' = None"
  by code_simp

end
