(* ===== verification/Rate_Limit.thy ===== *)
theory Rate_Limit
  imports Byte_Util
begin

unbundle bit_operations_syntax

text \<open>
  The rate limiter of the gateway (\<open>internal/app/ratelimit/ratelimit.go\<close>): a sliding window of one minute
  per address, kept in 256 shards selected by a hash. Times are in nanoseconds and an argument of the
  operations; the end of a block is stored in seconds, as the code does. A shard is a table from addresses
  to visitors. The optional Redis backend is an argument that answers in place of the local tables.
  Each operation holds the lock of its shard, so it is one step; the clean-up takes the locks of the
  shards one after the other and is one step here as well.
\<close>

subsection \<open>Configuration\<close>

abbreviation second :: int where "second \<equiv> 1000000000"

abbreviation minute :: int where "minute \<equiv> 60 * second"

record EndpointConfig =
  ec_RequestsPerMinute :: int
  ec_BurstSize :: int
  ec_BlockDuration :: int

record rl_Config =
  rc_RequestsPerMinute :: int
  rc_BurstSize :: int
  rc_BlockDuration :: int
  rc_Whitelist :: "string list"
  rc_EndpointLimits :: "(string \<times> EndpointConfig) list"
  rc_CleanupInterval :: int

definition localHostIP :: string where
  "localHostIP = ''127.0.0.1''"

definition DefaultConfig :: rl_Config where
  "DefaultConfig = \<lparr>rc_RequestsPerMinute = 200, rc_BurstSize = 300, rc_BlockDuration = minute,
     rc_Whitelist = [localHostIP, ''::1'', ''[::1]'', ''localhost''],
     rc_EndpointLimits =
       [(''/api/login'', \<lparr>ec_RequestsPerMinute = 5, ec_BurstSize = 10, ec_BlockDuration = 15 * minute\<rparr>),
        (''/api/admin'', \<lparr>ec_RequestsPerMinute = 30, ec_BurstSize = 50, ec_BlockDuration = 5 * minute\<rparr>)],
     rc_CleanupInterval = 5 * minute\<rparr>"

text \<open>The prefixes of the endpoint table, longest first; the first one that fits decides.\<close>

definition getEndpointConfig :: "rl_Config \<Rightarrow> string \<Rightarrow> EndpointConfig" where
  "getEndpointConfig cfg endpoint =
     (let prefixes = sort_key (\<lambda>p. - int (length p)) (map fst (rc_EndpointLimits cfg)) in
      case find (\<lambda>p. has_prefix endpoint p) prefixes of
        Some p \<Rightarrow> the (map_of (rc_EndpointLimits cfg) p)
      | None \<Rightarrow> \<lparr>ec_RequestsPerMinute = rc_RequestsPerMinute cfg, ec_BurstSize = rc_BurstSize cfg,
                 ec_BlockDuration = rc_BlockDuration cfg\<rparr>)"

definition normalizeIP :: "string \<Rightarrow> string" where
  "normalizeIP ip = (if ip \<in> {''[::1]'', ''::1'', ''localhost''} then localHostIP else ip)"

subsection \<open>State\<close>

record visitor =
  v_timestamps :: "int list"
  v_blocked :: bool
  v_blockUntil :: int

type_synonym shard = "(string \<times> visitor) list"

record RateLimiter =
  rl_shards :: "shard list"
  rl_config :: rl_Config
  rl_whitelist :: "string set"
  rl_blacklist :: "string set"
  rl_totalAllowed :: "64 word"
  rl_totalBlocked :: "64 word"
  rl_totalVisitors :: "64 word"

abbreviation NumShards :: nat where "NumShards \<equiv> 256"

definition NewRateLimiter :: "rl_Config \<Rightarrow> RateLimiter" where
  "NewRateLimiter cfg = \<lparr>rl_shards = replicate NumShards [], rl_config = cfg, rl_whitelist = set (rc_Whitelist cfg),
     rl_blacklist = {}, rl_totalAllowed = 0, rl_totalBlocked = 0, rl_totalVisitors = 0\<rparr>"

text \<open>The 32-bit FNV-1a hash of \<open>hash/fnv\<close>.\<close>

definition fnv32a :: "string \<Rightarrow> 32 word" where
  "fnv32a s = fold (\<lambda>c h. (h XOR word_of_nat (ord c)) * 16777619) s 2166136261"

definition shard_index :: "string \<Rightarrow> nat" where
  "shard_index ip = unat (fnv32a ip) mod NumShards"

definition getShard :: "shard list \<Rightarrow> string \<Rightarrow> shard" where
  "getShard shs ip = shs ! shard_index ip"

definition visitor_get :: "shard list \<Rightarrow> string \<Rightarrow> visitor option" where
  "visitor_get shs ip = map_of (getShard shs ip) ip"

definition visitor_put :: "shard list \<Rightarrow> string \<Rightarrow> visitor \<Rightarrow> shard list" where
  "visitor_put shs ip v = shs[shard_index ip := AList.update ip v (getShard shs ip)]"

definition visitor_delete :: "shard list \<Rightarrow> string \<Rightarrow> shard list" where
  "visitor_delete shs ip = shs[shard_index ip := AList.delete ip (getShard shs ip)]"

subsection \<open>Operations\<close>

definition live_timestamps :: "int \<Rightarrow> int list \<Rightarrow> int list" where
  "live_timestamps now ts = filter (\<lambda>t. t > now - minute) ts"

definition expire_block :: "int \<Rightarrow> visitor \<Rightarrow> visitor" where
  "expire_block now v =
     (if v_blocked v \<and> now > v_blockUntil v * second then v\<lparr>v_blocked := False\<rparr> else v)"

definition cleanup_visitor :: "int \<Rightarrow> visitor \<Rightarrow> visitor option" where
  "cleanup_visitor now v0 =
     (let v = expire_block now v0; v = v\<lparr>v_timestamps := live_timestamps now (v_timestamps v)\<rparr> in
      if v_timestamps v = [] \<and> \<not> v_blocked v then None else Some v)"

definition cleanup_shard :: "int \<Rightarrow> shard \<Rightarrow> shard" where
  "cleanup_shard now sh =
     concat (map (\<lambda>(ip, v). case cleanup_visitor now v of None \<Rightarrow> [] | Some v \<Rightarrow> [(ip, v)]) sh)"

definition visitor_count :: "shard list \<Rightarrow> nat" where
  "visitor_count shs = sum_list (map length shs)"

definition cleanup :: "int \<Rightarrow> RateLimiter \<Rightarrow> RateLimiter" where
  "cleanup now rl =
     (let shs = map (cleanup_shard now) (rl_shards rl) in
      rl\<lparr>rl_shards := shs,
         rl_totalVisitors := rl_totalVisitors rl - word_of_nat (visitor_count (rl_shards rl) - visitor_count shs)\<rparr>)"

text \<open>The decision for one visitor: whether the request passes, and the visitor afterwards.\<close>

definition admit :: "EndpointConfig \<Rightarrow> int \<Rightarrow> visitor \<Rightarrow> bool \<times> visitor" where
  "admit cfg now v0 =
     (let v = expire_block now v0 in
      if v_blocked v then (False, v)
      else
        let ts = live_timestamps now (v_timestamps v) in
        if int (length ts) \<ge> ec_RequestsPerMinute cfg
        then (False, v\<lparr>v_timestamps := ts, v_blocked := True, v_blockUntil := (now + ec_BlockDuration cfg) div second\<rparr>)
        else (True, v\<lparr>v_timestamps := ts @ [now]\<rparr>))"

record redis_backend =
  rb_IsBlacklisted :: "string \<Rightarrow> bool"
  rb_AllowEndpoint :: "string \<Rightarrow> string \<Rightarrow> bool"

definition count_decision :: "bool \<Rightarrow> RateLimiter \<Rightarrow> RateLimiter" where
  "count_decision ok rl =
     (if ok then rl\<lparr>rl_totalAllowed := rl_totalAllowed rl + 1\<rparr> else rl\<lparr>rl_totalBlocked := rl_totalBlocked rl + 1\<rparr>)"

text \<open>The decisions taken before the window is looked at: the lists and the backend.\<close>

definition list_decision :: "redis_backend option \<Rightarrow> string \<Rightarrow> string \<Rightarrow> RateLimiter \<Rightarrow> bool option" where
  "list_decision redis ip endpoint rl =
     (if ip \<in> rl_whitelist rl \<or> normalizeIP ip \<in> rl_whitelist rl then Some True
      else if ip \<in> rl_blacklist rl then Some False
      else case redis of
        None \<Rightarrow> None
      | Some r \<Rightarrow>
          if rb_IsBlacklisted r (normalizeIP ip) \<or> rb_IsBlacklisted r ip then Some False
          else Some (rb_AllowEndpoint r ip endpoint))"

definition AllowEndpoint ::
  "redis_backend option \<Rightarrow> int \<Rightarrow> string \<Rightarrow> string \<Rightarrow> RateLimiter \<Rightarrow> bool \<times> RateLimiter" where
  "AllowEndpoint redis now ip endpoint rl = (case list_decision redis ip endpoint rl of
     Some ok \<Rightarrow> (ok, count_decision ok rl)
   | None \<Rightarrow>
       let cfg = getEndpointConfig (rl_config rl) endpoint in
       case visitor_get (rl_shards rl) ip of
         None \<Rightarrow>
           let v = \<lparr>v_timestamps = [now], v_blocked = False, v_blockUntil = 0\<rparr> in
           (True, count_decision True (rl\<lparr>rl_shards := visitor_put (rl_shards rl) ip v,
                                         rl_totalVisitors := rl_totalVisitors rl + 1\<rparr>))
       | Some v \<Rightarrow>
           let (ok, v) = admit cfg now v in
           (ok, count_decision ok (rl\<lparr>rl_shards := visitor_put (rl_shards rl) ip v\<rparr>)))"

definition Allow :: "redis_backend option \<Rightarrow> int \<Rightarrow> string \<Rightarrow> RateLimiter \<Rightarrow> bool \<times> RateLimiter" where
  "Allow redis now ip rl = AllowEndpoint redis now ip [] rl"

definition rl_Blacklist :: "string \<Rightarrow> RateLimiter \<Rightarrow> RateLimiter" where
  "rl_Blacklist ip rl = rl\<lparr>rl_blacklist := insert ip (rl_blacklist rl), rl_whitelist := rl_whitelist rl - {ip}\<rparr>"

definition rl_Whitelist :: "string \<Rightarrow> RateLimiter \<Rightarrow> RateLimiter" where
  "rl_Whitelist ip rl = rl\<lparr>rl_whitelist := insert ip (rl_whitelist rl), rl_blacklist := rl_blacklist rl - {ip}\<rparr>"

definition RemoveFromBlacklist :: "string \<Rightarrow> RateLimiter \<Rightarrow> RateLimiter" where
  "RemoveFromBlacklist ip rl = rl\<lparr>rl_blacklist := rl_blacklist rl - {ip}\<rparr>"

definition RemoveFromWhitelist :: "string \<Rightarrow> RateLimiter \<Rightarrow> RateLimiter" where
  "RemoveFromWhitelist ip rl = rl\<lparr>rl_whitelist := rl_whitelist rl - {ip}\<rparr>"

definition rl_Reset :: "string \<Rightarrow> RateLimiter \<Rightarrow> RateLimiter" where
  "rl_Reset ip rl =
     (if ip = [] then rl\<lparr>rl_shards := map (\<lambda>sh. []) (rl_shards rl), rl_totalVisitors := 0\<rparr>
      else if visitor_get (rl_shards rl) ip \<noteq> None
      then rl\<lparr>rl_shards := visitor_delete (rl_shards rl) ip, rl_totalVisitors := rl_totalVisitors rl - 1\<rparr>
      else rl)"

definition Unblock :: "string \<Rightarrow> RateLimiter \<Rightarrow> RateLimiter" where
  "Unblock ip rl = (case visitor_get (rl_shards rl) ip of
     None \<Rightarrow> rl
   | Some v \<Rightarrow> rl\<lparr>rl_shards := visitor_put (rl_shards rl) ip (v\<lparr>v_blocked := False, v_timestamps := []\<rparr>)\<rparr>)"

subsection \<open>The middleware\<close>

record rl_request =
  rq_ForwardedFor :: string
  rq_RealIP :: string
  rq_RemoteAddr :: string
  rq_Path :: string

text \<open>The loop over \<open>RemoteAddr\<close> from its end, on the reversed string.\<close>

fun strip_port_rev :: "string \<Rightarrow> string option" where
  "strip_port_rev [] = None"
| "strip_port_rev (c # s) = (if c = CHR '':'' then Some (rev s) else if c = CHR '']'' then None else strip_port_rev s)"

definition extractIP :: "rl_request \<Rightarrow> string" where
  "extractIP r =
     (if rq_ForwardedFor r \<noteq> [] then takeWhile (\<lambda>c. c \<noteq> CHR '','') (rq_ForwardedFor r)
      else if rq_RealIP r \<noteq> [] then rq_RealIP r
      else case strip_port_rev (rev (rq_RemoteAddr r)) of Some ip \<Rightarrow> ip | None \<Rightarrow> rq_RemoteAddr r)"

text \<open>
  The answer of the middleware: the status 429 with its headers, or the headers added before the next
  handler runs. \<open>later\<close> is the time read for the reset header, given in nanoseconds.
\<close>

datatype rl_answer =
    TooManyRequests (retry_after: int) (limit: int) (reset: int)
  | NextHandler (next_limit: int)

definition rl_Middleware ::
  "redis_backend option \<Rightarrow> int \<Rightarrow> int \<Rightarrow> rl_request \<Rightarrow> RateLimiter \<Rightarrow> rl_answer \<times> RateLimiter" where
  "rl_Middleware redis now later r rl =
     (case AllowEndpoint redis now (extractIP r) (rq_Path r) rl of
        (False, rl) \<Rightarrow>
          let cfg = getEndpointConfig (rl_config rl) (rq_Path r) in
          (TooManyRequests (ec_BlockDuration cfg div second) (ec_RequestsPerMinute cfg) (later + ec_BlockDuration cfg), rl)
      | (True, rl) \<Rightarrow> (NextHandler (rc_RequestsPerMinute (rl_config rl)), rl))"

subsection \<open>The sharded table as one table\<close>

locale visitor_table =
  fixes get :: "'t \<Rightarrow> string \<Rightarrow> visitor option"
    and put :: "'t \<Rightarrow> string \<Rightarrow> visitor \<Rightarrow> 't"
    and del :: "'t \<Rightarrow> string \<Rightarrow> 't"
    and ok :: "'t \<Rightarrow> bool"
  assumes get_put: "ok t \<Longrightarrow> get (put t ip v) j = (if j = ip then Some v else get t j)"
    and get_del: "ok t \<Longrightarrow> get (del t ip) j = (if j = ip then None else get t j)"
    and ok_put: "ok t \<Longrightarrow> ok (put t ip v)"
    and ok_del: "ok t \<Longrightarrow> ok (del t ip)"
begin

lemma get_put_fun: "ok t \<Longrightarrow> get (put t ip v) = (get t)(ip := Some v)"
  by (simp add: get_put fun_eq_iff)

lemma get_del_fun: "ok t \<Longrightarrow> get (del t ip) = (get t)(ip := None)"
  by (simp add: get_del fun_eq_iff)

end

definition shard_ok :: "nat \<Rightarrow> shard \<Rightarrow> bool" where
  "shard_ok i sh = (distinct (map fst sh) \<and> (\<forall>k\<in>fst ` set sh. shard_index k = i))"

definition shards_ok :: "shard list \<Rightarrow> bool" where
  "shards_ok shs = (length shs = NumShards \<and> (\<forall>i<NumShards. shard_ok i (shs ! i)))"

lemma shard_index_less [simp]: "shard_index ip < NumShards"
  by (simp add: shard_index_def)

lemma shards_ok_length: "shards_ok shs \<Longrightarrow> shard_index ip < length shs"
  by (simp add: shards_ok_def)

lemma shards_ok_shard: "shards_ok shs \<Longrightarrow> shard_ok (shard_index ip) (getShard shs ip)"
  by (simp add: shards_ok_def getShard_def)

lemma getShard_cong: "shard_index j = shard_index ip \<Longrightarrow> getShard shs j = getShard shs ip"
  by (simp add: getShard_def)

lemma getShard_upd:
  "shards_ok shs \<Longrightarrow> getShard (shs[shard_index ip := sh]) j = (if shard_index j = shard_index ip then sh else getShard shs j)"
  by (simp add: getShard_def shards_ok_def nth_list_update)

lemma shards_ok_upd: "shards_ok shs \<Longrightarrow> shard_ok i sh \<Longrightarrow> shards_ok (shs[i := sh])"
  by (cases "i < length shs") (auto simp: shards_ok_def nth_list_update)

lemma shard_ok_update: "shard_ok (shard_index k) sh \<Longrightarrow> shard_ok (shard_index k) (AList.update k v sh)"
  by (auto simp: shard_ok_def distinct_update dom_update)

lemma shard_ok_delete: "shard_ok i sh \<Longrightarrow> shard_ok i (AList.delete k sh)"
  using dom_delete_subset [of k sh] distinct_delete [of sh k] by (force simp: shard_ok_def)

interpretation table: visitor_table visitor_get visitor_put visitor_delete shards_ok
proof
  fix shs ip v j
  assume ok: "shards_ok shs"
  show "visitor_get (visitor_put shs ip v) j = (if j = ip then Some v else visitor_get shs j)"
    using ok getShard_cong [of j ip shs] by (simp add: visitor_get_def visitor_put_def getShard_upd update_conv')
  show "visitor_get (visitor_delete shs ip) j = (if j = ip then None else visitor_get shs j)"
    using ok getShard_cong [of j ip shs] by (simp add: visitor_get_def visitor_delete_def getShard_upd delete_conv')
  show "shards_ok (visitor_put shs ip v)" "shards_ok (visitor_delete shs ip)"
    using ok shards_ok_shard [OF ok, of ip]
    by (auto simp: visitor_put_def visitor_delete_def intro: shards_ok_upd shard_ok_update shard_ok_delete)
qed

lemma cleanup_shard_simps [simp]:
  "cleanup_shard now [] = []"
  "cleanup_shard now ((ip, v) # sh) =
     (case cleanup_visitor now v of None \<Rightarrow> cleanup_shard now sh | Some v \<Rightarrow> (ip, v) # cleanup_shard now sh)"
  by (simp_all add: cleanup_shard_def split: option.split)

lemma cleanup_shard_keys: "k \<in> fst ` set (cleanup_shard now sh) \<Longrightarrow> k \<in> fst ` set sh"
proof (induction sh)
  case (Cons p sh)
  then show ?case by (cases p; cases "cleanup_visitor now (snd p)") auto
qed simp

lemma cleanup_shard_distinct: "distinct (map fst sh) \<Longrightarrow> distinct (map fst (cleanup_shard now sh))"
proof (induction sh)
  case (Cons p sh)
  then show ?case using cleanup_shard_keys [of "fst p" now sh]
    by (cases p; cases "cleanup_visitor now (snd p)") auto
qed simp

lemma map_of_cleanup_shard:
  "distinct (map fst sh) \<Longrightarrow> map_of (cleanup_shard now sh) k = Option.bind (map_of sh k) (cleanup_visitor now)"
proof (induction sh)
  case (Cons p sh)
  have "k \<notin> fst ` set sh \<Longrightarrow> map_of (cleanup_shard now sh) k = None"
    using cleanup_shard_keys [of k now sh] by (auto simp only: map_of_eq_None_iff)
  with Cons show ?case
    by (cases p; cases "cleanup_visitor now (snd p)") auto
qed simp

lemma shard_ok_cleanup: "shard_ok i sh \<Longrightarrow> shard_ok i (cleanup_shard now sh)"
  unfolding shard_ok_def using cleanup_shard_keys [of _ now sh] cleanup_shard_distinct [of sh now] by blast

lemma shards_ok_cleanup: "shards_ok shs \<Longrightarrow> shards_ok (map (cleanup_shard now) shs)"
  by (simp add: shards_ok_def shard_ok_cleanup)

lemma visitor_get_cleanup:
  "shards_ok shs \<Longrightarrow> visitor_get (map (cleanup_shard now) shs) ip = Option.bind (visitor_get shs ip) (cleanup_visitor now)"
  using shards_ok_shard [of shs ip]
  by (simp add: visitor_get_def getShard_def shards_ok_length map_of_cleanup_shard shard_ok_def)

lemma visitor_count_le: "visitor_count (map (cleanup_shard now) shs) \<le> visitor_count shs"
proof (induction shs)
  case (Cons sh shs)
  have "length (cleanup_shard now sh) \<le> length sh"
    by (induction sh) (auto split: option.split)
  with Cons show ?case by (simp add: visitor_count_def)
qed simp

lemma visitor_count_upd:
  "i < length shs \<Longrightarrow> visitor_count (shs[i := sh]) + length (shs ! i) = visitor_count shs + length sh"
proof (induction shs arbitrary: i)
  case (Cons x shs)
  then show ?case by (cases i) (auto simp: visitor_count_def)
qed simp

lemma length_update: "length (AList.update k v al) = length al + (if map_of al k = None then 1 else 0)"
  by (induction al) auto

lemma length_delete:
  "distinct (map fst al) \<Longrightarrow> length (AList.delete k al) + (if map_of al k = None then 0 else 1) = length al"
proof (induction al)
  case (Cons p al)
  have "fst p = k \<Longrightarrow> AList.delete k al = al" using Cons.prems by simp
  with Cons show ?case by (cases p) auto
qed simp

lemma visitor_count_put:
  assumes "shards_ok shs"
  shows "visitor_count (visitor_put shs ip v) = visitor_count shs + (if visitor_get shs ip = None then 1 else 0)"
  using visitor_count_upd [OF shards_ok_length [OF assms, of ip], of "AList.update ip v (getShard shs ip)"]
  by (simp add: visitor_put_def visitor_get_def length_update flip: getShard_def)

lemma visitor_count_delete:
  assumes "shards_ok shs"
  shows "visitor_count (visitor_delete shs ip) + (if visitor_get shs ip = None then 0 else 1) = visitor_count shs"
  using visitor_count_upd [OF shards_ok_length [OF assms, of ip], of "AList.delete ip (getShard shs ip)"]
    length_delete [of "getShard shs ip" ip] shards_ok_shard [OF assms, of ip]
  by (simp add: visitor_delete_def visitor_get_def shard_ok_def flip: getShard_def)

subsection \<open>The specification: one table, one operation at a time\<close>

datatype rl_op =
    Request int string string
  | Cleanup int
  | Block_list string
  | Pass_list string
  | Unlist_block string
  | Unlist_pass string
  | Forget string
  | Lift string

fun rl_do :: "rl_op \<Rightarrow> RateLimiter \<Rightarrow> bool option \<times> RateLimiter" where
  "rl_do (Request now ip endpoint) rl = (case AllowEndpoint None now ip endpoint rl of (ok, rl) \<Rightarrow> (Some ok, rl))"
| "rl_do (Cleanup now) rl = (None, cleanup now rl)"
| "rl_do (Block_list ip) rl = (None, rl_Blacklist ip rl)"
| "rl_do (Pass_list ip) rl = (None, rl_Whitelist ip rl)"
| "rl_do (Unlist_block ip) rl = (None, RemoveFromBlacklist ip rl)"
| "rl_do (Unlist_pass ip) rl = (None, RemoveFromWhitelist ip rl)"
| "rl_do (Forget ip) rl = (None, rl_Reset ip rl)"
| "rl_do (Lift ip) rl = (None, Unblock ip rl)"

fun rl_run :: "rl_op list \<Rightarrow> RateLimiter \<Rightarrow> bool option list \<times> RateLimiter" where
  "rl_run [] rl = ([], rl)"
| "rl_run (op # ops) rl = (case rl_do op rl of (a, rl) \<Rightarrow> case rl_run ops rl of (as, rl) \<Rightarrow> (a # as, rl))"

record flat_limiter =
  fl_visitors :: "string \<Rightarrow> visitor option"
  fl_pass :: "string set"
  fl_block :: "string set"
  fl_config :: rl_Config

definition flat_decision :: "string \<Rightarrow> flat_limiter \<Rightarrow> bool option" where
  "flat_decision ip fl =
     (if {ip, normalizeIP ip} \<inter> fl_pass fl \<noteq> {} then Some True else if ip \<in> fl_block fl then Some False else None)"

fun flat_do :: "rl_op \<Rightarrow> flat_limiter \<Rightarrow> bool option \<times> flat_limiter" where
  "flat_do (Request now ip endpoint) fl = (case flat_decision ip fl of
     Some ok \<Rightarrow> (Some ok, fl)
   | None \<Rightarrow> (case fl_visitors fl ip of
       None \<Rightarrow> (Some True, fl\<lparr>fl_visitors := (fl_visitors fl)(ip \<mapsto> \<lparr>v_timestamps = [now], v_blocked = False, v_blockUntil = 0\<rparr>)\<rparr>)
     | Some v \<Rightarrow> (case admit (getEndpointConfig (fl_config fl) endpoint) now v of
         (ok, v) \<Rightarrow> (Some ok, fl\<lparr>fl_visitors := (fl_visitors fl)(ip \<mapsto> v)\<rparr>))))"
| "flat_do (Cleanup now) fl = (None, fl\<lparr>fl_visitors := (\<lambda>ip. Option.bind (fl_visitors fl ip) (cleanup_visitor now))\<rparr>)"
| "flat_do (Block_list ip) fl = (None, fl\<lparr>fl_block := insert ip (fl_block fl), fl_pass := fl_pass fl - {ip}\<rparr>)"
| "flat_do (Pass_list ip) fl = (None, fl\<lparr>fl_pass := insert ip (fl_pass fl), fl_block := fl_block fl - {ip}\<rparr>)"
| "flat_do (Unlist_block ip) fl = (None, fl\<lparr>fl_block := fl_block fl - {ip}\<rparr>)"
| "flat_do (Unlist_pass ip) fl = (None, fl\<lparr>fl_pass := fl_pass fl - {ip}\<rparr>)"
| "flat_do (Forget ip) fl = (None, fl\<lparr>fl_visitors := if ip = [] then Map.empty else (fl_visitors fl)(ip := None)\<rparr>)"
| "flat_do (Lift ip) fl =
     (None, fl\<lparr>fl_visitors := (fl_visitors fl)(ip := map_option (\<lambda>v. v\<lparr>v_blocked := False, v_timestamps := []\<rparr>) (fl_visitors fl ip))\<rparr>)"

fun flat_run :: "rl_op list \<Rightarrow> flat_limiter \<Rightarrow> bool option list \<times> flat_limiter" where
  "flat_run [] fl = ([], fl)"
| "flat_run (op # ops) fl = (case flat_do op fl of (a, fl) \<Rightarrow> case flat_run ops fl of (as, fl) \<Rightarrow> (a # as, fl))"

definition rl_abs :: "RateLimiter \<Rightarrow> flat_limiter" where
  "rl_abs rl = \<lparr>fl_visitors = visitor_get (rl_shards rl), fl_pass = rl_whitelist rl, fl_block = rl_blacklist rl, fl_config = rl_config rl\<rparr>"

text \<open>The invariant of the limiter: every address is in its shard, once, and the counter of visitors is right.\<close>

definition rl_ok :: "RateLimiter \<Rightarrow> bool" where
  "rl_ok rl = (shards_ok (rl_shards rl) \<and> rl_totalVisitors rl = word_of_nat (visitor_count (rl_shards rl)))"

lemma count_decision_simps [simp]:
  "rl_shards (count_decision ok rl) = rl_shards rl" "rl_whitelist (count_decision ok rl) = rl_whitelist rl"
  "rl_blacklist (count_decision ok rl) = rl_blacklist rl" "rl_config (count_decision ok rl) = rl_config rl"
  "rl_totalVisitors (count_decision ok rl) = rl_totalVisitors rl"
  by (simp_all add: count_decision_def)

lemma list_decision_flat: "list_decision None ip endpoint rl = flat_decision ip (rl_abs rl)"
  by (auto simp: list_decision_def flat_decision_def rl_abs_def)

lemma AllowEndpoint_refines:
  assumes "rl_ok rl"
  shows "fst (rl_do (Request now ip endpoint) rl) = fst (flat_do (Request now ip endpoint) (rl_abs rl))"
    "rl_abs (snd (rl_do (Request now ip endpoint) rl)) = snd (flat_do (Request now ip endpoint) (rl_abs rl))"
    "rl_ok (snd (rl_do (Request now ip endpoint) rl))"
proof -
  have ok: "shards_ok (rl_shards rl)" using assms by (simp add: rl_ok_def)
  note table = table.get_put_fun [OF ok] table.ok_put [OF ok] visitor_count_put [OF ok]
  show "fst (rl_do (Request now ip endpoint) rl) = fst (flat_do (Request now ip endpoint) (rl_abs rl))"
    "rl_abs (snd (rl_do (Request now ip endpoint) rl)) = snd (flat_do (Request now ip endpoint) (rl_abs rl))"
    by (auto simp: AllowEndpoint_def list_decision_flat rl_abs_def table Let_def split: option.split prod.split)
  show "rl_ok (snd (rl_do (Request now ip endpoint) rl))"
    using assms by (auto simp: AllowEndpoint_def rl_ok_def table Let_def split: option.split prod.split)
qed

lemma cleanup_refines:
  assumes "rl_ok rl"
  shows "rl_abs (cleanup now rl) = snd (flat_do (Cleanup now) (rl_abs rl))" "rl_ok (cleanup now rl)"
  using assms visitor_count_le [of now "rl_shards rl"]
  by (simp_all add: cleanup_def rl_ok_def rl_abs_def Let_def shards_ok_cleanup visitor_get_cleanup fun_eq_iff of_nat_diff)

lemma rl_Reset_refines:
  assumes "rl_ok rl"
  shows "rl_abs (rl_Reset ip rl) = snd (flat_do (Forget ip) (rl_abs rl))" "rl_ok (rl_Reset ip rl)"
proof -
  have ok: "shards_ok (rl_shards rl)" using assms by (simp add: rl_ok_def)
  have "shards_ok (map (\<lambda>sh. []) (rl_shards rl))" using ok by (auto simp: shards_ok_def shard_ok_def)
  moreover have "visitor_get (map (\<lambda>sh. []) (rl_shards rl)) j = None" for j
    using shards_ok_length [OF ok] by (simp add: visitor_get_def getShard_def)
  moreover have "visitor_count (map (\<lambda>sh. []) (rl_shards rl)) = 0" by (simp add: visitor_count_def o_def)
  moreover have "word_of_nat (visitor_count (visitor_delete (rl_shards rl) ip)) = (word_of_nat (visitor_count (rl_shards rl)) - 1 :: 64 word)"
    if "visitor_get (rl_shards rl) ip \<noteq> None"
    using visitor_count_delete [OF ok, of ip] that by (simp flip: of_nat_Suc) (metis add_diff_cancel_left' of_nat_Suc)
  ultimately show "rl_abs (rl_Reset ip rl) = snd (flat_do (Forget ip) (rl_abs rl))" "rl_ok (rl_Reset ip rl)"
    using assms by (auto simp: rl_Reset_def rl_ok_def rl_abs_def table.get_del_fun table.ok_del fun_eq_iff)
qed

lemma Unblock_refines:
  assumes "rl_ok rl"
  shows "rl_abs (Unblock ip rl) = snd (flat_do (Lift ip) (rl_abs rl))" "rl_ok (Unblock ip rl)"
  using assms
  by (auto simp: Unblock_def rl_ok_def rl_abs_def table.get_put_fun table.ok_put visitor_count_put fun_eq_iff split: option.split)

lemma rl_do_refines:
  assumes "rl_ok rl"
  shows "fst (rl_do op rl) = fst (flat_do op (rl_abs rl))" "rl_abs (snd (rl_do op rl)) = snd (flat_do op (rl_abs rl))"
    "rl_ok (snd (rl_do op rl))"
proof -
  note steps = AllowEndpoint_refines [OF assms] cleanup_refines [OF assms] rl_Reset_refines [OF assms] Unblock_refines [OF assms]
  note lists = rl_Blacklist_def rl_Whitelist_def RemoveFromBlacklist_def RemoveFromWhitelist_def
  show "fst (rl_do op rl) = fst (flat_do op (rl_abs rl))"
    by (cases op) (use steps in \<open>simp_all only: rl_do.simps(2-) flat_do.simps(2-) fst_conv\<close>)
  show "rl_abs (snd (rl_do op rl)) = snd (flat_do op (rl_abs rl))"
    by (cases op) (use steps in \<open>simp_all only: rl_do.simps(2-) snd_conv\<close>, simp_all add: lists rl_abs_def)
  show "rl_ok (snd (rl_do op rl))"
    by (cases op) (use steps assms in \<open>simp_all only: rl_do.simps(2-) snd_conv\<close>, simp_all add: lists rl_ok_def)
qed

lemma rl_run_refines:
  assumes "rl_ok rl"
  shows "fst (rl_run ops rl) = fst (flat_run ops (rl_abs rl)) \<and> rl_abs (snd (rl_run ops rl)) = snd (flat_run ops (rl_abs rl)) \<and>
    rl_ok (snd (rl_run ops rl))"
  using assms
proof (induction ops arbitrary: rl)
  case (Cons op ops)
  from Cons.IH [OF rl_do_refines(3) [OF Cons.prems, of op]] rl_do_refines(1,2) [OF Cons.prems, of op]
  show ?case by (simp add: case_prod_beta)
qed simp

lemma NewRateLimiter_ok: "rl_ok (NewRateLimiter cfg)"
  by (simp add: rl_ok_def NewRateLimiter_def shards_ok_def shard_ok_def visitor_count_def sum_list_replicate)

text \<open>
  (C37) The sharded limiter implements the flat one: for every sequence of operations it gives the same
  answers, holds the same visitors and lists, and keeps its invariant.
\<close>

theorem sharding_refines:
  "fst (rl_run ops (NewRateLimiter cfg)) = fst (flat_run ops (rl_abs (NewRateLimiter cfg))) \<and>
   rl_abs (snd (rl_run ops (NewRateLimiter cfg))) = snd (flat_run ops (rl_abs (NewRateLimiter cfg))) \<and>
   rl_ok (snd (rl_run ops (NewRateLimiter cfg)))"
  by (rule rl_run_refines) (rule NewRateLimiter_ok)

subsection \<open>The sliding window\<close>

fun op_time :: "rl_op \<Rightarrow> int option" where
  "op_time (Request now ip endpoint) = Some now"
| "op_time (Cleanup now) = Some now"
| "op_time _ = None"

fun allowed_times :: "string \<Rightarrow> rl_op list \<Rightarrow> bool option list \<Rightarrow> int list" where
  "allowed_times ip (Request now j endpoint # ops) (a # as) =
     (if j = ip \<and> a = Some True then [now] else []) @ allowed_times ip ops as"
| "allowed_times ip (op # ops) (a # as) = allowed_times ip ops as"
| "allowed_times ip _ _ = []"

definition max_limit :: "rl_Config \<Rightarrow> int" where
  "max_limit cfg = fold max (map (ec_RequestsPerMinute \<circ> snd) (rc_EndpointLimits cfg)) (rc_RequestsPerMinute cfg)"

definition window_count :: "int \<Rightarrow> int list \<Rightarrow> nat" where
  "window_count t log = length (filter (\<lambda>s. t - minute < s \<and> s \<le> t) log)"

lemma fold_max_ge: "x \<in> insert a (set xs) \<Longrightarrow> x \<le> fold max xs (a :: int)"
proof (induction xs arbitrary: a x)
  case (Cons y xs)
  show ?case
  proof (cases "x \<in> set xs")
    case False
    with Cons.prems have "x \<le> max y a" by auto
    also have "\<dots> \<le> fold max xs (max y a)" by (rule Cons.IH) simp
    finally show ?thesis by simp
  qed (use Cons.IH in simp)
qed simp

lemma getEndpointConfig_limit: "ec_RequestsPerMinute (getEndpointConfig cfg endpoint) \<le> max_limit cfg"
proof (cases "find (\<lambda>p. has_prefix endpoint p) (sort_key (\<lambda>p. - int (length p)) (map fst (rc_EndpointLimits cfg)))")
  case None
  then show ?thesis by (auto simp: getEndpointConfig_def max_limit_def intro: fold_max_ge)
next
  case (Some p)
  then have "p \<in> fst ` set (rc_EndpointLimits cfg)" by (auto simp: find_Some_iff) (metis nth_mem set_sort list.set_map length_sort length_map)
  then obtain c where "map_of (rc_EndpointLimits cfg) p = Some c" by (metis map_of_eq_None_iff not_None_eq)
  then have "ec_RequestsPerMinute c \<in> set (map (ec_RequestsPerMinute \<circ> snd) (rc_EndpointLimits cfg))"
    by (force dest: map_of_SomeD)
  then have "ec_RequestsPerMinute c \<le> max_limit cfg" unfolding max_limit_def by (intro fold_max_ge insertI2)
  with Some \<open>map_of _ _ = _\<close> show ?thesis by (simp add: getEndpointConfig_def)
qed

definition window_ok :: "int \<Rightarrow> int \<Rightarrow> visitor option \<Rightarrow> int list \<Rightarrow> bool" where
  "window_ok m t0 v log = ((\<forall>s\<in>set log. s \<le> t0) \<and>
     live_timestamps t0 log = live_timestamps t0 (case v of None \<Rightarrow> [] | Some v \<Rightarrow> v_timestamps v) \<and>
     (\<forall>t. int (window_count t log) \<le> m))"

lemma live_live: "t0 \<le> t1 \<Longrightarrow> live_timestamps t1 (live_timestamps t0 ts) = live_timestamps t1 ts"
  by (auto simp: live_timestamps_def intro: filter_cong)

lemma live_Nil [simp]: "live_timestamps now [] = []"
  by (simp add: live_timestamps_def)

lemma live_append [simp]: "live_timestamps now (xs @ ys) = live_timestamps now xs @ live_timestamps now ys"
  by (simp add: live_timestamps_def)

lemma window_ok_later:
  assumes "window_ok m t0 v log" "t0 \<le> t1"
  shows "window_ok m t1 v log"
proof -
  have "live_timestamps t1 log = live_timestamps t1 (live_timestamps t0 log)" by (rule live_live [symmetric, OF assms(2)])
  also have "\<dots> = live_timestamps t1 (live_timestamps t0 (case v of None \<Rightarrow> [] | Some v \<Rightarrow> v_timestamps v))"
    using assms(1) by (simp add: window_ok_def)
  finally show ?thesis using assms by (auto simp: window_ok_def live_live)
qed

lemma window_ok_same:
  "window_ok m t0 v log \<Longrightarrow> live_timestamps t0 (v_timestamps w) = live_timestamps t0 (case v of None \<Rightarrow> [] | Some v \<Rightarrow> v_timestamps v) \<Longrightarrow>
   window_ok m t0 (Some w) log"
  by (simp add: window_ok_def)

lemma window_ok_push:
  assumes "window_ok m now v log" "int (length (live_timestamps now log)) < m"
    "v_timestamps w = live_timestamps now (case v of None \<Rightarrow> [] | Some v \<Rightarrow> v_timestamps v) @ [now]"
  shows "window_ok m now (Some w) (log @ [now])"
proof -
  have "int (window_count t (log @ [now])) \<le> m" for t
  proof (cases "now \<le> t")
    case True
    have "length (filter (\<lambda>s. t - minute < s \<and> s \<le> t) log) \<le> length (filter (\<lambda>s. now - minute < s) log)"
      using True by (induction log) auto
    with assms(2) show ?thesis by (simp add: window_count_def live_timestamps_def)
  next
    case False
    then show ?thesis using assms(1) by (simp add: window_ok_def window_count_def)
  qed
  then show ?thesis using assms by (simp add: window_ok_def live_live)
qed

lemma admit_window:
  assumes "window_ok m now (Some v) log" "admit cfg now v = (ok, w)" "ec_RequestsPerMinute cfg \<le> m"
  shows "window_ok m now (Some w) (log @ (if ok then [now] else []))"
proof -
  have ts: "v_timestamps (expire_block now v) = v_timestamps v" by (simp add: expire_block_def)
  have live: "live_timestamps now log = live_timestamps now (v_timestamps v)" using assms(1) by (simp add: window_ok_def)
  consider "ok" "v_timestamps w = live_timestamps now (v_timestamps v) @ [now]"
      "int (length (live_timestamps now (v_timestamps v))) < ec_RequestsPerMinute cfg"
    | "\<not> ok" "live_timestamps now (v_timestamps w) = live_timestamps now (v_timestamps v)"
    using assms(2) by (auto simp: admit_def Let_def ts live_live split: if_splits)
  then show ?thesis
  proof cases
    case 1
    with window_ok_push [OF assms(1), of w] assms(3) live show ?thesis by simp
  next
    case 2
    with window_ok_same [OF assms(1), of w] show ?thesis by simp
  qed
qed

lemma cleanup_window: "window_ok m now v log \<Longrightarrow> window_ok m now (Option.bind v (cleanup_visitor now)) log"
  by (cases v) (auto simp: window_ok_def cleanup_visitor_def expire_block_def Let_def live_live)

definition timed :: "rl_op \<Rightarrow> bool" where
  "timed op = (op_time op \<noteq> None)"

lemma flat_do_window:
  assumes "timed op" "op_time op = Some now" "window_ok m now (fl_visitors fl ip) log" "max_limit (fl_config fl) \<le> m" "1 \<le> m"
    "{ip, normalizeIP ip} \<inter> fl_pass fl = {}"
  shows "window_ok m now (fl_visitors (snd (flat_do op fl)) ip) (log @ allowed_times ip [op] [fst (flat_do op fl)])"
proof (cases op)
  case (Request t j endpoint)
  with assms(2) have [simp]: "t = now" by simp
  show ?thesis
  proof (cases "flat_decision j fl")
    case (Some ok)
    then have "j = ip \<Longrightarrow> \<not> ok" using assms(6) by (auto simp: flat_decision_def split: if_splits)
    with Some Request assms(3) show ?thesis by auto
  next
    case None
    note undecided = this
    show ?thesis
    proof (cases "fl_visitors fl j")
      case None
      with undecided Request assms(3,5) window_ok_push [of m now None log "\<lparr>v_timestamps = [now], v_blocked = False, v_blockUntil = 0\<rparr>"]
      show ?thesis by (auto simp: window_ok_def live_timestamps_def)
    next
      case (Some v)
      obtain ok w where a: "admit (getEndpointConfig (fl_config fl) endpoint) now v = (ok, w)" by fastforce
      have "ec_RequestsPerMinute (getEndpointConfig (fl_config fl) endpoint) \<le> m"
        using getEndpointConfig_limit assms(4) by (rule order_trans)
      from admit_window [OF _ a this, of log] undecided Request assms(3) a Some show ?thesis by auto
    qed
  qed
qed (use assms(1-3) cleanup_window in \<open>auto simp: timed_def\<close>)

lemma flat_do_keeps:
  "timed op \<Longrightarrow> fl_pass (snd (flat_do op fl)) = fl_pass fl \<and> fl_config (snd (flat_do op fl)) = fl_config fl"
  by (cases op) (auto simp: timed_def split: option.split prod.split)

lemma allowed_times_Cons: "allowed_times ip (op # ops) (a # as) = allowed_times ip [op] [a] @ allowed_times ip ops as"
  by (cases op) auto

lemma flat_run_window:
  assumes "list_all timed ops" "sorted (t0 # map (the \<circ> op_time) ops)" "window_ok m t0 (fl_visitors fl ip) log"
    "max_limit (fl_config fl) \<le> m" "1 \<le> m" "{ip, normalizeIP ip} \<inter> fl_pass fl = {}"
  shows "int (window_count t (log @ allowed_times ip ops (fst (flat_run ops fl)))) \<le> m"
  using assms
proof (induction ops arbitrary: t0 fl log)
  case Nil
  then show ?case by (simp add: window_ok_def)
next
  case (Cons op ops)
  obtain now where now: "op_time op = Some now" using Cons.prems(1) by (auto simp: timed_def)
  obtain a fl' where step: "flat_do op fl = (a, fl')" by fastforce
  have "window_ok m now (fl_visitors fl ip) log" using Cons.prems(2,3) now window_ok_later by simp
  from flat_do_window [OF _ now this] Cons.prems step
  have "window_ok m now (fl_visitors fl' ip) (log @ allowed_times ip [op] [a])" by simp
  moreover have "fl_pass fl' = fl_pass fl" "fl_config fl' = fl_config fl"
    using flat_do_keeps [of op fl] Cons.prems(1) step by simp_all
  ultimately have "int (window_count t ((log @ allowed_times ip [op] [a]) @ allowed_times ip ops (fst (flat_run ops fl')))) \<le> m"
    using Cons.prems now by (intro Cons.IH) simp_all
  then show ?case by (simp add: step case_prod_beta allowed_times_Cons [of ip op ops])
qed

text \<open>
  (C38) In no window of one minute, wherever it begins, does the limiter let more requests of one address
  pass than the largest configured limit, with clean-ups at any times and requests of other addresses in
  between; the first request of a new address always passes. Addresses on the whitelist are exempt.
\<close>

theorem rate_limit_window:
  assumes "list_all timed ops" "sorted (map (the \<circ> op_time) ops)" "{ip, normalizeIP ip} \<inter> set (rc_Whitelist cfg) = {}"
  shows "int (window_count t (allowed_times ip ops (fst (rl_run ops (NewRateLimiter cfg))))) \<le> max 1 (max_limit cfg)"
proof (cases ops)
  case (Cons op ops')
  define fl where "fl = rl_abs (NewRateLimiter cfg)"
  have fl: "fl_visitors fl j = None" "fl_config fl = cfg" "fl_pass fl = set (rc_Whitelist cfg)" for j
    by (simp_all add: fl_def rl_abs_def NewRateLimiter_def visitor_get_def getShard_def)
  have "sorted (the (op_time op) # map (the \<circ> op_time) ops)" using assms(2) Cons by simp
  from flat_run_window [OF assms(1) this, of "max 1 (max_limit cfg)" fl ip "[]" t] fl assms(3)
  have "int (window_count t (allowed_times ip ops (fst (flat_run ops fl)))) \<le> max 1 (max_limit cfg)"
    by (simp add: window_ok_def live_timestamps_def window_count_def)
  then show ?thesis using rl_run_refines [OF NewRateLimiter_ok] by (simp add: fl_def)
qed (simp add: window_count_def)

subsection \<open>Blocks\<close>

lemma flat_do_blocked:
  assumes "timed op" "the (op_time op) \<le> u * second" "{ip, normalizeIP ip} \<inter> fl_pass fl = {}"
    "fl_visitors fl ip = Some v" "v_blocked v" "v_blockUntil v = u"
  shows "allowed_times ip [op] [fst (flat_do op fl)] = [] \<and>
    (\<exists>w. fl_visitors (snd (flat_do op fl)) ip = Some w \<and> v_blocked w \<and> v_blockUntil w = u)"
proof (cases op)
  case (Request t j endpoint)
  have "j = ip \<Longrightarrow> admit c t v = (False, v)" for c
    using assms Request by (simp add: admit_def expire_block_def)
  with Request assms show ?thesis
    by (cases "j = ip") (auto simp: flat_decision_def split: option.split prod.split)
next
  case (Cleanup t)
  with assms show ?thesis by (simp add: cleanup_visitor_def expire_block_def)
qed (use assms(1) in \<open>simp_all add: timed_def\<close>)

lemma flat_run_blocked:
  assumes "list_all timed ops" "\<forall>op\<in>set ops. the (op_time op) \<le> u * second" "{ip, normalizeIP ip} \<inter> fl_pass fl = {}"
    "fl_visitors fl ip = Some v" "v_blocked v" "v_blockUntil v = u"
  shows "allowed_times ip ops (fst (flat_run ops fl)) = []"
  using assms
proof (induction ops arbitrary: fl v)
  case (Cons op ops)
  obtain a fl' where step: "flat_do op fl = (a, fl')" by fastforce
  from flat_do_blocked [of op u ip fl v] Cons.prems step obtain w where
    w: "allowed_times ip [op] [a] = []" "fl_visitors fl' ip = Some w" "v_blocked w" "v_blockUntil w = u" by auto
  have "fl_pass fl' = fl_pass fl" using flat_do_keeps [of op fl] Cons.prems(1) step by simp
  with Cons.IH [of fl' w] Cons.prems w have "allowed_times ip ops (fst (flat_run ops fl')) = []" by simp
  then show ?case using w(1) by (simp add: step case_prod_beta allowed_times_Cons [of ip op ops])
qed simp

text \<open>
  (C39) When the window refuses a request of an address that was not blocked, every further request of the
  address is refused until the configured block duration has passed, rounded down to a full second, to
  whatever endpoint it goes.
\<close>

theorem block_lasts:
  assumes "rl_ok rl" "list_decision None ip endpoint rl = None" "\<forall>v. visitor_get (rl_shards rl) ip = Some v \<longrightarrow> \<not> v_blocked v"
    "AllowEndpoint None now ip endpoint rl = (False, rl')" "list_all timed ops"
    "\<forall>op\<in>set ops. the (op_time op) \<le> (now + ec_BlockDuration (getEndpointConfig (rl_config rl) endpoint)) div second * second"
  shows "allowed_times ip ops (fst (rl_run ops rl')) = []"
proof -
  let ?u = "(now + ec_BlockDuration (getEndpointConfig (rl_config rl) endpoint)) div second"
  have ok: "shards_ok (rl_shards rl)" using assms(1) by (simp add: rl_ok_def)
  obtain v where v: "visitor_get (rl_shards rl) ip = Some v"
    using assms(2,4) by (auto simp: AllowEndpoint_def Let_def split: option.splits)
  obtain w where "admit (getEndpointConfig (rl_config rl) endpoint) now v = (False, w)"
    "rl' = count_decision False (rl\<lparr>rl_shards := visitor_put (rl_shards rl) ip w\<rparr>)"
    using assms(2,4) v by (auto simp: AllowEndpoint_def Let_def split: prod.splits)
  moreover from this(1) have "v_blocked w" "v_blockUntil w = ?u"
    using assms(3) v by (auto simp: admit_def expire_block_def Let_def split: if_splits)
  moreover have "{ip, normalizeIP ip} \<inter> rl_whitelist rl = {}" using assms(2) by (auto simp: list_decision_def split: if_splits)
  ultimately have "allowed_times ip ops (fst (flat_run ops (rl_abs rl'))) = []"
    using assms(5,6) by (intro flat_run_blocked [of ops ?u ip _ w]) (simp_all add: rl_abs_def table.get_put_fun [OF ok])
  moreover have "rl_ok rl'" using AllowEndpoint_refines(3) [OF assms(1), of now ip endpoint] assms(4) by simp
  ultimately show ?thesis using rl_run_refines by metis
qed

subsection \<open>Endpoints\<close>

lemma find_SomeD: "find P xs = Some x \<Longrightarrow> x \<in> set xs \<and> P x"
  by (auto simp: find_Some_iff)

lemma find_sorted_longest:
  assumes "sorted (map (\<lambda>p. - int (length p)) ps)" "p \<in> set ps" "P p" "find P ps = Some q"
  shows "length p \<le> length q"
proof -
  obtain i where i: "i < length ps" "P (ps ! i)" "q = ps ! i" "\<forall>j<i. \<not> P (ps ! j)" using assms(4) by (auto simp: find_Some_iff)
  obtain k where k: "k < length ps" "p = ps ! k" using assms(2) by (auto simp: in_set_conv_nth)
  with i assms(3) have "i \<le> k" by (metis linorder_not_less)
  with assms(1) k i show ?thesis using sorted_nth_mono [OF assms(1), of i k] by simp
qed

text \<open>The longest prefix of the path decides, whatever the order of the table.\<close>

lemma getEndpointConfig_longest:
  assumes "distinct (map fst (rc_EndpointLimits cfg))" "(p, c) \<in> set (rc_EndpointLimits cfg)" "has_prefix endpoint p"
    "\<And>q. q \<in> fst ` set (rc_EndpointLimits cfg) \<Longrightarrow> has_prefix endpoint q \<Longrightarrow> length q \<le> length p"
  shows "getEndpointConfig cfg endpoint = c"
proof -
  let ?ps = "sort_key (\<lambda>p. - int (length p)) (map fst (rc_EndpointLimits cfg))"
  have p: "p \<in> set ?ps" using assms(2) by force
  then obtain q where q: "find (\<lambda>p. has_prefix endpoint p) ?ps = Some q"
    using assms(3) by (cases "find (\<lambda>p. has_prefix endpoint p) ?ps") (auto simp: find_None_iff)
  then have "q \<in> set ?ps" "has_prefix endpoint q" using find_SomeD by metis+
  moreover have "length p \<le> length q" by (rule find_sorted_longest [OF _ p _ q]) (use assms(3) in simp_all)
  ultimately have "length q = length p" using assms(4) [of q] by simp
  then have "q = p" using \<open>has_prefix endpoint q\<close> assms(3) by (auto simp: prefix_def append_eq_append_conv_if)
  with q assms(1,2) show ?thesis by (simp add: getEndpointConfig_def)
qed

subsection \<open>Examples\<close>

definition example_cfg :: rl_Config where
  "example_cfg = \<lparr>rc_RequestsPerMinute = 1, rc_BurstSize = 3, rc_BlockDuration = minute, rc_Whitelist = [],
     rc_EndpointLimits = [], rc_CleanupInterval = minute\<rparr>"

abbreviation example_ip :: string where "example_ip \<equiv> ''10.0.0.7''"

abbreviation example_ops :: "rl_op list" where
  "example_ops \<equiv> [Request 1 example_ip ''/'', Request 2 example_ip ''/'', Cleanup 3, Request 4 example_ip ''/'']"

lemma example_normal: "normalizeIP example_ip = example_ip"
  by (simp add: normalizeIP_def)

theorem rate_limit_window_witness:
  "int (window_count minute (allowed_times example_ip example_ops (fst (rl_run example_ops (NewRateLimiter example_cfg))))) \<le> 1"
  using rate_limit_window [of example_ops example_ip example_cfg minute]
  by (simp add: timed_def example_normal example_cfg_def max_limit_def)

definition late_ops :: "rl_op list" where
  "late_ops = [Request 3 example_ip ''/'', Cleanup (30 * second), Request (59 * second) example_ip ''/login'']"

definition example_rl :: RateLimiter where
  "example_rl = snd (AllowEndpoint None 1 example_ip ''/'' (NewRateLimiter example_cfg))"

lemma example_rl:
  "rl_ok example_rl" "rl_config example_rl = example_cfg" "list_decision None example_ip ''/'' example_rl = None"
  "visitor_get (rl_shards example_rl) example_ip = Some \<lparr>v_timestamps = [1], v_blocked = False, v_blockUntil = 0\<rparr>"
proof -
  have n: "list_decision None example_ip ''/'' (NewRateLimiter example_cfg) = None"
    "visitor_get (rl_shards (NewRateLimiter example_cfg)) example_ip = None"
    by (simp_all add: list_decision_def NewRateLimiter_def example_cfg_def visitor_get_def getShard_def)
  have ok: "shards_ok (rl_shards (NewRateLimiter example_cfg))" using NewRateLimiter_ok by (simp add: rl_ok_def)
  show "rl_ok example_rl"
    using AllowEndpoint_refines(3) [OF NewRateLimiter_ok, of 1 example_ip "''/''" example_cfg]
    by (simp add: example_rl_def case_prod_beta)
  show "visitor_get (rl_shards example_rl) example_ip = Some \<lparr>v_timestamps = [1], v_blocked = False, v_blockUntil = 0\<rparr>"
    by (simp add: example_rl_def AllowEndpoint_def n Let_def table.get_put [OF ok])
  show "rl_config example_rl = example_cfg" "list_decision None example_ip ''/'' example_rl = None"
    by (simp_all add: example_rl_def AllowEndpoint_def n Let_def) (simp_all add: list_decision_def NewRateLimiter_def example_cfg_def)
qed

theorem block_lasts_witness:
  "allowed_times example_ip late_ops (fst (rl_run late_ops (snd (AllowEndpoint None 2 example_ip ''/'' example_rl)))) = []"
proof -
  have c: "getEndpointConfig example_cfg ''/'' = \<lparr>ec_RequestsPerMinute = 1, ec_BurstSize = 3, ec_BlockDuration = minute\<rparr>"
    by (simp add: getEndpointConfig_def example_cfg_def)
  have "\<not> fst (AllowEndpoint None 2 example_ip ''/'' example_rl)"
    by (simp add: AllowEndpoint_def example_rl c admit_def expire_block_def live_timestamps_def)
  then have "AllowEndpoint None 2 example_ip ''/'' example_rl = (False, snd (AllowEndpoint None 2 example_ip ''/'' example_rl))"
    by (simp add: prod_eq_iff)
  moreover have "list_all timed late_ops" "\<forall>op\<in>set late_ops. the (op_time op) \<le> (2 + ec_BlockDuration (getEndpointConfig (rl_config example_rl) ''/'')) div second * second"
    by (simp_all add: late_ops_def timed_def example_rl c)
  ultimately show ?thesis using block_lasts [OF example_rl(1,3)] example_rl(4) by simp
qed

subsection \<open>Deviations\<close>

text \<open>The burst size of a configuration has no influence.\<close>

lemma burst_size_unused: "admit (cfg\<lparr>ec_BurstSize := b\<rparr>) now v = admit cfg now v"
  by (simp add: admit_def Let_def)

text \<open>The first request of an address passes even where the limit is zero.\<close>

lemma first_request_passes:
  "visitor_get (rl_shards rl) ip = None \<Longrightarrow> list_decision None ip endpoint rl = None \<Longrightarrow> fst (AllowEndpoint None now ip endpoint rl)"
  by (simp add: AllowEndpoint_def Let_def)

text \<open>
  The middleware believes the header \<open>X-Forwarded-For\<close>: whoever sends the loopback address there is on the
  default whitelist and is never limited.
\<close>

lemma forwarded_for_bypass:
  assumes "localHostIP \<in> rl_whitelist rl" "rq_ForwardedFor r = localHostIP"
  shows "fst (rl_Middleware redis now later r rl) = NextHandler (rc_RequestsPerMinute (rl_config rl))"
proof -
  have "extractIP r = localHostIP" using assms(2) by (simp add: extractIP_def localHostIP_def)
  with assms(1) show ?thesis by (simp add: rl_Middleware_def AllowEndpoint_def list_decision_def)
qed

lemma default_whitelist: "localHostIP \<in> rl_whitelist (NewRateLimiter DefaultConfig)"
  by (simp add: NewRateLimiter_def DefaultConfig_def)

end
