(* ===== verification/Ip_Allow.thy ===== *)
theory Ip_Allow
  imports Go_Net
begin

text \<open>
  The allowlist of administrators' addresses (\<open>internal/app/ipallow/ipallow.go\<close>). The entries are objects
  that the map \<open>entries\<close> and the list \<open>cidrs\<close> share: they live in a heap, addressed by their position,
  and both structures hold addresses. The persistent store, the time and the generated identifiers are
  arguments. \<open>AddIP\<close> and \<open>AddCIDR\<close> release the lock before they persist, so each is two steps: the insertion
  and, where persisting fails, the rollback.
\<close>

subsection \<open>State\<close>

record AllowlistEntry =
  ae_ID :: string
  ae_IP :: string
  ae_CIDR :: "IPNet option"
  ae_Description :: string
  ae_CreatedAt :: int
  ae_CreatedBy :: string
  ae_LastHit :: "int option"
  ae_HitCount :: "64 word"
  ae_Enabled :: bool

record ia_Config =
  ia_Enabled :: bool
  ia_EnforceForAPI :: bool
  ia_EnforceForDashboard :: bool
  ia_AllowLocalhost :: bool
  ia_BypassHeader :: string
  ia_BypassSecret :: string


record Manager =
  m_heap :: "AllowlistEntry list"
  m_entries :: "(string \<times> nat) list"
  m_cidrs :: "nat list"
  m_config :: ia_Config

datatype ia_error = ErrInvalidIP | ErrInvalidCIDR | ErrAlreadyExists | ErrNotFound | StoreError go_error


subsection \<open>Operations\<close>

text \<open>The entries that the store returns become new objects.\<close>

definition load_entry :: "AllowlistEntry \<Rightarrow> Manager \<Rightarrow> Manager" where
  "load_entry e m =
     (let p = length (m_heap m) in
      m\<lparr>m_heap := m_heap m @ [e], m_entries := AList.update (ae_IP e) p (m_entries m),
        m_cidrs := (if ae_CIDR e \<noteq> None then m_cidrs m @ [p] else m_cidrs m)\<rparr>)"

definition LoadEntries :: "(go_error + AllowlistEntry list) option \<Rightarrow> Manager \<Rightarrow> ia_error option \<times> Manager" where
  "LoadEntries store m = (case store of
     None \<Rightarrow> (None, m)
   | Some (Inl err) \<Rightarrow> (Some (StoreError err), m)
   | Some (Inr es) \<Rightarrow> (None, fold load_entry es m))"

definition new_entry :: "string \<Rightarrow> int \<Rightarrow> string \<Rightarrow> IPNet option \<Rightarrow> string \<Rightarrow> string \<Rightarrow> AllowlistEntry" where
  "new_entry i now ip cidr description createdBy =
     \<lparr>ae_ID = i, ae_IP = ip, ae_CIDR = cidr, ae_Description = description, ae_CreatedAt = now, ae_CreatedBy = createdBy,
      ae_LastHit = None, ae_HitCount = 0, ae_Enabled = True\<rparr>"



definition AddCIDR_insert :: "string \<Rightarrow> int \<Rightarrow> string \<Rightarrow> string \<Rightarrow> string \<Rightarrow> Manager \<Rightarrow> (ia_error + string) \<times> Manager" where
  "AddCIDR_insert i now cidr description createdBy m = (case ParseCIDR cidr of
     None \<Rightarrow> (Inl ErrInvalidCIDR, m)
   | Some ipNet \<Rightarrow>
       let cidr = net_String ipNet; p = length (m_heap m) in
       if map_of (m_entries m) cidr \<noteq> None then (Inl ErrAlreadyExists, m)
       else (Inr cidr, m\<lparr>m_heap := m_heap m @ [new_entry i now cidr (Some ipNet) description createdBy],
                         m_entries := AList.update cidr p (m_entries m), m_cidrs := m_cidrs m @ [p]\<rparr>))"

definition AddCIDR_rollback :: "string \<Rightarrow> Manager \<Rightarrow> Manager" where
  "AddCIDR_rollback cidr m = m\<lparr>m_entries := AList.delete cidr (m_entries m), m_cidrs := butlast (m_cidrs m)\<rparr>"





text \<open>The entry that lets an address pass, whose hit is recorded later.\<close>

definition matching_entry :: "ip_bytes \<Rightarrow> Manager \<Rightarrow> nat option" where
  "matching_entry ip m = (case map_of (m_entries m) (ip_String ip) of
     Some p \<Rightarrow> if ae_Enabled (m_heap m ! p) then Some p else None
   | None \<Rightarrow> None)"

definition matching_cidr :: "ip_bytes \<Rightarrow> Manager \<Rightarrow> nat option" where
  "matching_cidr ip m = find (\<lambda>p. let e = m_heap m ! p in
     ae_Enabled e \<and> (case ae_CIDR e of Some n \<Rightarrow> Contains n ip | None \<Rightarrow> False)) (m_cidrs m)"

definition IsAllowed :: "string \<Rightarrow> Manager \<Rightarrow> bool" where
  "IsAllowed ip m =
     (if \<not> ia_Enabled (m_config m) then True
      else case ParseIP ip of
        None \<Rightarrow> False
      | Some parsedIP \<Rightarrow>
          if ia_AllowLocalhost (m_config m) \<and> IsLoopback parsedIP then True
          else if matching_entry parsedIP m \<noteq> None then True
          else matching_cidr parsedIP m \<noteq> None)"

definition CheckBypassHeader :: "string \<Rightarrow> Manager \<Rightarrow> bool" where
  "CheckBypassHeader headerValue m =
     (if ia_BypassHeader (m_config m) = [] \<or> ia_BypassSecret (m_config m) = [] then False
      else headerValue = ia_BypassSecret (m_config m))"







definition ExtractIP :: "string \<Rightarrow> string \<Rightarrow> string" where
  "ExtractIP remoteAddr forwardedFor =
     (if forwardedFor \<noteq> [] then takeWhile (\<lambda>c. c \<noteq> CHR '','') forwardedFor
      else case SplitHostPort remoteAddr of None \<Rightarrow> remoteAddr | Some (host, port) \<Rightarrow> host)"

text \<open>The middleware of the gateway in front of the administrative endpoints: whether the request goes on.\<close>

definition ipAllowlistMiddleware :: "string \<Rightarrow> string \<Rightarrow> string \<Rightarrow> string \<Rightarrow> Manager option \<Rightarrow> bool" where
  "ipAllowlistMiddleware path remoteAddr forwardedFor bypassHeader mgr = (case mgr of
     None \<Rightarrow> True
   | Some m \<Rightarrow>
       if ia_Enabled (m_config m) \<and>
          (has_prefix path ''/api/admin/'' \<or> has_prefix path ''/api/security/'' \<or> has_prefix path ''/api/apikeys'')
       then IsAllowed (ExtractIP remoteAddr forwardedFor) m \<or> bypassHeader \<noteq> [] \<and> CheckBypassHeader bypassHeader m
       else True)"

subsection \<open>Keys\<close>






subsection \<open>The invariant\<close>

definition entry_shape :: "string \<Rightarrow> AllowlistEntry \<Rightarrow> bool" where
  "entry_shape k e = (ae_IP e = k \<and> (ae_CIDR e \<noteq> None \<longleftrightarrow> CHR ''/'' \<in> set k))"

definition ia_ok :: "Manager \<Rightarrow> bool" where
  "ia_ok m = (distinct (map fst (m_entries m)) \<and>
     (\<forall>(k, p)\<in>set (m_entries m). p < length (m_heap m) \<and> entry_shape k (m_heap m ! p)) \<and>
     set (m_cidrs m) = {p \<in> snd ` set (m_entries m). ae_CIDR (m_heap m ! p) \<noteq> None} \<and>
     inj_on (\<lambda>p. ae_ID (m_heap m ! p)) (snd ` set (m_entries m)))"





lemma ia_ok_config [simp]: "ia_ok (m\<lparr>m_config := c\<rparr>) = ia_ok m"
  by (simp add: ia_ok_def)











lemma new_entry_simps [simp]:
  "ae_ID (new_entry i now ip c d u) = i" "ae_IP (new_entry i now ip c d u) = ip" "ae_CIDR (new_entry i now ip c d u) = c"
  "ae_Enabled (new_entry i now ip c d u)"
  by (simp_all add: new_entry_def)







subsection \<open>Who is allowed\<close>






lemma example_ip: "ParseIP ''10.0.0.7'' = Some (v4InV6Prefix @ [10, 0, 0, 7])" "ParseIP ''127.0.0.1'' = Some (v4InV6Prefix @ [127, 0, 0, 1])"
  by (simp_all add: ParseIP_def as16_def parse_addr_def parse_v4_def parse_octet_def is_digit_def digit_val_def dec_value_def
      less_eq_char_def Let_def)




subsection \<open>Deviations\<close>

text \<open>
  \<open>AddCIDR\<close> undoes a failed insertion by dropping the last element of the list, after another insertion
  may have come in between: the network that was refused stays in force and the other one is lost.
\<close>

lemma rollback_drops_other:
  assumes "AddCIDR_insert i now c d u m = (Inr k, m1)" "AddCIDR_insert i' now' c' d' u' m1 = (Inr k', m2)" "ParseCIDR c = Some n"
  defines "m3 \<equiv> AddCIDR_rollback k m2"
  shows "length (m_heap m) \<in> set (m_cidrs m3)" "ae_CIDR (m_heap m3 ! length (m_heap m)) = Some n"
    "map_of (m_entries m3) k = None" "map_of (m_entries m3) k' = Some (Suc (length (m_heap m)))"
    "Suc (length (m_heap m)) \<in> set (m_cidrs m3) \<Longrightarrow> Suc (length (m_heap m)) \<in> set (m_cidrs m)"
proof -
  from assms(1,3) have k: "k = net_String n" and m1: "m_heap m1 = m_heap m @ [new_entry i now k (Some n) d u]"
    "m_entries m1 = AList.update k (length (m_heap m)) (m_entries m)" "m_cidrs m1 = m_cidrs m @ [length (m_heap m)]"
    by (auto simp: AddCIDR_insert_def Let_def split: if_splits)
  from assms(2) obtain n' where m2: "m_heap m2 = m_heap m1 @ [new_entry i' now' k' (Some n') d' u']"
    "m_entries m2 = AList.update k' (length (m_heap m1)) (m_entries m1)" "m_cidrs m2 = m_cidrs m1 @ [length (m_heap m1)]"
    "map_of (m_entries m1) k' = None"
    by (auto simp: AddCIDR_insert_def Let_def split: if_splits option.splits)
  have "k' \<noteq> k" using m2(4) by (auto simp: m1 update_conv')
  then show "length (m_heap m) \<in> set (m_cidrs m3)" "ae_CIDR (m_heap m3 ! length (m_heap m)) = Some n"
    "map_of (m_entries m3) k = None" "map_of (m_entries m3) k' = Some (Suc (length (m_heap m)))"
    "Suc (length (m_heap m)) \<in> set (m_cidrs m3) \<Longrightarrow> Suc (length (m_heap m)) \<in> set (m_cidrs m)"
    by (simp_all add: m3_def AddCIDR_rollback_def m2 m1 nth_append update_conv' delete_conv' butlast_append)
qed

text \<open>
  The middleware takes the address from the header \<open>X-Forwarded-For\<close>, so a client that sends the loopback
  address there passes the allowlist of a default configuration.
\<close>

lemma forwarded_for_passes:
  assumes "ia_AllowLocalhost (m_config m)"
  shows "ipAllowlistMiddleware path remoteAddr ''127.0.0.1'' [] (Some m)"
proof -
  have "IsLoopback (v4InV6Prefix @ [127, 0, 0, 1])" by (simp add: IsLoopback_def To4_def v4InV6Prefix_def)
  with assms show ?thesis by (simp add: ipAllowlistMiddleware_def ExtractIP_def IsAllowed_def example_ip)
qed

end
