(* ===== verification/Spec2Isabelle.thy ===== *)
theory Spec2Isabelle
  imports Trans_Codec Http_Middleware Store Operators Rate_Limit Ip_Allow
begin

text \<open>
  A verification development of the Coraza web application firewall and of the gateway Obsidian that is built
  around it. All paths are relative to \<open>src/\<close>.

  \<^bold>\<open>The program.\<close> A connector (\<open>http/\<close>) takes a transaction from a pool, feeds it the request and, after the
  handler of the application ran, the response. The transaction (\<open>internal/corazawaf/transaction.go\<close>) keeps
  the variables that rules can read, buffers the bodies, lets body processors parse them, and evaluates the rules
  of five phases. A rule (\<open>rule.go\<close>, \<open>rulegroup.go\<close>) reads its targets from the collections, applies its
  transformations, asks its operator, and runs its actions, which may interrupt the transaction. The gateway
  (\<open>internal/app/\<close>, \<open>cmd/obsidian\<close>) adds a store of rules, logs and users, a rate limiter and an allowlist of
  addresses.

  \<^bold>\<open>Conventions.\<close> A Go struct is a record, a Go error is a string, and a result of type option is \<open>None\<close> for a
  panic. Strings are lists of bytes. Integers are \<open>int\<close> with the wrap-around written out where the code can
  reach it, or words. A Go map is an association list or a function, and where its order of iteration matters
  the order is a parameter. Pointers that are shared, as in the allowlist, are indices of a heap.

  \<^bold>\<open>Theories, from the bottom.\<close>
  \<^item> \<open>Prelude\<close>, \<open>Go_Lib\<close>, \<open>Go_Text\<close>, \<open>Go_Net\<close>: shared lemmas, and the parts of the Go library the code uses
    (strings, strconv, UTF-8, addresses and networks).
  \<^item> \<open>Byte_Util\<close>, \<open>Inplace\<close>: \<open>internal/strings\<close>, \<open>internal/url\<close>, \<open>internal/cookies\<close>, and the decoders that write
    over the buffer they read, with a locale that reduces them to a scan of the input.
  \<^item> \<open>Trans_Decode\<close>, \<open>Trans_Escape\<close>, \<open>Trans_Text\<close>, \<open>Trans_Codec\<close>: \<open>internal/transformations\<close>. They are total,
    the in-place decoders equal their reference, encoders have inverses.
  \<^item> \<open>Variables\<close>, \<open>Collections\<close>, \<open>Macro\<close>, \<open>Body_Buffer\<close>: \<open>internal/variables\<close>, \<open>internal/collections\<close>, the macro
    compiler, and the buffer that moves a body to a file. The buffer refines a bounded byte string.
  \<^item> \<open>Waf_Types\<close>, \<open>Tx_State\<close>, \<open>Rules\<close>, \<open>Actions\<close>: \<open>types\<close>, \<open>waf.go\<close>, the state of a transaction, rules, and every
    action. A transaction from the pool looks like a new one, limits of arguments hold, scores add up.
  \<^item> \<open>Engine\<close>, \<open>Engine_Props\<close>: the evaluation of a rule with its chain and of a phase. It terminates; in detection
    mode nothing interrupts; chains act as a whole; removed rules have no effect.
  \<^item> \<open>Operators\<close>: \<open>internal/operators\<close>. Operators change nothing but variables; the address operator
    matches exactly the networks it lists.
  \<^item> \<open>Body_Processors\<close>, \<open>Phases\<close>: \<open>internal/bodyprocessors\<close> and the calls of a connector. Phases run in order and
    once, interruptions stay, the stored body is the prefix that the limit allows, parse errors reach the rules.
  \<^item> \<open>Http_Middleware\<close>: \<open>http/\<close>. An interrupted response stays hidden, a response and a request body that pass
    arrive unchanged.
  \<^item> \<open>Store_Rules\<close>, \<open>Store\<close>: \<open>internal/app/store\<close>. Rule identifiers stay unique, locked rules survive,
    counters add up in 64-bit arithmetic.
  \<^item> \<open>Rate_Limit\<close>, \<open>Ip_Allow\<close>: \<open>internal/app/ratelimit\<close>, \<open>internal/app/ipallow\<close> and its middleware. The shards
    implement one table, limits hold in every window of a minute, blocks last; the allowlist admits
    exactly what its entries cover.

  Lemmas under the heading \<open>Deviations\<close> state what the code does where it departs from its comments or from what
  it evidently means to do.

  \<^bold>\<open>Bounds.\<close> Loops are structural recursion or functions with a measure. The only fuel is that of reading a body in
  chunks: one step more than the body has bytes, which is proved enough for every positive chunk size. The copy
  loops use the chunk size 32768 of package \<open>io\<close>.

  \<^bold>\<open>Parameters.\<close> Regular expressions, Aho-Corasick, libinjection, gjson, mime, multipart, encoding/xml, JSON schemas,
  URL parsing, bcrypt, DNS, the file system, the database, Redis, and the writer and handler of the HTTP
  server are arguments of the definitions that use them. Case conversion is that of ASCII. Time is one clock.

  \<^bold>\<open>Not modelled.\<close> The configuration language (\<open>internal/seclang\<close>) and the audit log output (\<open>internal/auditlog\<close>),
  so that rules enter the model as values and the decision to log is where it ends; other builds than the
  default one (multiphase evaluation, case-sensitive arguments, memoised builders); statistics and getters; debug
  output; the Redis side of the rate limiter; the remaining packages of the gateway, of which some
  are database, network, log and report output, and others hold logic that is not covered yet (\<open>security\<close>,
  \<open>auth\<close>, \<open>authservice\<close>, \<open>apikeys\<close>, \<open>secrets\<close>, \<open>threat\<close>, \<open>geoip\<close>, \<open>graphql\<close>, \<open>respbody\<close>, \<open>requestid\<close>, \<open>waf\<close>, \<open>api\<close>);
  generators, test runners and command-line tools. Floating point numbers of reports and metrics have no counterpart here.
\<close>

end
